(* ===== verification/GoPrelude.thy ===== *)
theory GoPrelude
  imports Main "HOL-Library.AList" "HOL-Library.Word" "HOL-Library.Multiset"
begin

text \<open>
  What the components share: Go's strings, maps and pointers as HOL types, the decimal and
  hexadecimal rendering that \<^verbatim>\<open>fmt.Sprintf\<close> does for the keys of the code, splitting
  and joining of strings (\<^verbatim>\<open>strings.Split\<close>, \<^verbatim>\<open>strings.Join\<close>), and the
  collections of rewrite rules that the component proofs use.

  A Go string and a Go byte slice are both a sequence of bytes, so both are \<open>string\<close>
  (an 8-bit \<open>char list\<close>) here and the conversions between them are the identity. A Go map
  is an association list with distinct keys; its order is not observable except through
  \<^verbatim>\<open>range\<close>, whose order is a parameter of the model.
\<close>

type_synonym bytes = string
type_synonym peerID = string
type_synonym ('k, 'v) gomap = "('k \<times> 'v) list"
type_synonym uint64 = "64 word"

named_theorems key_simps \<open>the string keys of the code's maps\<close>

section \<open>Results of calls that may not return\<close>

text \<open>
  A call returns, panics (in Go: ends the process, since no code here recovers) or blocks for
  ever on a channel.
\<close>

datatype 'a outcome = Returns 'a | Panics | Blocks

fun map_outcome :: "('a \<Rightarrow> 'b) \<Rightarrow> 'a outcome \<Rightarrow> 'b outcome" where
  "map_outcome f (Returns a) = Returns (f a)"
| "map_outcome f Panics = Panics"
| "map_outcome f Blocks = Blocks"

lemma map_outcome_Returns [simp]:
  "map_outcome f r = Returns b \<longleftrightarrow> (\<exists>a. r = Returns a \<and> b = f a)"
  by (cases r) auto

lemma map_outcome_Panics [simp]: "map_outcome f r = Panics \<longleftrightarrow> r = Panics"
  by (cases r) auto

lemma map_outcome_Blocks [simp]: "map_outcome f r = Blocks \<longleftrightarrow> r = Blocks"
  by (cases r) auto

section \<open>Go maps\<close>

definition mget :: "('k, 'v) gomap \<Rightarrow> 'k \<Rightarrow> 'v option" where
  "mget m k = map_of m k"

definition mput :: "('k, 'v) gomap \<Rightarrow> 'k \<Rightarrow> 'v \<Rightarrow> ('k, 'v) gomap" where
  "mput m k v = AList.update k v m"

definition mdel :: "('k, 'v) gomap \<Rightarrow> 'k \<Rightarrow> ('k, 'v) gomap" where
  "mdel m k = AList.delete k m"

definition mkeys :: "('k, 'v) gomap \<Rightarrow> 'k list" where
  "mkeys m = map fst m"

definition mwf :: "('k, 'v) gomap \<Rightarrow> bool" where
  "mwf m \<longleftrightarrow> distinct (mkeys m)"

text \<open>
  The interface the components use of a map: what a lookup returns after each operation.
  The clients' lemmas are proved from these laws; the interpretation gives them for the
  association lists of the model.
\<close>

locale go_map =
  fixes get :: "'m \<Rightarrow> 'k \<Rightarrow> 'v option"
    and put :: "'m \<Rightarrow> 'k \<Rightarrow> 'v \<Rightarrow> 'm"
    and del :: "'m \<Rightarrow> 'k \<Rightarrow> 'm"
    and keys :: "'m \<Rightarrow> 'k list"
    and wf :: "'m \<Rightarrow> bool"
  assumes get_put: "get (put m k v) k' = (if k' = k then Some v else get m k')"
    and get_del: "get (del m k) k' = (if k' = k then None else get m k')"
    and keys_get: "set (keys m) = {k. get m k \<noteq> None}"
    and wf_put: "wf m \<Longrightarrow> wf (put m k v)"
    and wf_del: "wf m \<Longrightarrow> wf (del m k)"
begin

lemma get_put_same: "get (put m k v) k = Some v"
  by (simp add: get_put)

lemma get_put_other: "k' \<noteq> k \<Longrightarrow> get (put m k v) k' = get m k'"
  by (simp add: get_put)

lemma get_del_same: "get (del m k) k = None"
  by (simp add: get_del)

lemma get_del_other: "k' \<noteq> k \<Longrightarrow> get (del m k) k' = get m k'"
  by (simp add: get_del)

lemma keys_put: "set (keys (put m k v)) = insert k (set (keys m))"
  by (auto simp: keys_get get_put)

lemma keys_del: "set (keys (del m k)) = set (keys m) - {k}"
  by (auto simp: keys_get get_del)

lemma all_put: "\<forall>k' v'. get m k' = Some v' \<longrightarrow> P k' v' \<Longrightarrow> P k v \<Longrightarrow>
    get (put m k v) k' = Some v' \<Longrightarrow> P k' v'"
  by (auto simp: get_put split: if_splits)

lemma all_del: "\<forall>k' v'. get m k' = Some v' \<longrightarrow> P k' v' \<Longrightarrow>
    get (del m k) k' = Some v' \<Longrightarrow> P k' v'"
  by (auto simp: get_del split: if_splits)

lemma put_absent_keeps: "get m k = None \<Longrightarrow> get m k' = Some v' \<Longrightarrow> get (put m k v) k' = Some v'"
  by (auto simp: get_put)

end

interpretation gm: go_map mget mput mdel mkeys mwf
  by unfold_locales
    (auto simp: mget_def mput_def mdel_def mkeys_def mwf_def update_conv' delete_conv'
      distinct_update distinct_delete dom_map_of_conv_image_fst [symmetric] domIff
      simp flip: dom_def)

declare gm.get_put [simp] gm.get_del [simp] gm.wf_put [simp] gm.wf_del [simp]

lemma mget_Nil [simp]: "mget [] k = None"
  by (simp add: mget_def)

lemma mwf_Nil [simp]: "mwf []"
  by (simp add: mwf_def mkeys_def)

lemma mput_Nil [simp]: "mput [] k v = [(k, v)]"
  by (simp add: mput_def)

lemma mget_Cons [simp]: "mget ((k, v) # m) k' = (if k' = k then Some v else mget m k')"
  by (simp add: mget_def)

lemma mwf_Cons [simp]: "mwf ((k, v) # m) \<longleftrightarrow> k \<notin> set (mkeys m) \<and> mwf m"
  by (simp add: mwf_def mkeys_def)

lemma mkeys_simps [simp]: "mkeys [] = []" "mkeys ((k, v) # m) = k # mkeys m"
  by (simp_all add: mkeys_def)

lemma mdel_mdel [simp]: "mdel (mdel m k) k = mdel m k"
  by (simp add: mdel_def delete_idem)

lemma mget_in_keys: "mget m k = Some v \<Longrightarrow> k \<in> set (mkeys m)"
  by (simp add: gm.keys_get)

lemma mkeys_ex: "k \<in> set (mkeys m) \<Longrightarrow> \<exists>v. mget m k = Some v"
  by (simp add: gm.keys_get)

section \<open>Pointers\<close>

text \<open>
  The structs that the code shares through pointers live in a store: a pointer is a number,
  \<open>next\<close> the first number not handed out yet.
\<close>

type_synonym ptr = nat

record 'a store =
  cells :: "ptr \<Rightarrow> 'a"
  fresh :: ptr

definition sget :: "'a store \<Rightarrow> ptr \<Rightarrow> 'a" where
  "sget st p = cells st p"

definition sput :: "'a store \<Rightarrow> ptr \<Rightarrow> 'a \<Rightarrow> 'a store" where
  "sput st p v = st\<lparr>cells := (cells st)(p := v)\<rparr>"

definition snew :: "'a store \<Rightarrow> 'a \<Rightarrow> ptr \<times> 'a store" where
  "snew st v = (fresh st, st\<lparr>cells := (cells st)(fresh st := v), fresh := Suc (fresh st)\<rparr>)"

text \<open>The interface of a store of structs: reading after writing and after allocating.\<close>

locale struct_store =
  fixes rd :: "'s \<Rightarrow> ptr \<Rightarrow> 'a"
    and wr :: "'s \<Rightarrow> ptr \<Rightarrow> 'a \<Rightarrow> 's"
    and alloc :: "'s \<Rightarrow> 'a \<Rightarrow> ptr \<times> 's"
    and valid :: "'s \<Rightarrow> ptr \<Rightarrow> bool"
  assumes rd_wr: "rd (wr s p v) q = (if q = p then v else rd s q)"
    and rd_alloc: "alloc s v = (p, s') \<Longrightarrow> rd s' q = (if q = p then v else rd s q)"
    and valid_wr: "valid (wr s p v) q = valid s q"
    and valid_alloc: "alloc s v = (p, s') \<Longrightarrow> valid s' q = (q = p \<or> valid s q)"
    and alloc_fresh: "alloc s v = (p, s') \<Longrightarrow> \<not> valid s p"
begin

lemma rd_wr_same: "rd (wr s p v) p = v"
  by (simp add: rd_wr)

lemma rd_wr_other: "q \<noteq> p \<Longrightarrow> rd (wr s p v) q = rd s q"
  by (simp add: rd_wr)

lemma alloc_keeps: "alloc s v = (p, s') \<Longrightarrow> valid s q \<Longrightarrow> rd s' q = rd s q"
  using rd_alloc [of s v p s' q] alloc_fresh [of s v p s'] by auto

lemma alloc_valid: "alloc s v = (p, s') \<Longrightarrow> valid s' p"
  by (simp add: valid_alloc)

end

interpretation st: struct_store sget sput snew "\<lambda>st p. p < fresh st"
  by unfold_locales (auto simp: sget_def sput_def snew_def)

declare st.rd_wr [simp]

lemma fresh_sput [simp]: "fresh (sput st p v) = fresh st"
  by (simp add: sput_def)

section \<open>Decimal and hexadecimal rendering\<close>

definition digit :: "nat \<Rightarrow> char" where
  "digit d = char_of (48 + d)"

fun decimal :: "nat \<Rightarrow> string" where
  "decimal n = (if n < 10 then [digit n] else decimal (n div 10) @ [digit (n mod 10)])"

declare decimal.simps [simp del]

definition undecimal :: "string \<Rightarrow> nat" where
  "undecimal ds = foldl (\<lambda>a c. 10 * a + (of_char c - 48)) 0 ds"

lemma undecimal_digit: "d < 10 \<Longrightarrow> of_char (digit d) - 48 = d"
  by (simp add: digit_def)

lemma undecimal_snoc: "undecimal (ds @ [c]) = 10 * undecimal ds + (of_char c - 48)"
  by (simp add: undecimal_def)

lemma undecimal_decimal: "undecimal (decimal n) = n"
proof (induction n rule: decimal.induct)
  case (1 n)
  show ?case
  proof (cases "n < 10")
    case True
    then show ?thesis
      by (simp add: decimal.simps [of n] undecimal_def undecimal_digit)
  next
    case False
    have d: "of_char (digit (n mod 10)) - 48 = n mod 10"
      by (rule undecimal_digit) simp
    from False 1 show ?thesis
      by (simp add: decimal.simps [of n] undecimal_snoc d)
  qed
qed

lemma decimal_inj [key_simps]: "decimal m = decimal n \<longleftrightarrow> m = n"
  by (metis undecimal_decimal)

lemma decimal_digits: "c \<in> set (decimal n) \<Longrightarrow> \<exists>d<10. c = digit d"
proof (induction n rule: decimal.induct)
  case (1 n)
  show ?case
  proof (cases "n < 10")
    case True
    with "1.prems" show ?thesis by (auto simp: decimal.simps [of n])
  next
    case False
    then have split: "c \<in> set (decimal (n div 10)) \<or> c = digit (n mod 10)"
      using "1.prems" by (auto simp: decimal.simps [of n])
    have "n mod 10 < 10" by simp
    with split False "1.IH" show ?thesis by blast
  qed
qed

lemma digit_neq: "d < 10 \<Longrightarrow> of_char c < (48::nat) \<or> 57 < (of_char c::nat) \<Longrightarrow> digit d \<noteq> c"
  by (auto simp: digit_def)

lemma decimal_no_sep:
  assumes "of_char c < (48::nat) \<or> 57 < (of_char c::nat)"
  shows "c \<notin> set (decimal n)"
  using decimal_digits [of c n] digit_neq assms by auto

definition hexdigit :: "nat \<Rightarrow> char" where
  "hexdigit d = (if d < 10 then char_of (48 + d) else char_of (87 + d))"

definition hexbyte :: "8 word \<Rightarrow> string" where
  "hexbyte b = [hexdigit (unat b div 16), hexdigit (unat b mod 16)]"

lemma length_hexbyte [simp]: "length (hexbyte b) = 2"
  by (simp add: hexbyte_def)

text \<open>A key \<open>prefix sep rest\<close> determines both parts when the prefix cannot hold \<open>sep\<close>.\<close>

lemma key_split:
  assumes "c \<notin> set xs" "c \<notin> set ys"
  shows "xs @ c # us = ys @ c # vs \<longleftrightarrow> xs = ys \<and> us = vs"
  using assms
proof (induction xs arbitrary: ys)
  case Nil
  then show ?case by (cases ys) auto
next
  case (Cons x xs)
  then show ?case by (cases ys) auto
qed

section \<open>Splitting and joining\<close>

text \<open>\<^verbatim>\<open>strings.Split(s, sep)\<close> and \<^verbatim>\<open>strings.Join(xs, sep)\<close> for a
  separator of one character.\<close>

fun split_on :: "char \<Rightarrow> string \<Rightarrow> string list" where
  "split_on c [] = [[]]"
| "split_on c (x # xs) =
     (if x = c then [] # split_on c xs
      else (case split_on c xs of [] \<Rightarrow> [[x]] | y # ys \<Rightarrow> (x # y) # ys))"

fun join_with :: "char \<Rightarrow> string list \<Rightarrow> string" where
  "join_with c [] = []"
| "join_with c [x] = x"
| "join_with c (x # y # zs) = x @ c # join_with c (y # zs)"

lemma split_on_nonempty: "split_on c xs \<noteq> []"
  by (induction xs) (auto split: list.splits)

lemma split_on_none: "c \<notin> set xs \<Longrightarrow> split_on c xs = [xs]"
  by (induction xs) auto

lemma split_on_sep: "c \<notin> set xs \<Longrightarrow> split_on c (xs @ c # ys) = xs # split_on c ys"
  by (induction xs) auto

lemma split_on_join:
  assumes "xs \<noteq> []" "\<forall>x \<in> set xs. c \<notin> set x"
  shows "split_on c (join_with c xs) = xs"
  using assms by (induction c xs rule: join_with.induct) (auto simp: split_on_none split_on_sep)

lemma join_chars: "d \<in> set (join_with c xs) \<Longrightarrow> d = c \<or> (\<exists>x \<in> set xs. d \<in> set x)"
  by (induction c xs rule: join_with.induct) auto

text \<open>Extending a predicate by its value at a new element of a list.\<close>

lemma filter_fun_upd:
  assumes "k \<notin> set ks"
  shows "filter (f(k := b)) (k # ks) = (if b then k # filter f ks else filter f ks)"
proof -
  have "filter (f(k := b)) ks = filter f ks"
    using assms by (intro filter_cong) auto
  then show ?thesis by (cases b) simp_all
qed

end
