(* ===== verification/Messages.thy ===== *)
theory Messages
  imports GoPrelude
begin

text \<open>
  The wire vocabulary of \<^verbatim>\<open>data.go\<close>: opcodes, one record per message struct, the
  dynamically typed \<^verbatim>\<open>Data\<close> field of \<^verbatim>\<open>Msg\<close> as a datatype with one constructor
  per Go type that is ever put into it, and the error values of the package.
\<close>

section \<open>Opcodes\<close>

type_synonym Opcode = "8 word"

definition StreamDataID :: Opcode where "StreamDataID = 0"
definition FinishStreamID :: Opcode where "FinishStreamID = 1"
definition SubReqID :: Opcode where "SubReqID = 2"
definition CancelSubID :: Opcode where "CancelSubID = 3"
definition TranscodeResponseID :: Opcode where "TranscodeResponseID = 4"
definition TranscodeSubID :: Opcode where "TranscodeSubID = 5"
definition GetMasterPlaylistReqID :: Opcode where "GetMasterPlaylistReqID = 6"
definition MasterPlaylistDataID :: Opcode where "MasterPlaylistDataID = 7"
definition NodeStatusReqID :: Opcode where "NodeStatusReqID = 8"
definition NodeStatusDataID :: Opcode where "NodeStatusDataID = 9"
definition PingID :: Opcode where "PingID = 10"
definition PongID :: Opcode where "PongID = 11"
definition SimpleString :: Opcode where "SimpleString = 12"

lemmas opcode_defs =
  StreamDataID_def FinishStreamID_def SubReqID_def CancelSubID_def TranscodeResponseID_def
  TranscodeSubID_def GetMasterPlaylistReqID_def MasterPlaylistDataID_def NodeStatusReqID_def
  NodeStatusDataID_def PingID_def PongID_def SimpleString_def

section \<open>Message structs\<close>

text \<open>
  \<^verbatim>\<open>ma.Multiaddr\<close> is an interface of a library: an opaque, non-nil value here; the
  one place of the code where a nil address can enter a message (\<^verbatim>\<open>TranscoderSubscribe\<close>)
  treats it where it is used. A playlist is a pointer to an object of the m3u8 library.
\<close>

datatype multiaddr = Multiaddr nat
datatype playlist = Playlist nat

record SubReqMsg =
  sr_StrmID :: string

record CancelSubMsg =
  cs_StrmID :: string

record FinishStreamMsg =
  fs_StrmID :: string

record StreamDataMsg =
  sd_SeqNo :: uint64
  sd_StrmID :: string
  sd_Data :: bytes

record TranscodeResponseMsg =
  tr_StrmID :: string
  tr_Result :: "string \<rightharpoonup> string"

record TranscodeSubMsg =
  ts_MultiAddrs :: "multiaddr list"
  ts_NodeID :: peerID
  ts_StrmID :: string
  ts_Sig :: bytes

record TranscodeSubMsg_b =
  tb_MultiAddrs :: "bytes list"
  tb_NodeID :: bytes
  tb_StrmID :: string
  tb_Sig :: bytes

record GetMasterPlaylistReqMsg =
  mr_ManifestID :: string

record MasterPlaylistDataMsg =
  md_ManifestID :: string
  md_MPL :: string
  md_NotFound :: bool

record NodeStatusReqMsg =
  nr_NodeID :: string

record NodeStatusDataMsg =
  nd_NodeID :: string
  nd_Data :: bytes
  nd_NotFound :: bool

text \<open>
  The dynamic values of \<^verbatim>\<open>interface{}\<close> that reach \<^verbatim>\<open>Msg.Data\<close>: the message
  structs, the two string types of ping and pong, a plain Go string (\<^verbatim>\<open>Ping\<close> sends one
  on its second attempt) and nil.
\<close>

datatype gdata =
    D_SubReq SubReqMsg
  | D_CancelSub CancelSubMsg
  | D_StreamData StreamDataMsg
  | D_FinishStream FinishStreamMsg
  | D_TranscodeResponse TranscodeResponseMsg
  | D_TranscodeSub TranscodeSubMsg
  | D_MasterPlaylistData MasterPlaylistDataMsg
  | D_GetMasterPlaylistReq GetMasterPlaylistReqMsg
  | D_NodeStatusReq NodeStatusReqMsg
  | D_NodeStatusData NodeStatusDataMsg
  | D_Ping string
  | D_Pong string
  | D_String string
  | D_Nil

record Msg =
  Op :: Opcode
  Data :: gdata

record msgAux =
  aux_Op :: Opcode
  aux_Data :: bytes

text \<open>The Go type the handlers expect under an opcode (the switch of \<^verbatim>\<open>streamHandler\<close>).\<close>

fun data_opcode :: "gdata \<Rightarrow> Opcode option" where
  "data_opcode (D_SubReq _) = Some SubReqID"
| "data_opcode (D_CancelSub _) = Some CancelSubID"
| "data_opcode (D_StreamData _) = Some StreamDataID"
| "data_opcode (D_FinishStream _) = Some FinishStreamID"
| "data_opcode (D_TranscodeResponse _) = Some TranscodeResponseID"
| "data_opcode (D_TranscodeSub _) = Some TranscodeSubID"
| "data_opcode (D_MasterPlaylistData _) = Some MasterPlaylistDataID"
| "data_opcode (D_GetMasterPlaylistReq _) = Some GetMasterPlaylistReqID"
| "data_opcode (D_NodeStatusReq _) = Some NodeStatusReqID"
| "data_opcode (D_NodeStatusData _) = Some NodeStatusDataID"
| "data_opcode (D_Ping _) = Some PingID"
| "data_opcode (D_Pong _) = Some PongID"
| "data_opcode (D_String _) = None"
| "data_opcode D_Nil = None"

definition well_typed :: "Msg \<Rightarrow> bool" where
  "well_typed m \<longleftrightarrow> data_opcode (Data m) = Some (Op m)"

section \<open>Error values\<close>

datatype go_error =
    ErrNoClosePeers
  | ErrUnknownMsg
  | ErrProtocol
  | ErrHandleMsg
  | ErrTranscodeResponse
  | ErrGetMasterPlaylist
  | ErrSendMsg
  | ErrOutStream
  | ErrSubscriber
  | ErrBadNodeID
  | ErrNotFound
  | ErrText string

section \<open>Keys of the network's maps\<close>

text \<open>\<^verbatim>\<open>relayerMapKey\<close> and \<^verbatim>\<open>msgChansKey\<close>: the opcode in decimal, a separator, the id.\<close>

definition relayerMapKey :: "string \<Rightarrow> Opcode \<Rightarrow> string" where
  "relayerMapKey strmID opcode = decimal (unat opcode) @ CHR ''-'' # strmID"

definition msgChansKey :: "Opcode \<Rightarrow> string \<Rightarrow> string" where
  "msgChansKey opcode key = decimal (unat opcode) @ CHR ''|'' # key"

lemma dash_not_decimal: "CHR ''-'' \<notin> set (decimal n)"
  by (rule decimal_no_sep) simp

lemma bar_not_decimal: "CHR ''|'' \<notin> set (decimal n)"
  by (rule decimal_no_sep) simp

lemma relayerMapKey_inj [key_simps]:
  "relayerMapKey s op = relayerMapKey s' op' \<longleftrightarrow> s = s' \<and> op = op'"
  unfolding relayerMapKey_def
  by (subst key_split) (auto simp: dash_not_decimal decimal_inj word_unat_eq_iff)

lemma msgChansKey_inj [key_simps]:
  "msgChansKey op s = msgChansKey op' s' \<longleftrightarrow> op = op' \<and> s = s'"
  unfolding msgChansKey_def
  by (subst key_split) (auto simp: bar_not_decimal decimal_inj word_unat_eq_iff)

text \<open>
  The maps of relayers and of pending requests are keyed by rendered strings,
  \<^verbatim>\<open>opcode-id\<close> and \<^verbatim>\<open>opcode|id\<close>. Two entries coincide exactly when
  opcode and id agree, whatever characters the ids hold: a stream or manifest cannot be named so
  that it captures the relayer or the response channel of another.
\<close>

theorem keys_unambiguous:
  "(relayerMapKey s op = relayerMapKey s' op' \<longleftrightarrow> s = s' \<and> op = op')
   \<and> (msgChansKey op s = msgChansKey op' s' \<longleftrightarrow> op = op' \<and> s = s')"
  by (simp add: key_simps)

end
