(* ===== verification/Environment.thy ===== *)
theory Environment
  imports Messages
begin

text \<open>
  What the code relies on and does not contain: libp2p (peer ids, streams, the peerstore,
  Kademlia's sorting), the gob and JSON byte formats, the m3u8 and monitor libraries, the
  message cache, the clock and the random source. Each is a field of the record \<open>env\<close>, an
  argument of every definition that uses it.

  A field that may answer differently at different times takes the history of the node's
  external actions so far. This is the most general deterministic environment: the peerstore
  may reflect the peers added and removed, a connection may fail at any point of the run and
  recover at any other. \<open>E_Env\<close> entries stand for what happens outside between two actions.
\<close>

section \<open>The history of external actions\<close>

type_synonym strmh = nat \<comment> \<open>a libp2p stream wrapped by a non-nil \<^verbatim>\<open>BasicOutStream\<close>\<close>

datatype effect =
    E_NewStream peerID "strmh option"
  | E_Reset strmh
  | E_Encode strmh Msg bool
  | E_Flush strmh Msg bool
  | E_Connect peerID "multiaddr list" bool
  | E_AddPeer peerID "multiaddr list"
  | E_RemovePeer peerID
  | E_ClosePeer peerID
  | E_CloseConn strmh
  | E_CacheAdd string
  | E_LogBroadcaster string
  | E_LogSub string
  | E_LogRelay string string
  | E_RemoveRelay string
  | E_LogConn peerID peerID
  | E_RemoveConn peerID peerID
  | E_DHTPut string bytes bool
  | E_Notify ptr
  | E_StopNotify ptr
  | E_Callback nat "string \<rightharpoonup> string"
  | E_GotData ptr uint64 bytes bool
  | E_Sleep
  | E_Rand
  | E_Recv peerID
  | E_ResetIncoming peerID
  | E_CloseIncoming peerID
  | E_Env nat

type_synonym history = "effect list" \<comment> \<open>latest first\<close>

text \<open>The messages that left the node, latest first: encoded and flushed without an error.\<close>

fun sent :: "history \<Rightarrow> (strmh \<times> Msg) list" where
  "sent [] = []"
| "sent (E_Flush sh m ok # h) = (if ok then (sh, m) # sent h else sent h)"
| "sent (e # h) = sent h"

text \<open>What the client of a subscriber was handed, latest first.\<close>

fun got_data :: "ptr \<Rightarrow> history \<Rightarrow> (uint64 \<times> bytes \<times> bool) list" where
  "got_data p [] = []"
| "got_data p (E_GotData q n d eof # h) = (if q = p then (n, d, eof) # got_data p h else got_data p h)"
| "got_data p (e # h) = got_data p h"

definition is_flush :: "effect \<Rightarrow> bool" where
  "is_flush e = (case e of E_Flush _ _ ok \<Rightarrow> ok | _ \<Rightarrow> False)"

lemma sent_Cons_other [simp]: "\<not> is_flush e \<Longrightarrow> sent (e # h) = sent h"
  by (cases e) (auto simp: is_flush_def)

section \<open>Values of the gob format\<close>

text \<open>
  What is handed to \<^verbatim>\<open>gob\<close>: the message structs themselves, except that
  \<^verbatim>\<open>TranscodeSubMsg\<close> implements \<^verbatim>\<open>GobEncoder\<close>, so gob sees the bytes its
  \<^verbatim>\<open>GobEncode\<close> returns; those bytes hold a gob-encoded \<^verbatim>\<open>TranscodeSubMsg_b\<close>.
\<close>

datatype gobval =
    G_SubReq SubReqMsg
  | G_CancelSub CancelSubMsg
  | G_StreamData StreamDataMsg
  | G_FinishStream FinishStreamMsg
  | G_TranscodeResponse TranscodeResponseMsg
  | G_TranscodeSub bytes
  | G_TranscodeSub_b TranscodeSubMsg_b
  | G_MasterPlaylistData MasterPlaylistDataMsg
  | G_GetMasterPlaylistReq GetMasterPlaylistReqMsg
  | G_NodeStatusReq NodeStatusReqMsg
  | G_NodeStatusData NodeStatusDataMsg
  | G_Ping string
  | G_Pong string

datatype gobtype =
    T_SubReq | T_CancelSub | T_StreamData | T_FinishStream | T_TranscodeResponse
  | T_TranscodeSub | T_TranscodeSub_b | T_MasterPlaylistData | T_GetMasterPlaylistReq
  | T_NodeStatusReq | T_NodeStatusData | T_Ping | T_Pong

fun gobtype_of :: "gobval \<Rightarrow> gobtype" where
  "gobtype_of (G_SubReq _) = T_SubReq"
| "gobtype_of (G_CancelSub _) = T_CancelSub"
| "gobtype_of (G_StreamData _) = T_StreamData"
| "gobtype_of (G_FinishStream _) = T_FinishStream"
| "gobtype_of (G_TranscodeResponse _) = T_TranscodeResponse"
| "gobtype_of (G_TranscodeSub _) = T_TranscodeSub"
| "gobtype_of (G_TranscodeSub_b _) = T_TranscodeSub_b"
| "gobtype_of (G_MasterPlaylistData _) = T_MasterPlaylistData"
| "gobtype_of (G_GetMasterPlaylistReq _) = T_GetMasterPlaylistReq"
| "gobtype_of (G_NodeStatusReq _) = T_NodeStatusReq"
| "gobtype_of (G_NodeStatusData _) = T_NodeStatusData"
| "gobtype_of (G_Ping _) = T_Ping"
| "gobtype_of (G_Pong _) = T_Pong"

section \<open>The environment\<close>

record env =
  \<comment> \<open>peer ids and multiaddresses\<close>
  IDHexEncode :: "peerID \<Rightarrow> string"
  IDHexDecode :: "string \<Rightarrow> go_error + peerID"
  IDFromBytes :: "bytes \<Rightarrow> go_error + peerID"
  maBytes :: "multiaddr \<Rightarrow> bytes"
  maString :: "multiaddr \<Rightarrow> string"
  NewMultiaddr :: "string \<Rightarrow> go_error + multiaddr"
  NewMultiaddrBytes :: "bytes \<Rightarrow> go_error + multiaddr"
  \<comment> \<open>byte formats; a gob decoder that is given a type returns a value of that type\<close>
  gobEncode :: "gobval \<Rightarrow> string + bytes"
  gobDecode :: "gobtype \<Rightarrow> bytes \<Rightarrow> string + gobval"
  jsonEncode :: "msgAux \<Rightarrow> string + bytes"
  jsonDecode :: "bytes \<Rightarrow> msgAux"
  \<comment> \<open>m3u8 and the node status of the net package\<close>
  mplString :: "playlist \<Rightarrow> string"
  mplEncode :: "playlist \<Rightarrow> bytes"
  mplDecode :: "string \<Rightarrow> go_error + playlist"
  statusString :: "string \<Rightarrow> (string, playlist) gomap \<Rightarrow> string"
  StatusFromString :: "string \<Rightarrow> go_error + string \<times> (string, playlist) gomap"
  \<comment> \<open>host, streams and peerstore\<close>
  RemotePeer :: "strmh \<Rightarrow> peerID"
  NewStream :: "history \<Rightarrow> peerID \<Rightarrow> go_error + strmh"
  EncodeTo :: "history \<Rightarrow> strmh \<Rightarrow> bytes \<Rightarrow> go_error option"
  FlushTo :: "history \<Rightarrow> strmh \<Rightarrow> go_error option"
  HostConnect :: "history \<Rightarrow> peerID \<Rightarrow> multiaddr list \<Rightarrow> go_error option"
  Peers :: "history \<Rightarrow> peerID list"
  Connected :: "history \<Rightarrow> peerID \<Rightarrow> bool"
  CloseConn :: "history \<Rightarrow> strmh \<Rightarrow> go_error option"
  PeerAddrs :: "history \<Rightarrow> peerID \<Rightarrow> multiaddr list option"
  DHTGet :: "history \<Rightarrow> string \<Rightarrow> go_error + bytes"
  DHTPut :: "history \<Rightarrow> string \<Rightarrow> bytes \<Rightarrow> go_error option"
  SortClosestPeers :: "peerID list \<Rightarrow> peerID \<Rightarrow> peerID list"
  \<comment> \<open>time, randomness, the order of \<^verbatim>\<open>range\<close> over a map, the message cache\<close>
  Now :: "history \<Rightarrow> int"
  RandUint32 :: "history \<Rightarrow> nat \<Rightarrow> 32 word"
  MapRange :: "history \<Rightarrow> string list \<Rightarrow> string list"
  CacheHas :: "history \<Rightarrow> string \<Rightarrow> bool"

section \<open>Documented behaviour of the environment, as named hypotheses\<close>

text \<open>Hexadecimal encoding of a peer id is injective.\<close>

definition hex_injective :: "env \<Rightarrow> bool" where
  "hex_injective env \<longleftrightarrow> (\<forall>p q. IDHexEncode env p = IDHexEncode env q \<longrightarrow> p = q)"

text \<open>A stream that the host opens to a peer has that peer at its other end.\<close>

definition streams_reach :: "env \<Rightarrow> bool" where
  "streams_reach env \<longleftrightarrow> (\<forall>h p sh. NewStream env h p = Inr sh \<longrightarrow> RemotePeer env sh = p)"

text \<open>Sorting by distance only reorders the peers.\<close>

definition sort_permutes :: "env \<Rightarrow> bool" where
  "sort_permutes env \<longleftrightarrow> (\<forall>ps t. mset (SortClosestPeers env ps t) = mset ps)"

text \<open>Ranging over a map visits each key once, in some order.\<close>

definition range_permutes :: "env \<Rightarrow> bool" where
  "range_permutes env \<longleftrightarrow> (\<forall>h ks. mset (MapRange env h ks) = mset ks)"

text \<open>A gob decoder recovers the value that a gob encoder wrote, given its type.\<close>

definition gob_roundtrip :: "env \<Rightarrow> bool" where
  "gob_roundtrip env \<longleftrightarrow>
     (\<forall>v b. gobEncode env v = Inr b \<longrightarrow> gobDecode env (gobtype_of v) b = Inr v)"

definition json_roundtrip :: "env \<Rightarrow> bool" where
  "json_roundtrip env \<longleftrightarrow> (\<forall>a b. jsonEncode env a = Inr b \<longrightarrow> jsonDecode env b = a)"

definition gob_typed :: "env \<Rightarrow> bool" where
  "gob_typed env \<longleftrightarrow> (\<forall>t b v. gobDecode env t b = Inr v \<longrightarrow> gobtype_of v = t)"

text \<open>No peer has the empty id, so no stream to it can be opened.\<close>

definition no_empty_peer :: "env \<Rightarrow> bool" where
  "no_empty_peer env \<longleftrightarrow> (\<forall>h sh. NewStream env h [] \<noteq> Inr sh)"

lemma hex_injectiveD: "hex_injective env \<Longrightarrow> IDHexEncode env p = IDHexEncode env q \<longleftrightarrow> p = q"
  by (auto simp: hex_injective_def)

lemma sort_set: "sort_permutes env \<Longrightarrow> set (SortClosestPeers env ps t) = set ps"
  unfolding sort_permutes_def by (metis set_mset_mset)

lemma range_set: "range_permutes env \<Longrightarrow> set (MapRange env h ks) = set ks"
  unfolding range_permutes_def by (metis set_mset_mset)

lemma range_distinct: "range_permutes env \<Longrightarrow> distinct (MapRange env h ks) = distinct ks"
  unfolding range_permutes_def by (metis mset_eq_imp_distinct_iff)

section \<open>Random nonces\<close>

text \<open>\<^verbatim>\<open>randStr\<close>: ten random bytes, each rendered as two hexadecimal digits.\<close>

definition randStr :: "env \<Rightarrow> history \<Rightarrow> string" where
  "randStr env h = concat (map (\<lambda>i. hexbyte (ucast (RandUint32 env h i))) [0..<10])"

lemma length_randStr: "length (randStr env h) = 20"
  by (simp add: randStr_def length_concat comp_def sum_list_triv)

end
