(* ===== verification/Demo.thy ===== *)
theory Demo
  imports Environment
begin

text \<open>
  A concrete environment that satisfies every hypothesis of \<^verbatim>\<open>Environment\<close>: five peers
  with 68-character ids, streams that work for two of them, fail when flushed for the third and
  cannot be opened for the fourth, and simple byte formats. The witnesses of the properties
  evaluate the code's definitions in it; no property is about it.
\<close>

definition pMe :: peerID where "pMe = replicate 68 (CHR ''m'')"
definition pA :: peerID where "pA = replicate 68 (CHR ''a'')"
definition pB :: peerID where "pB = replicate 68 (CHR ''b'')"
definition pC :: peerID where "pC = replicate 68 (CHR ''c'')"
definition pD :: peerID where "pD = replicate 68 (CHR ''d'')"

lemma peers_distinct [simp]:
  "pMe \<noteq> pA" "pMe \<noteq> pB" "pMe \<noteq> pC" "pMe \<noteq> pD" "pA \<noteq> pMe" "pB \<noteq> pMe" "pC \<noteq> pMe" "pD \<noteq> pMe"
  "pA \<noteq> pB" "pA \<noteq> pC" "pA \<noteq> pD" "pB \<noteq> pA" "pB \<noteq> pC" "pB \<noteq> pD" "pC \<noteq> pA" "pC \<noteq> pB" "pC \<noteq> pD"
  "pD \<noteq> pA" "pD \<noteq> pB" "pD \<noteq> pC"
  by (simp_all add: pMe_def pA_def pB_def pC_def pD_def)

lemma peers_length [simp]:
  "length pMe = 68" "length pA = 68" "length pB = 68" "length pC = 68" "length pD = 68"
  by (simp_all add: pMe_def pA_def pB_def pC_def pD_def)

lemma peers_localSub [simp]:
  "pMe \<noteq> ''localSub''" "pA \<noteq> ''localSub''" "pB \<noteq> ''localSub''" "pC \<noteq> ''localSub''" "pD \<noteq> ''localSub''"
  "''localSub'' \<noteq> pA" "''localSub'' \<noteq> pB"
  by (auto dest: arg_cong [where f = length])

lemma peers_nonempty [simp]: "[] \<noteq> pA" "[] \<noteq> pB" "[] \<noteq> pC" "[] \<noteq> pMe" "pMe \<noteq> []" "pA \<noteq> []" "pB \<noteq> []" "pC \<noteq> []" "pD \<noteq> []"
  by (simp_all add: pMe_def pA_def pB_def pC_def pD_def)

lemma peers_no_bar [simp]:
  "CHR ''|'' \<notin> set pMe" "CHR ''|'' \<notin> set pA" "CHR ''|'' \<notin> set pB" "CHR ''|'' \<notin> set pC" "CHR ''|'' \<notin> set pD"
  by (simp_all add: pMe_def pA_def pB_def pC_def pD_def)

section \<open>Byte formats\<close>

definition demo_pair :: "string \<Rightarrow> bytes \<Rightarrow> string + bytes" where
  "demo_pair k b = (if CHR ''|'' \<in> set k then Inl ''bad key'' else Inr (k @ CHR ''|'' # b))"

definition demo_key :: "bytes \<Rightarrow> string" where
  "demo_key b = takeWhile (\<lambda>c. c \<noteq> CHR ''|'') b"

definition demo_rest :: "bytes \<Rightarrow> bytes" where
  "demo_rest b = tl (dropWhile (\<lambda>c. c \<noteq> CHR ''|'') b)"

lemma demo_split: "CHR ''|'' \<notin> set k \<Longrightarrow> demo_key (k @ CHR ''|'' # b) = k \<and> demo_rest (k @ CHR ''|'' # b) = b"
  by (induction k) (auto simp: demo_key_def demo_rest_def)

definition demo_flag :: "bool \<Rightarrow> char" where
  "demo_flag b = (if b then CHR ''t'' else CHR ''f'')"

fun demo_gobEncode :: "gobval \<Rightarrow> string + bytes" where
  "demo_gobEncode (G_SubReq m) = Inr (sr_StrmID m)"
| "demo_gobEncode (G_CancelSub m) = Inr (cs_StrmID m)"
| "demo_gobEncode (G_StreamData m) =
     (if unat (sd_SeqNo m) < 256 then demo_pair (sd_StrmID m) (char_of (unat (sd_SeqNo m)) # sd_Data m)
      else Inl ''too large'')"
| "demo_gobEncode (G_FinishStream m) = Inr (fs_StrmID m)"
| "demo_gobEncode (G_MasterPlaylistData m) =
     demo_pair (md_ManifestID m) (demo_flag (md_NotFound m) # md_MPL m)"
| "demo_gobEncode (G_GetMasterPlaylistReq m) = Inr (mr_ManifestID m)"
| "demo_gobEncode (G_NodeStatusReq m) = Inr (nr_NodeID m)"
| "demo_gobEncode (G_NodeStatusData m) =
     demo_pair (nd_NodeID m) (demo_flag (nd_NotFound m) # nd_Data m)"
| "demo_gobEncode (G_Ping m) = Inr m"
| "demo_gobEncode (G_Pong m) = Inr m"
| "demo_gobEncode _ = Inl ''unsupported''"

fun demo_gobDecode :: "gobtype \<Rightarrow> bytes \<Rightarrow> string + gobval" where
  "demo_gobDecode T_SubReq b = Inr (G_SubReq \<lparr>sr_StrmID = b\<rparr>)"
| "demo_gobDecode T_CancelSub b = Inr (G_CancelSub \<lparr>cs_StrmID = b\<rparr>)"
| "demo_gobDecode T_StreamData b =
     Inr (G_StreamData \<lparr>sd_SeqNo = of_nat (of_char (hd (demo_rest b))), sd_StrmID = demo_key b,
                        sd_Data = tl (demo_rest b)\<rparr>)"
| "demo_gobDecode T_FinishStream b = Inr (G_FinishStream \<lparr>fs_StrmID = b\<rparr>)"
| "demo_gobDecode T_MasterPlaylistData b =
     Inr (G_MasterPlaylistData \<lparr>md_ManifestID = demo_key b, md_MPL = tl (demo_rest b),
                                md_NotFound = (hd (demo_rest b) = CHR ''t'')\<rparr>)"
| "demo_gobDecode T_GetMasterPlaylistReq b = Inr (G_GetMasterPlaylistReq \<lparr>mr_ManifestID = b\<rparr>)"
| "demo_gobDecode T_NodeStatusReq b = Inr (G_NodeStatusReq \<lparr>nr_NodeID = b\<rparr>)"
| "demo_gobDecode T_NodeStatusData b =
     Inr (G_NodeStatusData \<lparr>nd_NodeID = demo_key b, nd_Data = tl (demo_rest b),
                            nd_NotFound = (hd (demo_rest b) = CHR ''t'')\<rparr>)"
| "demo_gobDecode T_Ping b = Inr (G_Ping b)"
| "demo_gobDecode T_Pong b = Inr (G_Pong b)"
| "demo_gobDecode _ b = Inl ''unsupported''"

definition demo_jsonDecode :: "bytes \<Rightarrow> msgAux" where
  "demo_jsonDecode b =
     (case b of [] \<Rightarrow> \<lparr>aux_Op = 0, aux_Data = []\<rparr>
      | c # cs \<Rightarrow> \<lparr>aux_Op = of_nat (of_char c), aux_Data = cs\<rparr>)"

section \<open>The environment\<close>

fun demo_remote :: "strmh \<Rightarrow> peerID" where
  "demo_remote sh = (if sh = 1 then pA else if sh = 2 then pB else pC)"

declare demo_remote.simps [simp del]

definition demo_open :: "peerID \<Rightarrow> go_error + strmh" where
  "demo_open p =
     (if p = pA then Inr 1 else if p = pB then Inr 2 else if p = pC then Inr 3
      else Inl (ErrText ''dial failed''))"

definition demo_env :: env where
  "demo_env = \<lparr>
     IDHexEncode = (\<lambda>p. p), IDHexDecode = Inr, IDFromBytes = Inr,
     maBytes = (\<lambda>m. case m of Multiaddr n \<Rightarrow> decimal n),
     maString = (\<lambda>m. case m of Multiaddr n \<Rightarrow> decimal n),
     NewMultiaddr = (\<lambda>t. if t = [] then Inl (ErrText ''empty'') else Inr (Multiaddr (undecimal t))),
     NewMultiaddrBytes = (\<lambda>t. Inr (Multiaddr (undecimal t))),
     gobEncode = demo_gobEncode, gobDecode = demo_gobDecode,
     jsonEncode = (\<lambda>a. Inr (char_of (unat (aux_Op a)) # aux_Data a)), jsonDecode = demo_jsonDecode,
     mplString = (\<lambda>m. case m of Playlist n \<Rightarrow> decimal n),
     mplEncode = (\<lambda>m. case m of Playlist n \<Rightarrow> decimal n),
     mplDecode = (\<lambda>t. Inr (Playlist (undecimal t))),
     statusString = (\<lambda>n m. n), StatusFromString = (\<lambda>t. Inr (t, [])),
     RemotePeer = demo_remote,
     NewStream = (\<lambda>h p. demo_open p),
     EncodeTo = (\<lambda>h sh b. None),
     FlushTo = (\<lambda>h sh. if sh = 3 then Some (ErrText ''connection reset'') else None),
     HostConnect = (\<lambda>h p as. if p = pD then Some (ErrText ''dial failed'') else None),
     Peers = (\<lambda>h. [pMe, pC, pA, pB]),
     Connected = (\<lambda>h p. p = pA), CloseConn = (\<lambda>h sh. None),
     PeerAddrs = (\<lambda>h p. if p = pA then Some [Multiaddr 1] else None),
     DHTGet = (\<lambda>h k. Inl ErrNotFound), DHTPut = (\<lambda>h k b. None),
     SortClosestPeers = (\<lambda>ps t. ps),
     Now = (\<lambda>h. 200 * 1000000000),
     RandUint32 = (\<lambda>h i. of_nat i),
     MapRange = (\<lambda>h ks. ks),
     CacheHas = (\<lambda>h k. list_ex (\<lambda>e. case e of E_CacheAdd k' \<Rightarrow> k' = k | _ \<Rightarrow> False) h)\<rparr>"

lemma demo_fields [simp]:
  "IDHexEncode demo_env p = p" "IDHexDecode demo_env k = Inr k" "IDFromBytes demo_env k = Inr k"
  "gobEncode demo_env = demo_gobEncode" "gobDecode demo_env = demo_gobDecode"
  "jsonEncode demo_env a = Inr (char_of (unat (aux_Op a)) # aux_Data a)"
  "jsonDecode demo_env = demo_jsonDecode" "RemotePeer demo_env = demo_remote"
  "NewStream demo_env h p = demo_open p" "EncodeTo demo_env h sh b = None"
  "FlushTo demo_env h sh = (if sh = 3 then Some (ErrText ''connection reset'') else None)"
  "HostConnect demo_env h p as = (if p = pD then Some (ErrText ''dial failed'') else None)"
  "Peers demo_env h = [pMe, pC, pA, pB]"
  "PeerAddrs demo_env h p = (if p = pA then Some [Multiaddr 1] else None)"
  "SortClosestPeers demo_env ps t = ps" "Now demo_env h = 200 * 1000000000"
  "MapRange demo_env h ks = ks"
  "CacheHas demo_env h k = list_ex (\<lambda>e. case e of E_CacheAdd k' \<Rightarrow> k' = k | _ \<Rightarrow> False) h"
  "NewMultiaddr demo_env t = (if t = [] then Inl (ErrText ''empty'') else Inr (Multiaddr (undecimal t)))"
  "maBytes demo_env (Multiaddr n) = decimal n" "maString demo_env (Multiaddr n) = decimal n"
  "mplString demo_env (Playlist n) = decimal n" "statusString demo_env k mm = k"
  "StatusFromString demo_env t = Inr (t, [])" "Connected demo_env h p = (p = pA)"
  "CloseConn demo_env h sh = None"
  "mplDecode demo_env t = Inr (Playlist (undecimal t))"
  by (simp_all add: demo_env_def)

lemma demo_open_simps [simp]:
  "demo_open pA = Inr 1" "demo_open pB = Inr 2" "demo_open pC = Inr 3"
  "demo_open pD = Inl (ErrText ''dial failed'')" "demo_open pMe = Inl (ErrText ''dial failed'')"
  by (simp_all add: demo_open_def)

lemma demo_remote_simps [simp]: "demo_remote 1 = pA" "demo_remote (Suc 0) = pA" "demo_remote 2 = pB" "demo_remote 3 = pC"
  by (simp_all add: demo_remote.simps)

lemma demo_hex [simp]: "hex_injective demo_env"
  by (simp add: hex_injective_def)

lemma demo_streams [simp]: "streams_reach demo_env"
  by (auto simp: streams_reach_def demo_open_def demo_remote.simps split: if_split_asm)

lemma demo_no_empty [simp]: "no_empty_peer demo_env"
  using peers_nonempty by (auto simp: no_empty_peer_def demo_open_def)

lemma demo_sort [simp]: "sort_permutes demo_env"
  by (simp add: sort_permutes_def)

lemma demo_range [simp]: "range_permutes demo_env"
  by (simp add: range_permutes_def)

lemma demo_json [simp]: "json_roundtrip demo_env"
proof -
  have "word_of_nat (of_char (char_of (unat w))) = w" for w :: "8 word"
  proof -
    have "unat w < 256" using unsigned_less [of w] by simp
    then show ?thesis by simp
  qed
  then show ?thesis by (auto simp: json_roundtrip_def demo_jsonDecode_def)
qed

lemma demo_pair_Inr: "demo_pair k b = Inr c \<longleftrightarrow> CHR ''|'' \<notin> set k \<and> c = k @ CHR ''|'' # b"
  by (auto simp: demo_pair_def)

lemma demo_gob [simp]: "gob_roundtrip demo_env"
  unfolding gob_roundtrip_def
proof (intro allI impI)
  fix v b
  assume "gobEncode demo_env v = Inr b"
  then show "gobDecode demo_env (gobtype_of v) b = Inr v"
    by (cases v) (auto simp: demo_pair_Inr demo_split demo_flag_def split: if_split_asm)
qed

end
