(* ===== verification/Codec.thy ===== *)
theory Codec
  imports Demo
begin

text \<open>
  Encoding and decoding of messages (\<^verbatim>\<open>data.go\<close>): the custom gob form of
  \<^verbatim>\<open>TranscodeSubMsg\<close>, the bytes it is signed over, and the JSON envelope
  \<^verbatim>\<open>msgAux\<close> around a gob payload. The gob and JSON byte formats are fields of the
  environment; the switches, the conversions and the error texts are the code's.
\<close>

section \<open>TranscodeSubMsg\<close>

definition GobEncode :: "env \<Rightarrow> TranscodeSubMsg \<Rightarrow> string + bytes" where
  "GobEncode env ts =
     (let b = map (maBytes env) (ts_MultiAddrs ts);
          n = ts_NodeID ts;
          tsb = \<lparr>tb_MultiAddrs = b, tb_NodeID = n, tb_StrmID = ts_StrmID ts, tb_Sig = ts_Sig ts\<rparr>
      in gobEncode env (G_TranscodeSub_b tsb))"

fun addrs_from_bytes :: "env \<Rightarrow> bytes list \<Rightarrow> go_error + multiaddr list" where
  "addrs_from_bytes env [] = Inr []"
| "addrs_from_bytes env (v # vs) =
     (case NewMultiaddrBytes env v of
        Inl e \<Rightarrow> Inl e
      | Inr m \<Rightarrow> (case addrs_from_bytes env vs of Inl e \<Rightarrow> Inl e | Inr ms \<Rightarrow> Inr (m # ms)))"

text \<open>
  An empty node id decodes to the empty id (\<^verbatim>\<open>nid\<close> keeps its zero value).
\<close>

definition GobDecode :: "env \<Rightarrow> bytes \<Rightarrow> go_error + TranscodeSubMsg" where
  "GobDecode env dat =
     (case gobDecode env T_TranscodeSub_b dat of
        Inl e \<Rightarrow> Inl (ErrText e)
      | Inr v \<Rightarrow>
          (case v of
             G_TranscodeSub_b tsb \<Rightarrow>
               (case addrs_from_bytes env (tb_MultiAddrs tsb) of
                  Inl e \<Rightarrow> Inl e
                | Inr maddrs \<Rightarrow>
                    (case (if length (tb_NodeID tsb) > 0 then IDFromBytes env (tb_NodeID tsb) else Inr []) of
                       Inl e \<Rightarrow> Inl e
                     | Inr nid \<Rightarrow>
                         Inr \<lparr>ts_MultiAddrs = maddrs, ts_NodeID = nid, ts_StrmID = tb_StrmID tsb,
                              ts_Sig = tb_Sig tsb\<rparr>))
           | _ \<Rightarrow> Inl (ErrText ''gob: type mismatch'')))"

text \<open>The bytes a transcoder signs: addresses, stream id and node id, with nothing between.\<close>

definition BytesForSigning :: "env \<Rightarrow> TranscodeSubMsg \<Rightarrow> bytes" where
  "BytesForSigning env ts = concat (map (maBytes env) (ts_MultiAddrs ts) @ [ts_StrmID ts, ts_NodeID ts])"

lemma addrs_from_bytes_map:
  assumes "\<forall>v \<in> set vs. NewMultiaddrBytes env (maBytes env v) = Inr v"
  shows "addrs_from_bytes env (map (maBytes env) vs) = Inr vs"
  using assms by (induction vs) auto

section \<open>The JSON envelope\<close>

text \<open>
  \<^verbatim>\<open>fmt.Errorf("Failed to marshal X: %v", err)\<close> around the gob result of one case.
\<close>

definition with_prefix :: "string \<Rightarrow> string + 'a \<Rightarrow> string + 'a" where
  "with_prefix pre r = (case r of Inl e \<Rightarrow> Inl (pre @ e) | Inr a \<Rightarrow> Inr a)"

text \<open>The type switch of \<^verbatim>\<open>MarshalJSON\<close>: the gob payload of a message.\<close>

definition marshal_data :: "env \<Rightarrow> gdata \<Rightarrow> string + bytes" where
  "marshal_data env d = (case d of
     D_SubReq m \<Rightarrow>
       with_prefix ''Failed to marshal Handshake: '' (gobEncode env (G_SubReq m))
   | D_CancelSub m \<Rightarrow>
       with_prefix ''Failed to marshal CancelSubMsg: '' (gobEncode env (G_CancelSub m))
   | D_StreamData m \<Rightarrow>
       with_prefix ''Failed to marshal StreamDataMsg: '' (gobEncode env (G_StreamData m))
   | D_FinishStream m \<Rightarrow>
       with_prefix ''Failed to marshal FinishStreamMsg: '' (gobEncode env (G_FinishStream m))
   | D_TranscodeResponse m \<Rightarrow>
       with_prefix ''Failed to marshal TranscodeResponseMsg: ''
         (gobEncode env (G_TranscodeResponse m))
   | D_TranscodeSub m \<Rightarrow>
       with_prefix ''Failed to marshal TranscodeSubMsg: ''
         (case GobEncode env m of Inl e \<Rightarrow> Inl e | Inr b \<Rightarrow> gobEncode env (G_TranscodeSub b))
   | D_MasterPlaylistData m \<Rightarrow>
       with_prefix ''Failed to marshal MasterPlaylistDataMsg: ''
         (gobEncode env (G_MasterPlaylistData m))
   | D_GetMasterPlaylistReq m \<Rightarrow>
       with_prefix ''Failed to marshal GetMasterPlaylistReqMsg: ''
         (gobEncode env (G_GetMasterPlaylistReq m))
   | D_NodeStatusReq m \<Rightarrow>
       with_prefix ''Failed to marshal NodeStatusReqMsg: '' (gobEncode env (G_NodeStatusReq m))
   | D_NodeStatusData m \<Rightarrow>
       with_prefix ''Failed to marshal NodeStatusDataMsg: '' (gobEncode env (G_NodeStatusData m))
   | D_Ping m \<Rightarrow>
       with_prefix ''Failed to marshal PingDataMsg: '' (gobEncode env (G_Ping m))
   | D_Pong m \<Rightarrow>
       with_prefix ''Failed to marshal PongDataMsg: '' (gobEncode env (G_Pong m))
   | D_String _ \<Rightarrow> Inl ''failed to marshal message data''
   | D_Nil \<Rightarrow> Inl ''failed to marshal message data'')"

definition MarshalJSON :: "env \<Rightarrow> Msg \<Rightarrow> string + bytes" where
  "MarshalJSON env m =
     (case marshal_data env (Data m) of
        Inl e \<Rightarrow> Inl e
      | Inr b \<Rightarrow> jsonEncode env \<lparr>aux_Op = Op m, aux_Data = b\<rparr>)"

text \<open>
  The decoder of one case: the value that was read, or the fixed error text. The result of
  \<^verbatim>\<open>json.Unmarshal\<close> into \<^verbatim>\<open>aux\<close> is used whether or not it failed, so it is
  one function \<open>jsonDecode\<close> of the bytes.
\<close>

definition decode_as :: "env \<Rightarrow> gobtype \<Rightarrow> bytes \<Rightarrow> (gobval \<Rightarrow> gdata option) \<Rightarrow> string \<Rightarrow> string + gdata"
  where "decode_as env t b conv err =
     (case gobDecode env t b of
        Inl _ \<Rightarrow> Inl err
      | Inr v \<Rightarrow> (case conv v of None \<Rightarrow> Inl err | Some d \<Rightarrow> Inr d))"

definition unmarshal_data :: "env \<Rightarrow> Opcode \<Rightarrow> bytes \<Rightarrow> string + gdata" where
  "unmarshal_data env op b =
    (if op = SubReqID then
       decode_as env T_SubReq b (\<lambda>v. case v of G_SubReq m \<Rightarrow> Some (D_SubReq m) | _ \<Rightarrow> None)
         ''failed to decode handshake''
     else if op = CancelSubID then
       decode_as env T_CancelSub b (\<lambda>v. case v of G_CancelSub m \<Rightarrow> Some (D_CancelSub m) | _ \<Rightarrow> None)
         ''failed to decode CancelSubMsg''
     else if op = StreamDataID then
       decode_as env T_StreamData b (\<lambda>v. case v of G_StreamData m \<Rightarrow> Some (D_StreamData m) | _ \<Rightarrow> None)
         ''failed to decode StreamDataMsg''
     else if op = FinishStreamID then
       decode_as env T_FinishStream b
         (\<lambda>v. case v of G_FinishStream m \<Rightarrow> Some (D_FinishStream m) | _ \<Rightarrow> None)
         ''failed to decode FinishStreamMsg''
     else if op = TranscodeResponseID then
       decode_as env T_TranscodeResponse b
         (\<lambda>v. case v of G_TranscodeResponse m \<Rightarrow> Some (D_TranscodeResponse m) | _ \<Rightarrow> None)
         ''failed to decode TranscodeResponseMsg''
     else if op = TranscodeSubID then
       decode_as env T_TranscodeSub b
         (\<lambda>v. case v of
            G_TranscodeSub p \<Rightarrow> (case GobDecode env p of Inl _ \<Rightarrow> None | Inr ts \<Rightarrow> Some (D_TranscodeSub ts))
          | _ \<Rightarrow> None)
         ''Failed to decode TranscodeSubMsg''
     else if op = MasterPlaylistDataID then
       decode_as env T_MasterPlaylistData b
         (\<lambda>v. case v of G_MasterPlaylistData m \<Rightarrow> Some (D_MasterPlaylistData m) | _ \<Rightarrow> None)
         ''failed to decode MasterPlaylistDataMsg''
     else if op = GetMasterPlaylistReqID then
       decode_as env T_GetMasterPlaylistReq b
         (\<lambda>v. case v of G_GetMasterPlaylistReq m \<Rightarrow> Some (D_GetMasterPlaylistReq m) | _ \<Rightarrow> None)
         ''failed to decode GetMasterPlaylistReqMsg''
     else if op = NodeStatusReqID then
       decode_as env T_NodeStatusReq b
         (\<lambda>v. case v of G_NodeStatusReq m \<Rightarrow> Some (D_NodeStatusReq m) | _ \<Rightarrow> None)
         ''failed to decode NodeStatusReqMsg''
     else if op = NodeStatusDataID then
       decode_as env T_NodeStatusData b
         (\<lambda>v. case v of G_NodeStatusData m \<Rightarrow> Some (D_NodeStatusData m) | _ \<Rightarrow> None)
         ''failed to decode NodeStatusDataMsg''
     else if op = PingID then
       decode_as env T_Ping b (\<lambda>v. case v of G_Ping m \<Rightarrow> Some (D_Ping m) | _ \<Rightarrow> None)
         ''failed to decode PingDataMsg''
     else if op = PongID then
       decode_as env T_Pong b (\<lambda>v. case v of G_Pong m \<Rightarrow> Some (D_Pong m) | _ \<Rightarrow> None)
         ''failed to decode PongDataMsg''
     else Inl ''failed to decode message data'')"

definition UnmarshalJSON :: "env \<Rightarrow> bytes \<Rightarrow> string + Msg" where
  "UnmarshalJSON env b =
     (let aux = jsonDecode env b
      in case unmarshal_data env (aux_Op aux) (aux_Data aux) of
           Inl e \<Rightarrow> Inl e
         | Inr d \<Rightarrow> Inr \<lparr>Op = aux_Op aux, Data = d\<rparr>)"

section \<open>Properties\<close>

lemma with_prefix_Inr [simp]: "with_prefix pre r = Inr a \<longleftrightarrow> r = Inr a"
  by (auto simp: with_prefix_def split: sum.splits)

lemma with_prefix_ok [simp]: "with_prefix pre (Inr a) = Inr a"
  by (simp add: with_prefix_def)

text \<open>What \<^verbatim>\<open>GobDecode\<close> needs of an address and a node id to be able to rebuild them.\<close>

definition transcode_wire_ok :: "env \<Rightarrow> TranscodeSubMsg \<Rightarrow> bool" where
  "transcode_wire_ok env ts \<longleftrightarrow>
     (\<forall>v \<in> set (ts_MultiAddrs ts). NewMultiaddrBytes env (maBytes env v) = Inr v)
     \<and> (ts_NodeID ts = [] \<or> IDFromBytes env (ts_NodeID ts) = Inr (ts_NodeID ts))"

fun wire_ok :: "env \<Rightarrow> gdata \<Rightarrow> bool" where
  "wire_ok env (D_TranscodeSub ts) = transcode_wire_ok env ts"
| "wire_ok env _ = True"

lemma GobDecode_GobEncode:
  assumes rt: "gob_roundtrip env" and ok: "transcode_wire_ok env ts"
    and enc: "GobEncode env ts = Inr b"
  shows "GobDecode env b = Inr ts"
proof -
  let ?tsb = "\<lparr>tb_MultiAddrs = map (maBytes env) (ts_MultiAddrs ts), tb_NodeID = ts_NodeID ts,
               tb_StrmID = ts_StrmID ts, tb_Sig = ts_Sig ts\<rparr>"
  from enc have "gobEncode env (G_TranscodeSub_b ?tsb) = Inr b"
    by (simp add: GobEncode_def Let_def)
  with rt have dec: "gobDecode env T_TranscodeSub_b b = Inr (G_TranscodeSub_b ?tsb)"
    by (force simp: gob_roundtrip_def)
  from ok have "addrs_from_bytes env (map (maBytes env) (ts_MultiAddrs ts)) = Inr (ts_MultiAddrs ts)"
    by (intro addrs_from_bytes_map) (simp add: transcode_wire_ok_def)
  with dec ok show ?thesis
    by (auto simp: GobDecode_def transcode_wire_ok_def)
qed

lemma decode_as_Inr:
  "decode_as env t b conv err = Inr d \<longleftrightarrow> (\<exists>v. gobDecode env t b = Inr v \<and> conv v = Some d)"
  by (auto simp: decode_as_def split: sum.splits option.splits)

lemma gob_rt: "gob_roundtrip env \<Longrightarrow> gobEncode env v = Inr b \<Longrightarrow> gobtype_of v = t \<Longrightarrow>
    gobDecode env t b = Inr v"
  by (auto simp: gob_roundtrip_def)

lemma unmarshal_marshal_data:
  assumes rt: "gob_roundtrip env" and ok: "wire_ok env d" and op: "data_opcode d = Some oc"
    and enc: "marshal_data env d = Inr b"
  shows "unmarshal_data env oc b = Inr d"
proof (cases d)
  case (D_TranscodeSub ts)
  with enc obtain p where p: "GobEncode env ts = Inr p" "gobEncode env (G_TranscodeSub p) = Inr b"
    by (auto simp: marshal_data_def split: sum.splits)
  have "GobDecode env p = Inr ts"
    using GobDecode_GobEncode [OF rt _ p(1)] ok D_TranscodeSub by simp
  moreover have "gobDecode env T_TranscodeSub b = Inr (G_TranscodeSub p)"
    by (rule gob_rt [OF rt p(2)]) simp
  ultimately show ?thesis
    using op D_TranscodeSub by (auto simp: unmarshal_data_def opcode_defs decode_as_Inr)
qed (use enc op rt in
      \<open>auto simp: marshal_data_def unmarshal_data_def opcode_defs decode_as_Inr dest!: gob_rt\<close>)

lemma decode_as_opcode:
  assumes "decode_as env t b conv err = Inr d"
    and "\<And>v d. conv v = Some d \<Longrightarrow> data_opcode d = Some oc"
  shows "data_opcode d = Some oc"
  using assms by (auto simp: decode_as_Inr)

lemma unmarshal_data_opcode:
  "unmarshal_data env oc b = Inr d \<Longrightarrow> data_opcode d = Some oc"
  unfolding unmarshal_data_def
  by (auto elim!: decode_as_opcode split: if_split_asm gobval.split_asm sum.split_asm)

lemma UnmarshalJSON_well_typed: "UnmarshalJSON env b = Inr m \<Longrightarrow> well_typed m"
  by (auto simp: UnmarshalJSON_def Let_def well_typed_def dest: unmarshal_data_opcode
      split: sum.splits)

lemma unmarshal_marshal:
  assumes "gob_roundtrip env" and "json_roundtrip env"
    and "well_typed m" and "wire_ok env (Data m)"
    and "MarshalJSON env m = Inr b"
  shows "UnmarshalJSON env b = Inr m"
proof -
  from assms(5) obtain p where p: "marshal_data env (Data m) = Inr p"
    "jsonEncode env \<lparr>aux_Op = Op m, aux_Data = p\<rparr> = Inr b"
    by (auto simp: MarshalJSON_def split: sum.splits)
  from assms(2) p(2) have "jsonDecode env b = \<lparr>aux_Op = Op m, aux_Data = p\<rparr>"
    by (simp add: json_roundtrip_def)
  moreover have "unmarshal_data env (Op m) p = Inr (Data m)"
    using assms p(1) by (intro unmarshal_marshal_data) (simp_all add: well_typed_def)
  ultimately show ?thesis
    by (simp add: UnmarshalJSON_def)
qed

text \<open>
  C11. Round trip of the wire format: a message whose \<^verbatim>\<open>Data\<close> has the Go type that
  belongs to its opcode, once marshalled without an error, is unmarshalled to the very same
  message. For a transcode subscription the addresses and the node id have to be ones that the
  library can rebuild from their bytes. The gob and JSON formats enter by their documented
  round trips only.
\<close>

theorem message_roundtrip:
  assumes "gob_roundtrip env" and "json_roundtrip env"
    and "well_typed m" and "wire_ok env (Data m)"
    and "MarshalJSON env m = Inr b"
  shows "UnmarshalJSON env b = Inr m"
  using assms by (rule unmarshal_marshal)

lemma message_roundtrip_witness:
  "MarshalJSON demo_env \<lparr>Op = StreamDataID, Data = D_StreamData \<lparr>sd_SeqNo = 7, sd_StrmID = ''ab'', sd_Data = ''xyz''\<rparr>\<rparr>
     = Inr (char_of (0::nat) # ''ab|'' @ char_of (7::nat) # ''xyz'')
   \<and> UnmarshalJSON demo_env (char_of (0::nat) # ''ab|'' @ char_of (7::nat) # ''xyz'')
     = Inr \<lparr>Op = StreamDataID, Data = D_StreamData \<lparr>sd_SeqNo = 7, sd_StrmID = ''ab'', sd_Data = ''xyz''\<rparr>\<rparr>"
    (is "?enc \<and> ?dec")
proof
  show enc: ?enc
    by (simp add: MarshalJSON_def marshal_data_def StreamDataID_def demo_pair_def)
  show ?dec
    by (rule message_roundtrip [OF demo_gob demo_json _ _ enc]) (simp_all add: well_typed_def)
qed

end
