(* ===== verification/NodeState.thy ===== *)
theory NodeState
  imports Codec
begin

text \<open>
  The state of one node: the fields of \<^verbatim>\<open>BasicVideoNetwork\<close> and of the
  \<^verbatim>\<open>BasicNetworkNode\<close> it points to, the structs shared through pointers (relayers,
  broadcasters, subscribers, contexts, channels) in stores, the pool of running goroutines and
  the history of external actions. A handler runs to completion on this state; a goroutine runs
  one iteration of its loop at a time.
\<close>

section \<open>Structs\<close>

text \<open>
  A value of the \<^verbatim>\<open>OutStream\<close> interface holds a possibly nil
  \<^verbatim>\<open>*BasicOutStream\<close> or a \<^verbatim>\<open>*LocalOutStream\<close> around a subscriber. The nil
  interface value, where the code can meet it, is \<open>None\<close> of \<open>OutStream option\<close>: a nil
  pointer inside an interface is not the nil interface.
\<close>

datatype OutStream = Basic "strmh option" | Local ptr

record BasicRelayer =
  r_UpstreamPeer :: peerID
  r_listeners :: "(string, strmh option) gomap"
  r_LastRelay :: int
  r_dataCount :: uint64

record BasicBroadcaster =
  b_StrmID :: string
  b_lastMsgs :: "StreamDataMsg option list"
  b_q :: "StreamDataMsg list" \<comment> \<open>senders waiting on the unbuffered channel, first come first\<close>
  b_listeners :: "(string, OutStream) gomap"
  b_working :: bool
  b_cancelWorker :: "ptr option"

record BasicSubscriber =
  s_StrmID :: string
  s_UpstreamPeer :: peerID
  s_working :: bool
  s_subAttempts :: int
  s_subResponded :: "ptr option"
  s_cancelWorker :: "ptr option"

text \<open>
  An unbuffered channel: whether a receiver waits at it, what the last send handed over, and
  whether it was closed.
\<close>

datatype chval =
    V_Unit
  | V_Msg Msg
  | V_Mpl "playlist option"
  | V_Status "(string \<times> (string, playlist) gomap) option"

record channel =
  ch_recv :: bool
  ch_val :: "chval option"
  ch_closed :: bool

text \<open>The goroutines the code starts, each with the variables it captures.\<close>

datatype goroutine =
    GO_Broadcast ptr ptr \<comment> \<open>broadcaster, context\<close>
  | GO_RelayGC ptr string \<comment> \<open>relayer, key of the map entry\<close>
  | GO_SubWorker ptr ptr "strmh option" \<comment> \<open>subscriber, context, upstream stream\<close>
  | GO_Insert ptr StreamDataMsg \<comment> \<open>\<^verbatim>\<open>InsertData\<close>, before its test of \<^verbatim>\<open>working\<close>\<close>
  | GO_InsertWait ptr StreamDataMsg \<comment> \<open>\<^verbatim>\<open>InsertData\<close>, waiting in its select\<close>
  | GO_Retransmit ptr ptr TranscodeSubMsg \<comment> \<open>retransmission, about to send: subscriber, context, message\<close>
  | GO_RetransmitWait ptr ptr TranscodeSubMsg \<comment> \<open>the same, waiting in its select\<close>
  | GO_ReqStart ptr ptr string string Msg \<comment> \<open>request: channel, result channel, key, node id, message\<close>
  | GO_ReqLoop ptr ptr string Msg "peerID list" \<comment> \<open>the same, with the peers still to ask\<close>
  | GO_ReqWait ptr ptr string Msg "peerID list" \<comment> \<open>waiting for the answer of the last peer asked\<close>
  | GO_ReqReturn ptr ptr string Msg \<comment> \<open>about to pass an answer on\<close>
  | GO_MplWait ptr ptr \<comment> \<open>\<^verbatim>\<open>GetMasterPlaylist\<close>: answer channel, client's channel\<close>
  | GO_StatusWait ptr ptr \<comment> \<open>\<^verbatim>\<open>GetNodeStatus\<close>: answer channel, client's channel\<close>
  | GO_SendClose ptr chval \<comment> \<open>sends a value to the client and closes its channel\<close>
  | GO_DHTGet ptr string \<comment> \<open>\<^verbatim>\<open>getMasterPlaylistWithDHT\<close>: channel, stream id\<close>
  | GO_DHTSend ptr playlist \<comment> \<open>the same, with the decoded playlist\<close>
  | GO_DirectConn ptr peerID \<comment> \<open>\<^verbatim>\<open>Connected\<close>: subscriber, the broadcaster's peer\<close>

record node =
  hist :: history
  identity :: peerID
  outStreams :: "(peerID, strmh) gomap"
  signFun :: "(bytes \<Rightarrow> go_error + bytes) option"
  verifyFun :: "(bytes \<Rightarrow> bytes \<Rightarrow> string \<Rightarrow> bool) option"
  broadcasters :: "(string, ptr) gomap"
  subscribers :: "(string, ptr) gomap"
  mplMap :: "(string, playlist) gomap"
  mplChans :: "(string, ptr) gomap"
  msgChans :: "(string, ptr) gomap"
  transResponseCallbacks :: "(string, nat) gomap"
  relayers :: "(string, ptr) gomap"
  msgCounts :: "Opcode \<Rightarrow> 64 word"
  pingChs :: "(string, ptr) gomap"
  publicIP :: "multiaddr option"
  rstore :: "BasicRelayer store"
  bstore :: "BasicBroadcaster store"
  sstore :: "BasicSubscriber store"
  ctxs :: "bool store" \<comment> \<open>contexts: has cancel been called\<close>
  chans :: "channel store"
  gos :: "goroutine list"

definition log :: "effect \<Rightarrow> node \<Rightarrow> node" where
  "log e s = s\<lparr>hist := e # hist s\<rparr>"

definition spawn :: "goroutine \<Rightarrow> node \<Rightarrow> node" where
  "spawn g s = s\<lparr>gos := gos s @ [g]\<rparr>"

section \<open>Access to the shared structs\<close>

definition get_r :: "node \<Rightarrow> ptr \<Rightarrow> BasicRelayer" where
  "get_r s p = sget (rstore s) p"

definition put_r :: "node \<Rightarrow> ptr \<Rightarrow> BasicRelayer \<Rightarrow> node" where
  "put_r s p r = s\<lparr>rstore := sput (rstore s) p r\<rparr>"

definition new_r :: "node \<Rightarrow> BasicRelayer \<Rightarrow> ptr \<times> node" where
  "new_r s r = (let (p, st) = snew (rstore s) r in (p, s\<lparr>rstore := st\<rparr>))"

definition get_b :: "node \<Rightarrow> ptr \<Rightarrow> BasicBroadcaster" where
  "get_b s p = sget (bstore s) p"

definition put_b :: "node \<Rightarrow> ptr \<Rightarrow> BasicBroadcaster \<Rightarrow> node" where
  "put_b s p b = s\<lparr>bstore := sput (bstore s) p b\<rparr>"

definition new_b :: "node \<Rightarrow> BasicBroadcaster \<Rightarrow> ptr \<times> node" where
  "new_b s b = (let (p, st) = snew (bstore s) b in (p, s\<lparr>bstore := st\<rparr>))"

definition get_s :: "node \<Rightarrow> ptr \<Rightarrow> BasicSubscriber" where
  "get_s s p = sget (sstore s) p"

definition put_s :: "node \<Rightarrow> ptr \<Rightarrow> BasicSubscriber \<Rightarrow> node" where
  "put_s s p b = s\<lparr>sstore := sput (sstore s) p b\<rparr>"

definition new_s :: "node \<Rightarrow> BasicSubscriber \<Rightarrow> ptr \<times> node" where
  "new_s s b = (let (p, st) = snew (sstore s) b in (p, s\<lparr>sstore := st\<rparr>))"

interpretation rel: struct_store get_r put_r new_r "\<lambda>s p. p < fresh (rstore s)"
  by unfold_locales
    (auto simp: get_r_def put_r_def new_r_def snew_def Let_def sget_def sput_def)

interpretation bro: struct_store get_b put_b new_b "\<lambda>s p. p < fresh (bstore s)"
  by unfold_locales
    (auto simp: get_b_def put_b_def new_b_def snew_def Let_def sget_def sput_def)

interpretation sub: struct_store get_s put_s new_s "\<lambda>s p. p < fresh (sstore s)"
  by unfold_locales
    (auto simp: get_s_def put_s_def new_s_def snew_def Let_def sget_def sput_def)

declare rel.rd_wr [simp] bro.rd_wr [simp] sub.rd_wr [simp]

text \<open>Contexts (\<^verbatim>\<open>context.WithCancel\<close>): a flag that cancel sets.\<close>

definition with_cancel :: "node \<Rightarrow> ptr \<times> node" where
  "with_cancel s = (let (c, st) = snew (ctxs s) False in (c, s\<lparr>ctxs := st\<rparr>))"

definition cancel :: "ptr \<Rightarrow> node \<Rightarrow> node" where
  "cancel c s = s\<lparr>ctxs := sput (ctxs s) c True\<rparr>"

definition cancelled :: "node \<Rightarrow> ptr \<Rightarrow> bool" where
  "cancelled s c = sget (ctxs s) c"

definition cancel_opt :: "ptr option \<Rightarrow> node \<Rightarrow> node" where
  "cancel_opt co s = (case co of None \<Rightarrow> s | Some c \<Rightarrow> cancel c s)"

text \<open>
  A send on an unbuffered channel: it panics on a closed channel, hands the value to a waiting
  receiver, or blocks.
\<close>

definition chan_send :: "node \<Rightarrow> ptr \<Rightarrow> chval \<Rightarrow> node outcome" where
  "chan_send s c v =
     (let ch = sget (chans s) c in
      if ch_closed ch then Panics
      else if ch_recv ch then
        Returns (s\<lparr>chans := sput (chans s) c (ch\<lparr>ch_recv := False, ch_val := Some v\<rparr>)\<rparr>)
      else Blocks)"

text \<open>\<^verbatim>\<open>close\<close> of a channel panics when it is closed already.\<close>

definition chan_close :: "node \<Rightarrow> ptr \<Rightarrow> node outcome" where
  "chan_close s c =
     (let ch = sget (chans s) c in
      if ch_closed ch then Panics
      else Returns (s\<lparr>chans := sput (chans s) c (ch\<lparr>ch_closed := True\<rparr>)\<rparr>))"

section \<open>Input and output leave the rest of the node alone\<close>

text \<open>
  \<open>io_frame s s'\<close>: between \<open>s\<close> and \<open>s'\<close> only external actions happened, which extend the
  history, may replace cached streams and may start goroutines. No map, relayer, broadcaster or
  subscriber changed.
\<close>

definition io_frame :: "node \<Rightarrow> node \<Rightarrow> bool" where
  "io_frame s s' \<longleftrightarrow>
     (\<exists>es os gs. s' = s\<lparr>hist := es @ hist s, outStreams := os, gos := gos s @ gs\<rparr>)"

lemma io_frameI: "s' = s\<lparr>hist := es @ hist s, outStreams := os, gos := gos s @ gs\<rparr> \<Longrightarrow> io_frame s s'"
  by (auto simp: io_frame_def)

lemma io_frame_refl [simp]: "io_frame s s"
  by (rule io_frameI [where es = "[]" and os = "outStreams s" and gs = "[]"]) simp

lemma io_frame_trans [trans]:
  assumes "io_frame s s1" "io_frame s1 s2"
  shows "io_frame s s2"
proof -
  from assms(1) obtain es os gs
    where 1: "s1 = s\<lparr>hist := es @ hist s, outStreams := os, gos := gos s @ gs\<rparr>"
    by (auto simp: io_frame_def)
  from assms(2) obtain es' os' gs'
    where 2: "s2 = s1\<lparr>hist := es' @ hist s1, outStreams := os', gos := gos s1 @ gs'\<rparr>"
    by (auto simp: io_frame_def)
  show ?thesis
    by (rule io_frameI [where es = "es' @ es" and os = os' and gs = "gs @ gs'"]) (simp add: 1 2)
qed

lemma io_frame_log [simp]: "io_frame s (log e s)"
  by (rule io_frameI [where es = "[e]" and os = "outStreams s" and gs = "[]"]) (simp add: log_def)

lemma io_frame_spawn [simp]: "io_frame s (spawn g s)"
  by (rule io_frameI [where es = "[]" and os = "outStreams s" and gs = "[g]"]) (simp add: spawn_def)

lemma io_frameD:
  assumes "io_frame s s'"
  shows "identity s' = identity s" "signFun s' = signFun s" "verifyFun s' = verifyFun s"
    "broadcasters s' = broadcasters s" "subscribers s' = subscribers s" "mplMap s' = mplMap s"
    "msgChans s' = msgChans s" "transResponseCallbacks s' = transResponseCallbacks s"
    "relayers s' = relayers s" "msgCounts s' = msgCounts s" "pingChs s' = pingChs s"
    "publicIP s' = publicIP s" "rstore s' = rstore s" "bstore s' = bstore s"
    "sstore s' = sstore s" "ctxs s' = ctxs s" "chans s' = chans s"
  using assms by (auto simp: io_frame_def)

lemma io_frame_structs:
  assumes "io_frame s s'"
  shows "get_r s' p = get_r s p" "get_b s' p = get_b s p" "get_s s' p = get_s s p"
  using io_frameD [OF assms] by (simp_all add: get_r_def get_b_def get_s_def)

lemma io_frame_hist: "io_frame s s' \<Longrightarrow> \<exists>es. hist s' = es @ hist s"
  by (auto simp: io_frame_def)

lemma io_frame_gos: "io_frame s s' \<Longrightarrow> \<exists>gs. gos s' = gos s @ gs"
  by (auto simp: io_frame_def)

text \<open>Access to one struct does not touch the other parts of the state.\<close>

lemma log_fields [simp]:
  "hist (log e s) = e # hist s" "identity (log e s) = identity s"
  "outStreams (log e s) = outStreams s" "broadcasters (log e s) = broadcasters s"
  "subscribers (log e s) = subscribers s" "relayers (log e s) = relayers s"
  "mplMap (log e s) = mplMap s" "msgChans (log e s) = msgChans s"
  "pingChs (log e s) = pingChs s" "rstore (log e s) = rstore s" "bstore (log e s) = bstore s"
  "sstore (log e s) = sstore s" "gos (log e s) = gos s"
  "transResponseCallbacks (log e s) = transResponseCallbacks s" "ctxs (log e s) = ctxs s"
  "chans (log e s) = chans s" "msgCounts (log e s) = msgCounts s"
  "verifyFun (log e s) = verifyFun s" "signFun (log e s) = signFun s"
  "publicIP (log e s) = publicIP s"
  by (simp_all add: log_def)

lemma spawn_fields [simp]:
  "hist (spawn g s) = hist s" "identity (spawn g s) = identity s"
  "outStreams (spawn g s) = outStreams s" "broadcasters (spawn g s) = broadcasters s"
  "subscribers (spawn g s) = subscribers s" "relayers (spawn g s) = relayers s"
  "rstore (spawn g s) = rstore s" "bstore (spawn g s) = bstore s"
  "sstore (spawn g s) = sstore s" "gos (spawn g s) = gos s @ [g]" "ctxs (spawn g s) = ctxs s"
  by (simp_all add: spawn_def)

lemma get_log [simp]: "get_r (log e s) p = get_r s p" "get_b (log e s) p = get_b s p"
  "get_s (log e s) p = get_s s p"
  by (simp_all add: get_r_def get_b_def get_s_def)

lemma get_spawn [simp]: "get_r (spawn g s) p = get_r s p" "get_b (spawn g s) p = get_b s p"
  "get_s (spawn g s) p = get_s s p"
  by (simp_all add: get_r_def get_b_def get_s_def)

lemma put_r_fields [simp]:
  "hist (put_r s p r) = hist s" "identity (put_r s p r) = identity s"
  "outStreams (put_r s p r) = outStreams s" "broadcasters (put_r s p r) = broadcasters s"
  "subscribers (put_r s p r) = subscribers s" "relayers (put_r s p r) = relayers s"
  "bstore (put_r s p r) = bstore s" "sstore (put_r s p r) = sstore s" "gos (put_r s p r) = gos s"
  "fresh (rstore (put_r s p r)) = fresh (rstore s)" "get_b (put_r s p r) q = get_b s q"
  "get_s (put_r s p r) q = get_s s q" "msgChans (put_r s p r) = msgChans s"
  "ctxs (put_r s p r) = ctxs s" "mplMap (put_r s p r) = mplMap s"
  by (simp_all add: put_r_def get_b_def get_s_def)

lemma put_b_fields [simp]:
  "hist (put_b s p r) = hist s" "identity (put_b s p r) = identity s"
  "outStreams (put_b s p r) = outStreams s" "broadcasters (put_b s p r) = broadcasters s"
  "subscribers (put_b s p r) = subscribers s" "relayers (put_b s p r) = relayers s"
  "rstore (put_b s p r) = rstore s" "sstore (put_b s p r) = sstore s" "gos (put_b s p r) = gos s"
  "fresh (bstore (put_b s p r)) = fresh (bstore s)" "get_r (put_b s p r) q = get_r s q"
  "get_s (put_b s p r) q = get_s s q" "ctxs (put_b s p r) = ctxs s"
  "mplMap (put_b s p r) = mplMap s" "msgChans (put_b s p r) = msgChans s"
  by (simp_all add: put_b_def get_r_def get_s_def)

lemma put_s_fields [simp]:
  "hist (put_s s p r) = hist s" "identity (put_s s p r) = identity s"
  "outStreams (put_s s p r) = outStreams s" "broadcasters (put_s s p r) = broadcasters s"
  "subscribers (put_s s p r) = subscribers s" "relayers (put_s s p r) = relayers s"
  "rstore (put_s s p r) = rstore s" "bstore (put_s s p r) = bstore s" "gos (put_s s p r) = gos s"
  "fresh (sstore (put_s s p r)) = fresh (sstore s)" "get_r (put_s s p r) q = get_r s q"
  "get_b (put_s s p r) q = get_b s q" "ctxs (put_s s p r) = ctxs s"
  by (simp_all add: put_s_def get_r_def get_b_def)

text \<open>Changing another field of the node does not touch the structs.\<close>

lemma get_r_upd [simp]:
  "get_r (s\<lparr>outStreams := x1\<rparr>) p = get_r s p"
  "get_r (s\<lparr>broadcasters := x2\<rparr>) p = get_r s p"
  "get_r (s\<lparr>subscribers := x3\<rparr>) p = get_r s p"
  "get_r (s\<lparr>relayers := x4\<rparr>) p = get_r s p"
  "get_r (s\<lparr>mplMap := x5\<rparr>) p = get_r s p"
  "get_r (s\<lparr>msgChans := x6\<rparr>) p = get_r s p"
  "get_r (s\<lparr>transResponseCallbacks := x7\<rparr>) p = get_r s p"
  "get_r (s\<lparr>pingChs := x8\<rparr>) p = get_r s p"
  "get_r (s\<lparr>ctxs := x9\<rparr>) p = get_r s p"
  "get_r (s\<lparr>chans := x10\<rparr>) p = get_r s p"
  "get_r (s\<lparr>gos := x11\<rparr>) p = get_r s p"
  "get_r (s\<lparr>msgCounts := x12\<rparr>) p = get_r s p"
  "get_r (s\<lparr>hist := x13\<rparr>) p = get_r s p"
  by (simp_all add: get_r_def)

lemma get_b_upd [simp]:
  "get_b (s\<lparr>outStreams := x14\<rparr>) p = get_b s p"
  "get_b (s\<lparr>broadcasters := x15\<rparr>) p = get_b s p"
  "get_b (s\<lparr>subscribers := x16\<rparr>) p = get_b s p"
  "get_b (s\<lparr>relayers := x17\<rparr>) p = get_b s p"
  "get_b (s\<lparr>mplMap := x18\<rparr>) p = get_b s p"
  "get_b (s\<lparr>msgChans := x19\<rparr>) p = get_b s p"
  "get_b (s\<lparr>transResponseCallbacks := x20\<rparr>) p = get_b s p"
  "get_b (s\<lparr>pingChs := x21\<rparr>) p = get_b s p"
  "get_b (s\<lparr>ctxs := x22\<rparr>) p = get_b s p"
  "get_b (s\<lparr>chans := x23\<rparr>) p = get_b s p"
  "get_b (s\<lparr>gos := x24\<rparr>) p = get_b s p"
  "get_b (s\<lparr>msgCounts := x25\<rparr>) p = get_b s p"
  "get_b (s\<lparr>hist := x26\<rparr>) p = get_b s p"
  by (simp_all add: get_b_def)

lemma get_s_upd [simp]:
  "get_s (s\<lparr>outStreams := x27\<rparr>) p = get_s s p"
  "get_s (s\<lparr>broadcasters := x28\<rparr>) p = get_s s p"
  "get_s (s\<lparr>subscribers := x29\<rparr>) p = get_s s p"
  "get_s (s\<lparr>relayers := x30\<rparr>) p = get_s s p"
  "get_s (s\<lparr>mplMap := x31\<rparr>) p = get_s s p"
  "get_s (s\<lparr>msgChans := x32\<rparr>) p = get_s s p"
  "get_s (s\<lparr>transResponseCallbacks := x33\<rparr>) p = get_s s p"
  "get_s (s\<lparr>pingChs := x34\<rparr>) p = get_s s p"
  "get_s (s\<lparr>ctxs := x35\<rparr>) p = get_s s p"
  "get_s (s\<lparr>chans := x36\<rparr>) p = get_s s p"
  "get_s (s\<lparr>gos := x37\<rparr>) p = get_s s p"
  "get_s (s\<lparr>msgCounts := x38\<rparr>) p = get_s s p"
  "get_s (s\<lparr>hist := x39\<rparr>) p = get_s s p"
  by (simp_all add: get_s_def)

lemma cancelled_upd [simp]:
  "cancelled (s\<lparr>outStreams := x40\<rparr>) c = cancelled s c"
  "cancelled (s\<lparr>broadcasters := x41\<rparr>) c = cancelled s c"
  "cancelled (s\<lparr>subscribers := x42\<rparr>) c = cancelled s c"
  "cancelled (s\<lparr>relayers := x43\<rparr>) c = cancelled s c"
  "cancelled (s\<lparr>mplMap := x44\<rparr>) c = cancelled s c"
  "cancelled (s\<lparr>msgChans := x45\<rparr>) c = cancelled s c"
  "cancelled (s\<lparr>transResponseCallbacks := x46\<rparr>) c = cancelled s c"
  "cancelled (s\<lparr>pingChs := x47\<rparr>) c = cancelled s c"
  "cancelled (s\<lparr>chans := x48\<rparr>) c = cancelled s c"
  "cancelled (s\<lparr>gos := x49\<rparr>) c = cancelled s c"
  "cancelled (s\<lparr>msgCounts := x50\<rparr>) c = cancelled s c"
  "cancelled (s\<lparr>hist := x51\<rparr>) c = cancelled s c"
  "cancelled (log e s) c = cancelled s c" "cancelled (spawn g s) c = cancelled s c"
  "cancelled (put_r s p r) c = cancelled s c" "cancelled (put_b s p b) c = cancelled s c"
  "cancelled (put_s s p su) c = cancelled s c"
  by (simp_all add: cancelled_def)

section \<open>A new node\<close>

text \<open>
  \<^verbatim>\<open>NewBasicVideoNetwork\<close> on a node that \<^verbatim>\<open>NewNode\<close> made: every map is empty. The
  address is a nil \<^verbatim>\<open>Multiaddr\<close> when no public IP is given. The zero structs fill the
  part of a store that no pointer refers to.
\<close>

definition zero_relayer :: BasicRelayer where
  "zero_relayer = \<lparr>r_UpstreamPeer = [], r_listeners = [], r_LastRelay = 0, r_dataCount = 0\<rparr>"

definition zero_broadcaster :: BasicBroadcaster where
  "zero_broadcaster = \<lparr>b_StrmID = [], b_lastMsgs = [], b_q = [], b_listeners = [], b_working = False,
     b_cancelWorker = None\<rparr>"

definition zero_subscriber :: BasicSubscriber where
  "zero_subscriber = \<lparr>s_StrmID = [], s_UpstreamPeer = [], s_working = False, s_subAttempts = 0,
     s_subResponded = None, s_cancelWorker = None\<rparr>"

definition empty_store :: "'a \<Rightarrow> 'a store" where
  "empty_store z = \<lparr>cells = (\<lambda>_. z), fresh = 0\<rparr>"

definition new_node :: "peerID \<Rightarrow> multiaddr option \<Rightarrow> node" where
  "new_node me ip =
     \<lparr>hist = [], identity = me, outStreams = [], signFun = None, verifyFun = None,
      broadcasters = [], subscribers = [], mplMap = [], mplChans = [], msgChans = [], transResponseCallbacks = [],
      relayers = [], msgCounts = (\<lambda>_. 0), pingChs = [], publicIP = ip,
      rstore = empty_store zero_relayer, bstore = empty_store zero_broadcaster,
      sstore = empty_store zero_subscriber, ctxs = empty_store False,
      chans = empty_store \<lparr>ch_recv = False, ch_val = None, ch_closed = False\<rparr>, gos = []\<rparr>"

definition NewBasicVideoNetwork :: "env \<Rightarrow> peerID \<Rightarrow> string \<Rightarrow> nat \<Rightarrow> go_error + node" where
  "NewBasicVideoNetwork env me ip port =
     (if ip \<noteq> [] then
        (case NewMultiaddr env (''/ip4/'' @ ip @ ''/tcp/'' @ decimal port) of
           Inl err \<Rightarrow> Inl err
         | Inr a \<Rightarrow> Inr (new_node me (Some a)))
      else Inr (new_node me None))"

definition demo_node :: node where
  "demo_node = new_node pMe (Some (Multiaddr 5))"

lemma new_node_fields [simp]:
  "hist (new_node me ip) = []" "identity (new_node me ip) = me" "outStreams (new_node me ip) = []"
  "broadcasters (new_node me ip) = []" "subscribers (new_node me ip) = []"
  "relayers (new_node me ip) = []" "mplMap (new_node me ip) = []" "msgChans (new_node me ip) = []"
  "pingChs (new_node me ip) = []" "transResponseCallbacks (new_node me ip) = []"
  "publicIP (new_node me ip) = ip" "gos (new_node me ip) = []" "signFun (new_node me ip) = None"
  "verifyFun (new_node me ip) = None" "fresh (rstore (new_node me ip)) = 0"
  "fresh (bstore (new_node me ip)) = 0" "fresh (sstore (new_node me ip)) = 0"
  "get_r (new_node me ip) p = zero_relayer" "get_b (new_node me ip) p = zero_broadcaster"
  "get_s (new_node me ip) p = zero_subscriber"
  by (simp_all add: new_node_def empty_store_def get_r_def get_b_def get_s_def sget_def)

lemma zero_fields [simp]:
  "r_UpstreamPeer zero_relayer = []" "r_listeners zero_relayer = []" "r_LastRelay zero_relayer = 0"
  "b_listeners zero_broadcaster = []" "b_lastMsgs zero_broadcaster = []" "b_q zero_broadcaster = []"
  "b_cancelWorker zero_broadcaster = None" "s_working zero_subscriber = False"
  by (simp_all add: zero_relayer_def zero_broadcaster_def zero_subscriber_def)

end
