(* ===== verification/Streams.thy ===== *)
theory Streams
  imports NodeState
begin

text \<open>
  Outgoing streams (\<^verbatim>\<open>basic_out_stream.go\<close>), the node that caches them
  (\<^verbatim>\<open>network_node.go\<close>), sending with one retry, and the loop over the closest peers
  that the handlers share. The contract of \<open>GetOutStream\<close> and \<open>sendMessageWithRetry\<close> is the
  locale \<open>transport\<close>; what the loops of the handlers do is proved from it.
\<close>

section \<open>Sending on one stream\<close>

text \<open>
  \<^verbatim>\<open>InsertData\<close> starts a goroutine and returns nil; the goroutine's own steps are in
  the theory of the subscriber.
\<close>

definition InsertData :: "node \<Rightarrow> ptr \<Rightarrow> StreamDataMsg \<Rightarrow> go_error option \<times> node" where
  "InsertData s p sd = (None, spawn (GO_Insert p sd) s)"

definition LocalSendMessage :: "node \<Rightarrow> ptr \<Rightarrow> Opcode \<Rightarrow> gdata \<Rightarrow> go_error option \<times> node" where
  "LocalSendMessage s p opCode dat =
     (if opCode \<noteq> StreamDataID then (Some ErrOutStream, s)
      else (case dat of
              D_StreamData sd \<Rightarrow> InsertData s p sd
            | _ \<Rightarrow> (Some ErrOutStream, s)))"

definition encodeAndFlush :: "env \<Rightarrow> node \<Rightarrow> strmh option \<Rightarrow> Msg \<Rightarrow> go_error option \<times> node" where
  "encodeAndFlush env s bs m =
     (case bs of
        None \<Rightarrow> (Some ErrOutStream, s)
      | Some sh \<Rightarrow>
          (case MarshalJSON env m of
             Inl e \<Rightarrow> (Some (ErrText e), s)
           | Inr b \<Rightarrow>
               (case EncodeTo env (hist s) sh b of
                  Some e \<Rightarrow> (Some e, log (E_Encode sh m False) s)
                | None \<Rightarrow>
                    let s1 = log (E_Encode sh m True) s
                    in (case FlushTo env (hist s1) sh of
                          Some e \<Rightarrow> (Some e, log (E_Flush sh m False) s1)
                        | None \<Rightarrow> (None, log (E_Flush sh m True) s1)))))"

definition BasicSendMessage :: "env \<Rightarrow> node \<Rightarrow> strmh option \<Rightarrow> Opcode \<Rightarrow> gdata \<Rightarrow> go_error option \<times> node"
  where "BasicSendMessage env s bs opCode dat =
     (case bs of
        None \<Rightarrow> (Some ErrOutStream, s)
      | Some sh \<Rightarrow> encodeAndFlush env s (Some sh) \<lparr>Op = opCode, Data = dat\<rparr>)"

definition SendMessage :: "env \<Rightarrow> node \<Rightarrow> OutStream \<Rightarrow> Opcode \<Rightarrow> gdata \<Rightarrow> go_error option \<times> node" where
  "SendMessage env s strm opCode dat =
     (case strm of
        Basic bs \<Rightarrow> BasicSendMessage env s bs opCode dat
      | Local p \<Rightarrow> LocalSendMessage s p opCode dat)"

definition GetRemotePeer :: "env \<Rightarrow> OutStream \<Rightarrow> peerID" where
  "GetRemotePeer env strm =
     (case strm of Basic None \<Rightarrow> [] | Basic (Some sh) \<Rightarrow> RemotePeer env sh | Local _ \<Rightarrow> [])"

section \<open>The cache of outgoing streams\<close>

definition RefreshOutStream :: "env \<Rightarrow> node \<Rightarrow> peerID \<Rightarrow> strmh option \<times> node" where
  "RefreshOutStream env s pid =
     (let s1 = (case mget (outStreams s) pid of Some sh \<Rightarrow> log (E_Reset sh) s | None \<Rightarrow> s)
      in case NewStream env (hist s1) pid of
           Inl _ \<Rightarrow> (None, log (E_NewStream pid None) s1)
         | Inr ns \<Rightarrow>
             (Some ns, log (E_NewStream pid (Some ns)) (s1\<lparr>outStreams := mput (outStreams s1) pid ns\<rparr>)))"

definition GetOutStream :: "env \<Rightarrow> node \<Rightarrow> peerID \<Rightarrow> strmh option \<times> node" where
  "GetOutStream env s pid =
     (case mget (outStreams s) pid of
        Some strm \<Rightarrow> (Some strm, s)
      | None \<Rightarrow> RefreshOutStream env s pid)"

definition RemoveStream :: "node \<Rightarrow> peerID \<Rightarrow> node" where
  "RemoveStream s pid = s\<lparr>outStreams := mdel (outStreams s) pid\<rparr>"

definition sendMessageWithRetry ::
  "env \<Rightarrow> node \<Rightarrow> peerID \<Rightarrow> OutStream option \<Rightarrow> Opcode \<Rightarrow> gdata \<Rightarrow> go_error option \<times> node" where
  "sendMessageWithRetry env s pid strm op msg =
     (case strm of
        None \<Rightarrow> (Some ErrSendMsg, s)
      | Some st \<Rightarrow>
          (case SendMessage env s st op msg of
             (None, s1) \<Rightarrow> (None, s1)
           | (Some _, s1) \<Rightarrow>
               (case RefreshOutStream env s1 pid of
                  (newStrm, s2) \<Rightarrow> SendMessage env s2 (Basic newStrm) op msg)))"

section \<open>Node ids and peers\<close>

definition GetNodeID :: "env \<Rightarrow> node \<Rightarrow> string" where
  "GetNodeID env s = IDHexEncode env (identity s)"

definition extractNodeID :: "env \<Rightarrow> string \<Rightarrow> go_error + peerID" where
  "extractNodeID env strmOrManifestID =
     (if length strmOrManifestID < 68 then Inl ErrProtocol
      else let nid = take 68 strmOrManifestID in IDHexDecode env nid)"

definition ClosestLocalPeers :: "env \<Rightarrow> node \<Rightarrow> string \<Rightarrow> go_error + peerID list" where
  "ClosestLocalPeers env s strmID =
     (case extractNodeID env strmID of
        Inl _ \<Rightarrow> Inl ErrSubscriber
      | Inr targetPid \<Rightarrow>
          let localPeers = Peers env (hist s)
          in if length localPeers = 1 then Inl ErrSubscriber
             else Inr (SortClosestPeers env localPeers targetPid))"

definition Sign :: "node \<Rightarrow> bytes \<Rightarrow> go_error + bytes" where
  "Sign s dat = (case signFun s of None \<Rightarrow> Inr [] | Some f \<Rightarrow> f dat)"

definition VerifyTranscoderSig :: "node \<Rightarrow> bytes \<Rightarrow> bytes \<Rightarrow> string \<Rightarrow> bool" where
  "VerifyTranscoderSig s dat sig strmID =
     (case verifyFun s of None \<Rightarrow> True | Some f \<Rightarrow> f dat sig strmID)"

section \<open>Connecting to a peer\<close>

definition connectPeerInfo :: "env \<Rightarrow> node \<Rightarrow> peerID \<Rightarrow> multiaddr list \<Rightarrow> go_error option \<times> node" where
  "connectPeerInfo env s pid addrs =
     (case HostConnect env (hist s) pid addrs of
        None \<Rightarrow> (None, log (E_AddPeer pid addrs) (log (E_Connect pid addrs True) s))
      | Some e \<Rightarrow> (Some e, log (E_RemovePeer pid) (log (E_Connect pid addrs False) s)))"

fun parse_addrs :: "env \<Rightarrow> string list \<Rightarrow> go_error + multiaddr list" where
  "parse_addrs env [] = Inr []"
| "parse_addrs env (addr # as) =
     (case NewMultiaddr env addr of
        Inl e \<Rightarrow> Inl e
      | Inr p \<Rightarrow> (case parse_addrs env as of Inl e \<Rightarrow> Inl e | Inr ps \<Rightarrow> Inr (p # ps)))"

definition Connect :: "env \<Rightarrow> node \<Rightarrow> string \<Rightarrow> string list \<Rightarrow> go_error option \<times> node" where
  "Connect env s nodeID addrs =
     (case IDHexDecode env nodeID of
        Inl e \<Rightarrow> (Some e, s)
      | Inr pid \<Rightarrow>
          (case parse_addrs env addrs of
             Inl e \<Rightarrow> (Some e, s)
           | Inr paddrs \<Rightarrow> connectPeerInfo env s pid paddrs))"

section \<open>Forwarding to the closest peer\<close>

text \<open>
  The loop over the closest peers that \<^verbatim>\<open>handleSub\<close>,
  \<^verbatim>\<open>handleTranscodeResponse\<close>, \<^verbatim>\<open>handleGetMasterPlaylistReq\<close> and
  \<^verbatim>\<open>handleNodeStatusReqMsg\<close> each contain: skip the requesting peer and this node, give up
  on an empty id, try to send, go on with the next peer when there is no stream or the send
  fails. What the handler does after the first successful send is left to the caller.
\<close>

datatype forwarded = FwdEmptyPeer | FwdSent peerID | FwdNone

fun forwardLoop ::
  "(node \<Rightarrow> peerID \<Rightarrow> strmh option \<times> node)
   \<Rightarrow> (node \<Rightarrow> peerID \<Rightarrow> OutStream option \<Rightarrow> Opcode \<Rightarrow> gdata \<Rightarrow> go_error option \<times> node)
   \<Rightarrow> peerID \<Rightarrow> Opcode \<Rightarrow> gdata \<Rightarrow> peerID list \<Rightarrow> node \<Rightarrow> forwarded \<times> node" where
  "forwardLoop getOut send remotePID op msg [] s = (FwdNone, s)"
| "forwardLoop getOut send remotePID op msg (p # ps) s =
     (if p = remotePID \<or> p = identity s then forwardLoop getOut send remotePID op msg ps s
      else if p = [] then (FwdEmptyPeer, s)
      else (case getOut s p of
              (None, s1) \<Rightarrow> forwardLoop getOut send remotePID op msg ps s1
            | (Some sh, s1) \<Rightarrow>
                (case send s1 p (Some (Basic (Some sh))) op msg of
                   (Some _, s2) \<Rightarrow> forwardLoop getOut send remotePID op msg ps s2
                 | (None, s2) \<Rightarrow> (FwdSent p, s2))))"

definition forward :: "env \<Rightarrow> peerID \<Rightarrow> Opcode \<Rightarrow> gdata \<Rightarrow> peerID list \<Rightarrow> node \<Rightarrow> forwarded \<times> node" where
  "forward env = forwardLoop (GetOutStream env) (sendMessageWithRetry env)"

section \<open>The contract of the transport\<close>

text \<open>The messages that left the node with the peer at the other end, latest first.\<close>

definition sent_to :: "env \<Rightarrow> history \<Rightarrow> (peerID \<times> Msg) list" where
  "sent_to env h = map (\<lambda>(sh, m). (RemotePeer env sh, m)) (sent h)"

lemma sent_to_Nil [simp]: "sent_to env [] = []"
  by (simp add: sent_to_def)

lemma sent_to_other [simp]: "\<not> is_flush e \<Longrightarrow> sent_to env (e # h) = sent_to env h"
  by (simp add: sent_to_def)

lemma sent_to_flush [simp]:
  "sent_to env (E_Flush sh m ok # h) =
     (if ok then (RemotePeer env sh, m) # sent_to env h else sent_to env h)"
  by (simp add: sent_to_def)

lemma is_flush_simps [simp]:
  "\<not> is_flush (E_NewStream p so)" "\<not> is_flush (E_Reset sh)" "\<not> is_flush (E_Encode sh m ok)"
  "\<not> is_flush (E_Connect p as ok)" "\<not> is_flush (E_AddPeer p as)" "\<not> is_flush (E_RemovePeer p)"
  "\<not> is_flush (E_LogConn p q')" "\<not> is_flush (E_RemoveConn p q')" "\<not> is_flush (E_DHTPut k b ok)"
  "\<not> is_flush (E_ClosePeer p)" "\<not> is_flush (E_CloseConn sh)"
  "\<not> is_flush (E_CacheAdd k)" "\<not> is_flush (E_LogBroadcaster k)" "\<not> is_flush (E_LogSub k)"
  "\<not> is_flush (E_LogRelay k k')" "\<not> is_flush (E_RemoveRelay k)" "\<not> is_flush (E_Notify q)"
  "\<not> is_flush (E_StopNotify q)" "\<not> is_flush (E_Callback n r)" "\<not> is_flush (E_GotData q sn b eof)"
  "\<not> is_flush E_Sleep" "\<not> is_flush E_Rand" "\<not> is_flush (E_Recv p)" "\<not> is_flush (E_ResetIncoming p)" "\<not> is_flush (E_Env n)"
  by (simp_all add: is_flush_def)

text \<open>
  The cached stream of a peer leads to that peer, and so will every stream that the host opens.
\<close>

definition streams_ok :: "env \<Rightarrow> node \<Rightarrow> bool" where
  "streams_ok env s \<longleftrightarrow>
     streams_reach env \<and> (\<forall>p sh. mget (outStreams s) p = Some sh \<longrightarrow> RemotePeer env sh = p)"

lemma streams_ok_log [simp]: "streams_ok env (log e s) = streams_ok env s"
  by (simp add: streams_ok_def)

lemma streams_ok_cong: "outStreams s' = outStreams s \<Longrightarrow> streams_ok env s' = streams_ok env s"
  by (simp add: streams_ok_def)

lemma streams_ok_put [simp]:
  "streams_ok env (put_r s p r) = streams_ok env s" "streams_ok env (put_b s p b) = streams_ok env s"
  "streams_ok env (put_s s p su) = streams_ok env s" "streams_ok env (spawn g s) = streams_ok env s"
  by (simp_all add: streams_ok_def)

locale transport =
  fixes getOut :: "node \<Rightarrow> peerID \<Rightarrow> strmh option \<times> node"
    and send :: "node \<Rightarrow> peerID \<Rightarrow> OutStream option \<Rightarrow> Opcode \<Rightarrow> gdata \<Rightarrow> go_error option \<times> node"
    and ok :: "node \<Rightarrow> bool"
    and delivered :: "node \<Rightarrow> (peerID \<times> Msg) list"
    and remote :: "strmh \<Rightarrow> peerID"
  assumes getOut_frame: "getOut s p = (r, s') \<Longrightarrow> io_frame s s'"
    and getOut_ok: "getOut s p = (r, s') \<Longrightarrow> ok s \<Longrightarrow> ok s'"
    and getOut_remote: "getOut s p = (Some sh, s') \<Longrightarrow> ok s \<Longrightarrow> remote sh = p"
    and getOut_silent: "getOut s p = (r, s') \<Longrightarrow> delivered s' = delivered s"
    and send_frame: "send s p st op d = (e, s') \<Longrightarrow> io_frame s s'"
    and send_ok: "send s p st op d = (e, s') \<Longrightarrow> ok s \<Longrightarrow> ok s'"
    and send_delivers: "send s p (Some (Basic (Some sh))) op d = (None, s') \<Longrightarrow> ok s \<Longrightarrow>
      remote sh = p \<Longrightarrow> delivered s' = (p, \<lparr>Op = op, Data = d\<rparr>) # delivered s"
    and send_fails: "send s p st op d = (Some err, s') \<Longrightarrow> delivered s' = delivered s"
    and send_local: "send s p (Some (Local q)) StreamDataID (D_StreamData sd)
      = (None, spawn (GO_Insert q sd) s)"
    and send_gos: "send s p (Some (Basic bs)) op d = (e, s') \<Longrightarrow> gos s' = gos s"
    and ok_spawn: "ok (spawn g s) = ok s"
    and delivered_spawn: "delivered (spawn g s) = delivered s"
    and ok_put_b: "ok (put_b s q br) = ok s"
    and delivered_put_b: "delivered (put_b s q br) = delivered s"
    and ok_put: "ok s \<Longrightarrow> ok (put_r s q rl)"
    and delivered_put: "delivered (put_r s q rl) = delivered s"
begin

lemma forward_frame:
  "forwardLoop getOut send r op d ps s = (res, s') \<Longrightarrow> io_frame s s'"
proof (induction ps arbitrary: s)
  case Nil
  then show ?case by simp
next
  case (Cons p ps)
  then show ?case
    by (auto split: if_split_asm prod.split_asm option.split_asm
        dest!: getOut_frame send_frame intro: io_frame_trans)
qed

lemma forward_ok:
  "forwardLoop getOut send r op d ps s = (res, s') \<Longrightarrow> ok s \<Longrightarrow> ok s'"
proof (induction ps arbitrary: s)
  case Nil
  then show ?case by simp
next
  case (Cons p ps)
  then show ?case
    by (auto split: if_split_asm prod.split_asm option.split_asm dest!: getOut_ok send_ok)
qed

lemma forward_sent:
  "forwardLoop getOut send r op d ps s = (FwdSent p, s') \<Longrightarrow> ok s \<Longrightarrow>
     p \<in> set ps \<and> p \<noteq> r \<and> p \<noteq> identity s \<and> p \<noteq> []
     \<and> delivered s' = (p, \<lparr>Op = op, Data = d\<rparr>) # delivered s"
proof (induction ps arbitrary: s)
  case Nil
  then show ?case by simp
next
  case (Cons q ps)
  show ?case
  proof (cases "q = r \<or> q = identity s")
    case True
    with Cons show ?thesis by auto
  next
    case False
    with Cons.prems have q: "q \<noteq> []" by (auto split: if_split_asm)
    obtain so s1 where g: "getOut s q = (so, s1)" by fastforce
    note g1 = getOut_ok [OF g Cons.prems(2)] getOut_silent [OF g] io_frameD(1) [OF getOut_frame [OF g]]
    show ?thesis
    proof (cases so)
      case None
      with False q g Cons.prems(1) have "forwardLoop getOut send r op d ps s1 = (FwdSent p, s')"
        by simp
      from Cons.IH [OF this] g1 show ?thesis by simp
    next
      case (Some sh)
      obtain e s2 where sd: "send s1 q (Some (Basic (Some sh))) op d = (e, s2)" by fastforce
      show ?thesis
      proof (cases e)
        case None
        with False q g Some sd Cons.prems(1) have "p = q" "s' = s2" by simp_all
        moreover have "remote sh = q" using getOut_remote g Some Cons.prems(2) by blast
        ultimately show ?thesis
          using send_delivers [of s1 q sh op d s2] sd None g1 False q by simp
      next
        case (Some err)
        with False q g \<open>so = Some sh\<close> sd Cons.prems(1)
        have "forwardLoop getOut send r op d ps s2 = (FwdSent p, s')" by simp
        from Cons.IH [OF this] g1 send_ok [OF sd] send_fails [of s1 q _ op d err s2] sd Some
          io_frameD(1) [OF send_frame [OF sd]]
        show ?thesis by simp
      qed
    qed
  qed
qed

lemma forward_quiet:
  "forwardLoop getOut send r op d ps s = (res, s') \<Longrightarrow> \<forall>p. res \<noteq> FwdSent p \<Longrightarrow>
     delivered s' = delivered s"
proof (induction ps arbitrary: s)
  case Nil
  then show ?case by simp
next
  case (Cons q ps)
  then show ?case
    by (auto split: if_split_asm prod.split_asm option.split_asm
        dest!: getOut_silent send_fails)
qed

end

section \<open>The node's operations keep the contract\<close>

lemma io_frame_outs [simp]: "io_frame s (s\<lparr>outStreams := os\<rparr>)"
  by (rule io_frameI [where es = "[]" and gs = "[]" and os = os]) simp

lemma io_frame_log_trans: "io_frame s s1 \<Longrightarrow> io_frame s (log e s1)"
  by (rule io_frame_trans [OF _ io_frame_log])

lemma io_frame_outs_trans: "io_frame s s1 \<Longrightarrow> io_frame s (s1\<lparr>outStreams := os\<rparr>)"
  by (rule io_frame_trans [OF _ io_frame_outs])

lemmas io_frame_intros = io_frame_log_trans io_frame_outs_trans

lemma RefreshOutStream_frame: "RefreshOutStream env s p = (r, s') \<Longrightarrow> io_frame s s'"
  by (auto simp: RefreshOutStream_def Let_def split: option.split_asm sum.split_asm
      intro!: io_frame_intros)

lemma RefreshOutStream_ok: "RefreshOutStream env s p = (r, s') \<Longrightarrow> streams_ok env s \<Longrightarrow> streams_ok env s'"
  by (auto simp: RefreshOutStream_def Let_def streams_ok_def streams_reach_def
      split: option.split_asm sum.split_asm if_split_asm)

lemma RefreshOutStream_remote:
  "RefreshOutStream env s p = (Some sh, s') \<Longrightarrow> streams_ok env s \<Longrightarrow> RemotePeer env sh = p"
  by (auto simp: RefreshOutStream_def Let_def streams_ok_def streams_reach_def
      split: option.split_asm sum.split_asm)

lemma RefreshOutStream_silent:
  "RefreshOutStream env s p = (r, s') \<Longrightarrow> sent_to env (hist s') = sent_to env (hist s)"
  by (auto simp: RefreshOutStream_def Let_def split: option.split_asm sum.split_asm)

lemma encodeAndFlush_frame: "encodeAndFlush env s bs m = (e, s') \<Longrightarrow> io_frame s s'"
  by (auto simp: encodeAndFlush_def Let_def split: option.split_asm sum.split_asm
      intro!: io_frame_intros)

lemma encodeAndFlush_outs: "encodeAndFlush env s bs m = (e, s') \<Longrightarrow> outStreams s' = outStreams s"
  by (auto simp: encodeAndFlush_def Let_def split: option.split_asm sum.split_asm)

lemma encodeAndFlush_delivers:
  "encodeAndFlush env s (Some sh) m = (None, s') \<Longrightarrow>
     sent_to env (hist s') = (RemotePeer env sh, m) # sent_to env (hist s)"
  by (auto simp: encodeAndFlush_def Let_def split: option.split_asm sum.split_asm)

lemma encodeAndFlush_fails:
  "encodeAndFlush env s bs m = (Some e, s') \<Longrightarrow> sent_to env (hist s') = sent_to env (hist s)"
  by (auto simp: encodeAndFlush_def Let_def split: option.split_asm sum.split_asm)

lemma SendMessage_frame: "SendMessage env s st op d = (e, s') \<Longrightarrow> io_frame s s'"
  by (auto simp: SendMessage_def BasicSendMessage_def LocalSendMessage_def InsertData_def
      dest!: encodeAndFlush_frame
      split: OutStream.split_asm option.split_asm gdata.split_asm if_split_asm)

lemma SendMessage_outs: "SendMessage env s st op d = (e, s') \<Longrightarrow> outStreams s' = outStreams s"
  by (auto simp: SendMessage_def BasicSendMessage_def LocalSendMessage_def InsertData_def
      dest!: encodeAndFlush_outs
      split: OutStream.split_asm option.split_asm gdata.split_asm if_split_asm)

lemma SendMessage_fails:
  "SendMessage env s st op d = (Some e, s') \<Longrightarrow> sent_to env (hist s') = sent_to env (hist s)"
  by (auto simp: SendMessage_def BasicSendMessage_def LocalSendMessage_def InsertData_def
      dest!: encodeAndFlush_fails
      split: OutStream.split_asm option.split_asm gdata.split_asm if_split_asm)

lemma SendMessage_delivers:
  "SendMessage env s (Basic bs) op d = (None, s') \<Longrightarrow>
     \<exists>sh. bs = Some sh \<and> sent_to env (hist s') = (RemotePeer env sh, \<lparr>Op = op, Data = d\<rparr>) # sent_to env (hist s)"
  by (auto simp: SendMessage_def BasicSendMessage_def dest!: encodeAndFlush_delivers
      split: option.split_asm)

lemma GetOutStream_frame: "GetOutStream env s p = (r, s') \<Longrightarrow> io_frame s s'"
  by (auto simp: GetOutStream_def dest: RefreshOutStream_frame split: option.split_asm)

lemma GetOutStream_ok: "GetOutStream env s p = (r, s') \<Longrightarrow> streams_ok env s \<Longrightarrow> streams_ok env s'"
  by (auto simp: GetOutStream_def dest: RefreshOutStream_ok split: option.split_asm)

lemma GetOutStream_remote:
  "GetOutStream env s p = (Some sh, s') \<Longrightarrow> streams_ok env s \<Longrightarrow> RemotePeer env sh = p"
  by (auto simp: GetOutStream_def streams_ok_def dest: RefreshOutStream_remote [unfolded streams_ok_def]
      split: option.split_asm)

lemma GetOutStream_silent:
  "GetOutStream env s p = (r, s') \<Longrightarrow> sent_to env (hist s') = sent_to env (hist s)"
  by (auto simp: GetOutStream_def dest: RefreshOutStream_silent split: option.split_asm)

lemma retry_frame: "sendMessageWithRetry env s p st op d = (e, s') \<Longrightarrow> io_frame s s'"
  by (auto simp: sendMessageWithRetry_def split: option.split_asm prod.split_asm
      dest!: SendMessage_frame RefreshOutStream_frame intro: io_frame_trans)

lemma retry_ok:
  "sendMessageWithRetry env s p st op d = (e, s') \<Longrightarrow> streams_ok env s \<Longrightarrow> streams_ok env s'"
  by (auto simp: sendMessageWithRetry_def split: option.split_asm prod.split_asm
      dest!: SendMessage_outs RefreshOutStream_ok) (auto simp: streams_ok_def)

lemma retry_fails:
  "sendMessageWithRetry env s p st op d = (Some e, s') \<Longrightarrow>
     sent_to env (hist s') = sent_to env (hist s)"
  by (auto simp: sendMessageWithRetry_def split: option.split_asm prod.split_asm
      dest!: SendMessage_fails RefreshOutStream_silent)

lemma RefreshOutStream_gos: "RefreshOutStream env s p = (r, s') \<Longrightarrow> gos s' = gos s"
  by (auto simp: RefreshOutStream_def Let_def split: option.split_asm sum.split_asm)

lemma SendMessage_gos: "SendMessage env s (Basic bs) op d = (e, s') \<Longrightarrow> gos s' = gos s"
  by (auto simp: SendMessage_def BasicSendMessage_def encodeAndFlush_def Let_def
      split: option.split_asm sum.split_asm)

lemma retry_gos: "sendMessageWithRetry env s p (Some (Basic bs)) op d = (e, s') \<Longrightarrow> gos s' = gos s"
  by (auto simp: sendMessageWithRetry_def split: option.split_asm prod.split_asm
      dest!: SendMessage_gos RefreshOutStream_gos)

lemma retry_local:
  "sendMessageWithRetry env s p (Some (Local q)) StreamDataID (D_StreamData sd)
     = (None, spawn (GO_Insert q sd) s)"
  by (simp add: sendMessageWithRetry_def SendMessage_def LocalSendMessage_def InsertData_def)

text \<open>Input and output never call the client of a subscriber.\<close>

lemma RefreshOutStream_client: "RefreshOutStream env s p = (r, s') \<Longrightarrow> got_data q (hist s') = got_data q (hist s)"
  by (auto simp: RefreshOutStream_def Let_def split: option.split_asm sum.split_asm)

lemma SendMessage_client: "SendMessage env s st op d = (e, s') \<Longrightarrow> got_data q (hist s') = got_data q (hist s)"
  by (auto simp: SendMessage_def BasicSendMessage_def LocalSendMessage_def InsertData_def encodeAndFlush_def
      Let_def split: OutStream.split_asm option.split_asm sum.split_asm gdata.split_asm if_split_asm)

lemma retry_client:
  "sendMessageWithRetry env s p st op d = (e, s') \<Longrightarrow> got_data q (hist s') = got_data q (hist s)"
  by (auto simp: sendMessageWithRetry_def split: option.split_asm prod.split_asm
      dest!: SendMessage_client [where q = q] RefreshOutStream_client [where q = q])

text \<open>
  A successful send to \<open>p\<close> over a stream to \<open>p\<close> (or over a nil stream, which is refreshed)
  delivers the message once, to \<open>p\<close>.
\<close>

lemma retry_delivers:
  assumes snd: "sendMessageWithRetry env s p (Some (Basic bs)) op d = (None, s')"
    and ok: "streams_ok env s" and rem: "\<forall>sh. bs = Some sh \<longrightarrow> RemotePeer env sh = p"
  shows "sent_to env (hist s') = (p, \<lparr>Op = op, Data = d\<rparr>) # sent_to env (hist s)"
proof -
  obtain e1 s1 where s1: "SendMessage env s (Basic bs) op d = (e1, s1)" by fastforce
  show ?thesis
  proof (cases e1)
    case None
    with s1 snd rem show ?thesis
      by (auto simp: sendMessageWithRetry_def dest!: SendMessage_delivers)
  next
    case (Some err)
    obtain ns s2 where s2: "RefreshOutStream env s1 p = (ns, s2)" by fastforce
    from snd s1 s2 Some have "SendMessage env s2 (Basic ns) op d = (None, s')"
      by (simp add: sendMessageWithRetry_def)
    then obtain sh where sh: "ns = Some sh"
      "sent_to env (hist s') = (RemotePeer env sh, \<lparr>Op = op, Data = d\<rparr>) # sent_to env (hist s2)"
      by (auto dest!: SendMessage_delivers)
    have "streams_ok env s1"
      using ok SendMessage_outs [OF s1] by (simp add: streams_ok_def)
    with s2 sh(1) have "RemotePeer env sh = p" by (auto dest: RefreshOutStream_remote)
    moreover have "sent_to env (hist s2) = sent_to env (hist s)"
      using RefreshOutStream_silent [OF s2] SendMessage_fails s1 Some by simp
    ultimately show ?thesis using sh(2) by simp
  qed
qed

lemma retry_sent:
  assumes "sendMessageWithRetry env s p (Some (Basic bs)) op d = (e, s')" "streams_ok env s"
    and "\<forall>sh. bs = Some sh \<longrightarrow> RemotePeer env sh = p"
  shows "sent_to env (hist s') = (if e = None then [(p, \<lparr>Op = op, Data = d\<rparr>)] else []) @ sent_to env (hist s)"
proof (cases e)
  case None
  with retry_delivers [OF _ assms(2,3)] assms(1) show ?thesis by simp
next
  case (Some err)
  with retry_fails assms(1) show ?thesis by simp
qed


text \<open>
  A failed refresh leaves the stream it has just reset in the cache: the old stream is reset, the
  host cannot open a new one, and the next \<^verbatim>\<open>GetOutStream\<close> of that peer hands out
  the dead stream without trying to open another.
\<close>

theorem failed_refresh_keeps_reset_stream:
  assumes "mget (outStreams s) p = Some sh" and "RefreshOutStream env s p = (None, s')"
  shows "E_Reset sh \<in> set (hist s') \<and> GetOutStream env s' p = (Some sh, s')"
  using assms by (auto simp: RefreshOutStream_def GetOutStream_def Let_def split: sum.split_asm)

section \<open>Witnesses\<close>

text \<open>A stream of peer B, and the demonstration node.\<close>

definition demo_strm :: string where "demo_strm = pB @ ''s''"

lemma demo_extract [simp]: "extractNodeID demo_env demo_strm = Inr pB"
  by (simp add: extractNodeID_def demo_strm_def)

lemma demo_node_fields [simp]:
  "identity demo_node = pMe" "outStreams demo_node = []" "hist demo_node = []" "relayers demo_node = []"
  "broadcasters demo_node = []" "subscribers demo_node = []" "get_s demo_node p = zero_subscriber"
  "get_r demo_node p = zero_relayer" "get_b demo_node p = zero_broadcaster"
  "fresh (rstore demo_node) = 0" "fresh (sstore demo_node) = 0" "fresh (bstore demo_node) = 0"
  by (simp_all add: demo_node_def)

lemma demo_node_ok [simp]: "streams_ok demo_env demo_node"
  by (simp add: streams_ok_def)

lemmas send_simps = sendMessageWithRetry_def SendMessage_def BasicSendMessage_def encodeAndFlush_def
  GetOutStream_def RefreshOutStream_def MarshalJSON_def marshal_data_def Let_def


lemma failed_refresh_keeps_reset_stream_witness:
  "E_Reset 3 \<in> set (hist (snd (RefreshOutStream demo_env (demo_node\<lparr>outStreams := [(pD, 3)]\<rparr>) pD)))"
  using failed_refresh_keeps_reset_stream [of "demo_node\<lparr>outStreams := [(pD, 3)]\<rparr>" pD 3 demo_env]
  by (simp add: RefreshOutStream_def Let_def)

section \<open>The contract holds\<close>

interpretation tr: transport "GetOutStream env" "sendMessageWithRetry env" "streams_ok env"
    "\<lambda>s. sent_to env (hist s)" "RemotePeer env" for env
  by unfold_locales
    (auto dest: GetOutStream_frame GetOutStream_ok GetOutStream_remote GetOutStream_silent
      retry_frame retry_ok retry_delivers retry_fails retry_gos simp: retry_local)

end
