(* ===== verification/Relayer.thy ===== *)
theory Relayer
  imports Streams
begin

text \<open>
  The relayer (\<^verbatim>\<open>basic_relayer.go\<close>) and its creation and collection
  (\<^verbatim>\<open>NewRelayer\<close>): the listeners of a stream at an intermediate node.
\<close>

section \<open>Operations\<close>

text \<open>
  The loop of the four relay methods over the keys in the order \<^verbatim>\<open>range\<close> yields them. A
  nil listener is dereferenced (\<^verbatim>\<open>l.Stream\<close>) and panics; a listener whose send fails is
  deleted. \<open>cnt\<close> tells whether the method counts the data it relays.
\<close>

fun relayLoop ::
  "(node \<Rightarrow> peerID \<Rightarrow> OutStream option \<Rightarrow> Opcode \<Rightarrow> gdata \<Rightarrow> go_error option \<times> node)
   \<Rightarrow> (strmh \<Rightarrow> peerID) \<Rightarrow> (history \<Rightarrow> int) \<Rightarrow> Opcode \<Rightarrow> gdata \<Rightarrow> bool \<Rightarrow> ptr \<Rightarrow> string list \<Rightarrow> node
   \<Rightarrow> node outcome" where
  "relayLoop send remote now op msg cnt p [] s = Returns s"
| "relayLoop send remote now op msg cnt p (k # ks) s =
     (case mget (r_listeners (get_r s p)) k of
        None \<Rightarrow> relayLoop send remote now op msg cnt p ks s
      | Some None \<Rightarrow> Panics
      | Some (Some l) \<Rightarrow>
          (case send s (remote l) (Some (Basic (Some l))) op msg of
             (err, s1) \<Rightarrow>
               let r1 = get_r s1 p;
                   r2 = (if err \<noteq> None then r1\<lparr>r_listeners := mdel (r_listeners r1) k\<rparr> else r1);
                   r3 = r2\<lparr>r_LastRelay := now (hist s1)\<rparr>;
                   r4 = (if cnt then r3\<lparr>r_dataCount := r_dataCount r3 + 1\<rparr> else r3)
               in relayLoop send remote now op msg cnt p ks (put_r s1 p r4)))"

definition relay :: "env \<Rightarrow> Opcode \<Rightarrow> gdata \<Rightarrow> bool \<Rightarrow> node \<Rightarrow> ptr \<Rightarrow> (go_error option \<times> node) outcome"
  where "relay env op msg cnt s p =
     map_outcome (\<lambda>s'. (None, s'))
       (relayLoop (sendMessageWithRetry env) (RemotePeer env) (Now env) op msg cnt p
          (MapRange env (hist s) (mkeys (r_listeners (get_r s p)))) s)"

definition RelayStreamData :: "env \<Rightarrow> node \<Rightarrow> ptr \<Rightarrow> StreamDataMsg \<Rightarrow> (go_error option \<times> node) outcome"
  where "RelayStreamData env s p sd = relay env StreamDataID (D_StreamData sd) True s p"

definition RelayFinishStream :: "env \<Rightarrow> node \<Rightarrow> ptr \<Rightarrow> FinishStreamMsg \<Rightarrow> (go_error option \<times> node) outcome"
  where "RelayFinishStream env s p fs = relay env FinishStreamID (D_FinishStream fs) False s p"

definition RelayMasterPlaylistData ::
  "env \<Rightarrow> node \<Rightarrow> ptr \<Rightarrow> MasterPlaylistDataMsg \<Rightarrow> (go_error option \<times> node) outcome" where
  "RelayMasterPlaylistData env s p mpld =
     relay env MasterPlaylistDataID (D_MasterPlaylistData mpld) False s p"

definition RelayNodeStatusData ::
  "env \<Rightarrow> node \<Rightarrow> ptr \<Rightarrow> NodeStatusDataMsg \<Rightarrow> (go_error option \<times> node) outcome" where
  "RelayNodeStatusData env s p nsd = relay env NodeStatusDataID (D_NodeStatusData nsd) False s p"

definition AddListener :: "env \<Rightarrow> node \<Rightarrow> ptr \<Rightarrow> peerID \<Rightarrow> node" where
  "AddListener env s p pid =
     (let key = IDHexEncode env pid in
      case mget (r_listeners (get_r s p)) key of
        Some _ \<Rightarrow> s
      | None \<Rightarrow>
          (case GetOutStream env s pid of
             (strm, s1) \<Rightarrow>
               put_r s1 p ((get_r s1 p)\<lparr>r_listeners := mput (r_listeners (get_r s1 p)) key strm\<rparr>)))"

text \<open>
  \<^verbatim>\<open>NewRelayer\<close>: a fresh relayer under its key, with a goroutine that collects it. Its
  time of last use is the zero time.
\<close>

definition NewRelayer :: "node \<Rightarrow> string \<Rightarrow> Opcode \<Rightarrow> ptr \<times> node" where
  "NewRelayer s strmID opcode =
     (case new_r s zero_relayer of
        (p, s1) \<Rightarrow>
          (p, spawn (GO_RelayGC p (relayerMapKey strmID opcode))
                (s1\<lparr>relayers := mput (relayers s1) (relayerMapKey strmID opcode) p\<rparr>)))"

definition set_upstream :: "node \<Rightarrow> ptr \<Rightarrow> peerID \<Rightarrow> node" where
  "set_upstream s p up = put_r s p ((get_r s p)\<lparr>r_UpstreamPeer := up\<rparr>)"

text \<open>
  One tick of the collecting goroutine; times are in nanoseconds since the zero time.
  \<^verbatim>\<open>time.Since\<close> saturates at the bounds of a 64-bit duration. The result tells whether
  the goroutine has ended.
\<close>

definition RelayGCTime :: int where
  "RelayGCTime = 60 * 1000000000"

definition time_since :: "int \<Rightarrow> int \<Rightarrow> int" where
  "time_since now t = max (- (2 ^ 63)) (min (2 ^ 63 - 1) (now - t))"

definition relayGCTick :: "env \<Rightarrow> ptr \<Rightarrow> string \<Rightarrow> node \<Rightarrow> bool \<times> node" where
  "relayGCTick env p key s =
     (if time_since (Now env (hist s)) (r_LastRelay (get_r s p)) > RelayGCTime
      then (True, s\<lparr>relayers := mdel (relayers s) key\<rparr>)
      else (False, s))"

text \<open>What the creation of a relayer does to the state.\<close>

lemma new_r_simps:
  "fst (new_r s r) = fresh (rstore s)"
  "get_r (snd (new_r s r)) q = (if q = fresh (rstore s) then r else get_r s q)"
  by (simp_all add: new_r_def snew_def Let_def get_r_def sget_def)

lemma new_r_fields:
  "hist (snd (new_r s r)) = hist s" "identity (snd (new_r s r)) = identity s"
  "outStreams (snd (new_r s r)) = outStreams s" "broadcasters (snd (new_r s r)) = broadcasters s"
  "subscribers (snd (new_r s r)) = subscribers s" "relayers (snd (new_r s r)) = relayers s"
  "mplMap (snd (new_r s r)) = mplMap s" "msgChans (snd (new_r s r)) = msgChans s"
  "bstore (snd (new_r s r)) = bstore s" "sstore (snd (new_r s r)) = sstore s"
  "gos (snd (new_r s r)) = gos s" "fresh (rstore (snd (new_r s r))) = Suc (fresh (rstore s))"
  "get_s (snd (new_r s r)) p = get_s s p" "get_b (snd (new_r s r)) p = get_b s p"
  by (simp_all add: new_r_def snew_def Let_def get_s_def get_b_def)

lemma NewRelayer_eq:
  "NewRelayer s strmID opcode =
     (fresh (rstore s), spawn (GO_RelayGC (fresh (rstore s)) (relayerMapKey strmID opcode))
        ((snd (new_r s zero_relayer))\<lparr>relayers := mput (relayers s) (relayerMapKey strmID opcode) (fresh (rstore s))\<rparr>))"
  by (simp add: NewRelayer_def new_r_simps(1) new_r_fields split_beta)

lemmas new_relayer_simps = NewRelayer_eq new_r_simps new_r_fields

section \<open>The relay loop\<close>

definition no_nil_listener :: "BasicRelayer \<Rightarrow> bool" where
  "no_nil_listener r \<longleftrightarrow> (\<forall>k. mget (r_listeners r) k \<noteq> Some None)"

lemma no_nil_listenerD: "no_nil_listener r \<Longrightarrow> mget (r_listeners r) k \<noteq> Some None"
  by (simp add: no_nil_listener_def)

text \<open>
  What a relay may change: one relayer's struct, and what input and output change.
\<close>

definition rel_frame :: "ptr \<Rightarrow> node \<Rightarrow> node \<Rightarrow> bool" where
  "rel_frame p s s' \<longleftrightarrow>
     (\<exists>es os gs rs. s' = s\<lparr>hist := es @ hist s, outStreams := os, gos := gos s @ gs, rstore := rs\<rparr>
        \<and> fresh rs = fresh (rstore s) \<and> (\<forall>q. q \<noteq> p \<longrightarrow> sget rs q = sget (rstore s) q))"

lemma rel_frameI:
  assumes "s' = s\<lparr>hist := es @ hist s, outStreams := os, gos := gos s @ gs, rstore := rs\<rparr>"
    and "fresh rs = fresh (rstore s)" and "\<And>q. q \<noteq> p \<Longrightarrow> sget rs q = sget (rstore s) q"
  shows "rel_frame p s s'"
  using assms unfolding rel_frame_def by blast

lemma rel_frame_io: "io_frame s s' \<Longrightarrow> rel_frame p s s'"
  by (auto simp: io_frame_def intro!: rel_frameI [where rs = "rstore s"])

lemma rel_frame_put: "rel_frame p s (put_r s p r)"
  by (rule rel_frameI [where es = "[]" and os = "outStreams s" and gs = "[]"
        and rs = "sput (rstore s) p r"]) (simp_all add: put_r_def)

lemma rel_frame_trans [trans]:
  assumes "rel_frame p s s1" "rel_frame p s1 s2"
  shows "rel_frame p s s2"
proof -
  from assms(1) obtain es os gs rs
    where 1: "s1 = s\<lparr>hist := es @ hist s, outStreams := os, gos := gos s @ gs, rstore := rs\<rparr>"
      "fresh rs = fresh (rstore s)" "\<forall>q. q \<noteq> p \<longrightarrow> sget rs q = sget (rstore s) q"
    by (auto simp: rel_frame_def)
  from assms(2) obtain es' os' gs' rs'
    where 2: "s2 = s1\<lparr>hist := es' @ hist s1, outStreams := os', gos := gos s1 @ gs', rstore := rs'\<rparr>"
      "fresh rs' = fresh (rstore s1)" "\<forall>q. q \<noteq> p \<longrightarrow> sget rs' q = sget (rstore s1) q"
    by (auto simp: rel_frame_def)
  show ?thesis
    by (rule rel_frameI [where es = "es' @ es" and os = os' and gs = "gs @ gs'" and rs = rs'])
      (use 1 2 in simp_all)
qed

lemma rel_frameD:
  assumes "rel_frame p s s'"
  shows "identity s' = identity s" "broadcasters s' = broadcasters s"
    "subscribers s' = subscribers s" "relayers s' = relayers s" "bstore s' = bstore s"
    "sstore s' = sstore s" "ctxs s' = ctxs s" "mplMap s' = mplMap s" "msgChans s' = msgChans s"
    "fresh (rstore s') = fresh (rstore s)" "q \<noteq> p \<Longrightarrow> get_r s' q = get_r s q"
    "get_b s' q = get_b s q" "get_s s' q = get_s s q"
  using assms by (auto simp: rel_frame_def get_r_def get_b_def get_s_def)

context transport
begin

lemma relayLoop_frame:
  "relayLoop send rmt now op d cnt p ks s = Returns s' \<Longrightarrow> rel_frame p s s'"
proof (induction ks arbitrary: s)
  case Nil
  then show ?case by (simp add: rel_frame_io)
next
  case (Cons k ks)
  show ?case
  proof (cases "mget (r_listeners (get_r s p)) k")
    case None
    with Cons show ?thesis by simp
  next
    case (Some lo)
    with Cons.prems obtain l where l: "lo = Some l" by (cases lo) auto
    obtain err s1 where sd: "send s (rmt l) (Some (Basic (Some l))) op d = (err, s1)" by fastforce
    from Cons.prems Some l sd obtain r
      where "relayLoop send rmt now op d cnt p ks (put_r s1 p r) = Returns s'"
      by (auto simp: Let_def)
    then have "rel_frame p (put_r s1 p r) s'" by (rule Cons.IH)
    with rel_frame_put have "rel_frame p s1 s'" by (rule rel_frame_trans)
    with rel_frame_io [OF send_frame [OF sd]] show ?thesis by (rule rel_frame_trans)
  qed
qed

text \<open>One round of the loop, with the listeners it leaves.\<close>

lemma relayLoop_round:
  assumes "mget (r_listeners (get_r s p)) k = Some (Some l)"
    and sd: "send s (rmt l) (Some (Basic (Some l))) op d = (err, s1)"
  shows "\<exists>r. relayLoop send rmt now op d cnt p (k # ks) s
          = relayLoop send rmt now op d cnt p ks (put_r s1 p r)
      \<and> r_listeners r =
          (if err = None then r_listeners (get_r s p) else mdel (r_listeners (get_r s p)) k)
      \<and> r_LastRelay r = now (hist s1)
      \<and> r_dataCount r = (if cnt then r_dataCount (get_r s p) + 1 else r_dataCount (get_r s p))
      \<and> r_UpstreamPeer r = r_UpstreamPeer (get_r s p)"
proof -
  have g: "get_r s1 p = get_r s p"
    by (rule io_frame_structs) (rule send_frame [OF sd])
  show ?thesis
    by (rule exI [of _ "(let r1 = get_r s1 p;
                   r2 = (if err \<noteq> None then r1\<lparr>r_listeners := mdel (r_listeners r1) k\<rparr> else r1);
                   r3 = r2\<lparr>r_LastRelay := now (hist s1)\<rparr>
               in (if cnt then r3\<lparr>r_dataCount := r_dataCount r3 + 1\<rparr> else r3))"])
      (use assms in \<open>auto simp: Let_def g\<close>)
qed

lemma relayLoop_returns:
  "no_nil_listener (get_r s p) \<Longrightarrow> \<exists>s'. relayLoop send rmt now op d cnt p ks s = Returns s'"
proof (induction ks arbitrary: s)
  case Nil
  then show ?case by simp
next
  case (Cons k ks)
  show ?case
  proof (cases "mget (r_listeners (get_r s p)) k")
    case None
    with Cons show ?thesis by simp
  next
    case (Some lo)
    with no_nil_listenerD [OF Cons.prems] obtain l where l: "lo = Some l" by (cases lo) auto
    obtain err s1 where sd: "send s (rmt l) (Some (Basic (Some l))) op d = (err, s1)" by fastforce
    obtain r where r:
      "relayLoop send rmt now op d cnt p (k # ks) s = relayLoop send rmt now op d cnt p ks (put_r s1 p r)"
      "r_listeners r = (if err = None then r_listeners (get_r s p) else mdel (r_listeners (get_r s p)) k)"
      using relayLoop_round [of s p k l rmt op d err s1] Some l sd by blast
    have "no_nil_listener (get_r (put_r s1 p r) p)"
      using Cons.prems r(2) by (auto simp: no_nil_listener_def)
    from Cons.IH [OF this] r(1) show ?thesis by simp
  qed
qed

lemma relayLoop_panics:
  "k \<in> set ks \<Longrightarrow> distinct ks \<Longrightarrow> mget (r_listeners (get_r s p)) k = Some None \<Longrightarrow>
     relayLoop send rmt now op d cnt p ks s = Panics"
proof (induction ks arbitrary: s)
  case Nil
  then show ?case by simp
next
  case (Cons k' ks)
  show ?case
  proof (cases "k' = k")
    case True
    with Cons.prems show ?thesis by simp
  next
    case False
    with Cons.prems have k: "k \<in> set ks" "distinct ks" by auto
    show ?thesis
    proof (cases "mget (r_listeners (get_r s p)) k'")
      case None
      with Cons.IH [OF k] Cons.prems show ?thesis by simp
    next
      case (Some lo)
      show ?thesis
      proof (cases lo)
        case None
        with Some show ?thesis by simp
      next
        case l: (Some l)
        obtain err s1 where sd: "send s (rmt l) (Some (Basic (Some l))) op d = (err, s1)" by fastforce
        obtain r where r:
          "relayLoop send rmt now op d cnt p (k' # ks) s = relayLoop send rmt now op d cnt p ks (put_r s1 p r)"
          "r_listeners r = (if err = None then r_listeners (get_r s p) else mdel (r_listeners (get_r s p)) k')"
          using relayLoop_round [of s p k' l rmt op d err s1] Some l sd by blast
        have "mget (r_listeners (get_r (put_r s1 p r) p)) k = Some None"
          using Cons.prems(3) r(2) False by auto
        from Cons.IH [OF k this] r(1) show ?thesis by simp
      qed
    qed
  qed
qed

lemma round_delivers:
  assumes "send s (remote l) (Some (Basic (Some l))) op d = (err, s1)" "ok s"
  shows "delivered (put_r s1 p r) = (if err = None then [(remote l, \<lparr>Op = op, Data = d\<rparr>)] else []) @ delivered s"
  using assms send_delivers [of s "remote l" l op d s1] send_fails [of s "remote l" "Some (Basic (Some l))" op d _ s1]
  by (cases err) (simp_all add: delivered_put)

lemma relayLoop_result:
  assumes "relayLoop send remote now op d cnt p ks s = Returns s'" "ok s" "distinct ks"
  shows "\<exists>f. delivered s' =
        rev (map (\<lambda>k. (remote (the (the (mget (r_listeners (get_r s p)) k))), \<lparr>Op = op, Data = d\<rparr>))
          (filter f ks)) @ delivered s
      \<and> (\<forall>k. mget (r_listeners (get_r s' p)) k =
            (if k \<in> set ks \<and> \<not> f k then None else mget (r_listeners (get_r s p)) k))
      \<and> (\<forall>k. f k \<longrightarrow> mget (r_listeners (get_r s p)) k \<noteq> None) \<and> ok s'"
    (is "\<exists>f. ?post f s s' ks")
  using assms
proof (induction ks arbitrary: s)
  case Nil
  then show ?case by (intro exI [of _ "\<lambda>_. False"]) simp
next
  case (Cons k ks)
  let ?L = "r_listeners (get_r s p)"
  show ?case
  proof (cases "mget ?L k")
    case None
    with Cons.prems Cons.IH [of s] obtain f where f: "?post f s s' ks" by auto
    with None have "\<not> f k" by blast
    with f None show ?thesis by (intro exI [of _ f]) auto
  next
    case (Some lo)
    with Cons.prems(1) obtain l where l: "lo = Some l" by (cases lo) auto
    obtain err s1 where sd: "send s (remote l) (Some (Basic (Some l))) op d = (err, s1)" by fastforce
    obtain r where r:
      "relayLoop send remote now op d cnt p (k # ks) s = relayLoop send remote now op d cnt p ks (put_r s1 p r)"
      "r_listeners r = (if err = None then ?L else mdel ?L k)"
      using relayLoop_round [of s p k l remote op d err s1] Some l sd by blast
    let ?s2 = "put_r s1 p r"
    have run: "relayLoop send remote now op d cnt p ks ?s2 = Returns s'"
      using Cons.prems(1) r(1) by simp
    have ok2: "ok ?s2"
      by (rule ok_put) (rule send_ok [OF sd Cons.prems(2)])
    from Cons.IH [OF run ok2] Cons.prems(3) obtain f where f: "?post f ?s2 s' ks" by auto
    have k: "k \<notin> set ks" using Cons.prems(3) by simp
    have L2: "mget (r_listeners (get_r ?s2 p)) k' = mget ?L k'" if "k' \<noteq> k" for k'
      using that r(2) by simp
    define f' where "f' = f(k := (err = None))"
    have eqm: "map (\<lambda>k. (remote (the (the (mget (r_listeners (get_r ?s2 p)) k))), \<lparr>Op = op, Data = d\<rparr>)) (filter f ks)
        = map (\<lambda>k. (remote (the (the (mget ?L k))), \<lparr>Op = op, Data = d\<rparr>)) (filter f ks)"
      using k L2 by (intro map_cong HOL.refl) (metis filter_is_subset subsetD)
    note d2 = round_delivers [OF sd Cons.prems(2), of p r]
    have f1: "delivered s' = rev (map (\<lambda>k. (remote (the (the (mget ?L k))), \<lparr>Op = op, Data = d\<rparr>))
        (filter f ks)) @ delivered ?s2"
      using f unfolding eqm by blast
    have f2: "filter f' (k # ks) = (if err = None then k # filter f ks else filter f ks)"
      unfolding f'_def by (rule filter_fun_upd [OF k])
    have "?post f' s s' (k # ks)"
    proof (intro conjI allI impI)
      show "delivered s' = rev (map (\<lambda>k. (remote (the (the (mget ?L k))), \<lparr>Op = op, Data = d\<rparr>))
          (filter f' (k # ks))) @ delivered s"
        unfolding f1 f2 d2 using Some l by simp
      fix k'
      show "mget (r_listeners (get_r s' p)) k' = (if k' \<in> set (k # ks) \<and> \<not> f' k' then None else mget ?L k')"
        using f k r(2) by (auto simp: f'_def)
      have "f k' \<Longrightarrow> mget (r_listeners (get_r ?s2 p)) k' \<noteq> None" using f by blast
      with L2 [of k'] Some show "f' k' \<Longrightarrow> mget ?L k' \<noteq> None"
        by (cases "k' = k") (simp_all add: f'_def)
    qed (use f in simp)
    then show ?thesis by (intro exI [of _ f'])
  qed
qed

lemma relayLoop_dataCount:
  "relayLoop send rmt now op d True p ks s = Returns s' \<Longrightarrow> distinct ks \<Longrightarrow>
     \<forall>k \<in> set ks. mget (r_listeners (get_r s p)) k \<noteq> None \<Longrightarrow>
     r_dataCount (get_r s' p) = r_dataCount (get_r s p) + of_nat (length ks)"
proof (induction ks arbitrary: s)
  case Nil
  then show ?case by simp
next
  case (Cons k ks)
  then obtain lo where Some: "mget (r_listeners (get_r s p)) k = Some lo" by auto
  with Cons.prems(1) obtain l where l: "lo = Some l" by (cases lo) auto
  obtain err s1 where sd: "send s (rmt l) (Some (Basic (Some l))) op d = (err, s1)" by fastforce
  obtain r where r:
    "relayLoop send rmt now op d True p (k # ks) s = relayLoop send rmt now op d True p ks (put_r s1 p r)"
    "r_listeners r = (if err = None then r_listeners (get_r s p) else mdel (r_listeners (get_r s p)) k)"
    "r_dataCount r = r_dataCount (get_r s p) + 1"
    using relayLoop_round [where cnt = True, of s p k l rmt op d err s1] Some l sd by auto
  have "\<forall>k' \<in> set ks. mget (r_listeners (get_r (put_r s1 p r) p)) k' \<noteq> None"
    using Cons.prems(2,3) r(2) by auto
  with Cons.IH [of "put_r s1 p r"] Cons.prems(1,2) r(1,3) show ?case by simp
qed

end

section \<open>Adding a listener and creating a relayer\<close>

lemma AddListener_frame: "rel_frame p s (AddListener env s p pid)"
proof (cases "mget (r_listeners (get_r s p)) (IDHexEncode env pid)")
  case None
  obtain st s1 where g: "GetOutStream env s pid = (st, s1)" by fastforce
  with None rel_frame_trans [OF rel_frame_io [OF GetOutStream_frame [OF g]] rel_frame_put]
  show ?thesis by (simp add: AddListener_def)
next
  case (Some l)
  then show ?thesis by (simp add: AddListener_def rel_frame_io)
qed

lemma AddListener_quiet [simp]:
  "sent_to env (hist (AddListener env s p pid)) = sent_to env (hist s)"
  by (auto simp: AddListener_def Let_def dest: GetOutStream_silent split: option.split prod.split)

lemma AddListener_ok: "streams_ok env s \<Longrightarrow> streams_ok env (AddListener env s p pid)"
  by (auto simp: AddListener_def Let_def dest: GetOutStream_ok split: option.split prod.split)

lemma AddListener_listeners:
  "mget (r_listeners (get_r (AddListener env s p pid) p)) k =
     (if k = IDHexEncode env pid \<and> mget (r_listeners (get_r s p)) k = None
      then Some (fst (GetOutStream env s pid)) else mget (r_listeners (get_r s p)) k)"
proof -
  obtain st s1 where g: "GetOutStream env s pid = (st, s1)" by fastforce
  have "get_r s1 p = get_r s p"
    by (rule io_frame_structs) (rule GetOutStream_frame [OF g])
  with g show ?thesis
    by (auto simp: AddListener_def Let_def split: option.splits)
qed

lemma AddListener_upstream [simp]:
  "r_UpstreamPeer (get_r (AddListener env s p pid) q) = r_UpstreamPeer (get_r s q)"
  by (auto simp: AddListener_def Let_def io_frame_structs(1) [OF GetOutStream_frame]
      split: option.split prod.split)

lemma AddListener_wf:
  "mwf (r_listeners (get_r s q)) \<Longrightarrow> mwf (r_listeners (get_r (AddListener env s p pid) q))"
  by (auto simp: AddListener_def Let_def io_frame_structs(1) [OF GetOutStream_frame]
      split: option.split prod.split)

lemmas AddListener_rel = rel_frameD [OF AddListener_frame]

section \<open>Properties\<close>

lemma range_keys:
  assumes "range_permutes env" "mwf m"
  shows "distinct (MapRange env h (mkeys m))" "set (MapRange env h (mkeys m)) = {k. mget m k \<noteq> None}"
  using assms by (simp_all add: range_distinct range_set mwf_def gm.keys_get)

lemma relay_result:
  assumes ok: "streams_ok env s" and rp: "range_permutes env"
    and wf: "mwf (r_listeners (get_r s p))" and nn: "no_nil_listener (get_r s p)"
  shows "\<exists>s' order. relay env op d cnt s p = Returns (None, s')
      \<and> distinct order \<and> set order = {k. mget (r_listeners (get_r s' p)) k \<noteq> None}
      \<and> (\<forall>k \<in> set order. mget (r_listeners (get_r s' p)) k = mget (r_listeners (get_r s p)) k)
      \<and> sent_to env (hist s') =
          map (\<lambda>k. (RemotePeer env (the (the (mget (r_listeners (get_r s p)) k))), \<lparr>Op = op, Data = d\<rparr>)) order
          @ sent_to env (hist s)
      \<and> streams_ok env s' \<and> rel_frame p s s'"
proof -
  let ?L = "r_listeners (get_r s p)"
  let ?ks = "MapRange env (hist s) (mkeys ?L)"
  obtain s' where run: "relayLoop (sendMessageWithRetry env) (RemotePeer env) (Now env) op d cnt p ?ks s = Returns s'"
    using tr.relayLoop_returns [OF nn] by blast
  note ks = range_keys [OF rp wf, of "hist s"]
  from tr.relayLoop_result [OF run ok ks(1)] obtain f where
    del: "sent_to env (hist s') = rev (map (\<lambda>k. (RemotePeer env (the (the (mget ?L k))), \<lparr>Op = op, Data = d\<rparr>))
          (filter f ?ks)) @ sent_to env (hist s)" and
    lis: "\<forall>k. mget (r_listeners (get_r s' p)) k = (if k \<in> set ?ks \<and> \<not> f k then None else mget ?L k)" and
    fin: "\<forall>k. f k \<longrightarrow> mget ?L k \<noteq> None" and ok': "streams_ok env s'" by blast
  let ?order = "rev (filter f ?ks)"
  have "set ?order = {k. mget (r_listeners (get_r s' p)) k \<noteq> None}"
    using lis fin ks(2) by auto
  moreover have "\<forall>k \<in> set ?order. mget (r_listeners (get_r s' p)) k = mget ?L k"
    using lis by auto
  moreover have "distinct ?order" using ks(1) by simp
  moreover have "relay env op d cnt s p = Returns (None, s')"
    using run by (simp add: relay_def)
  moreover have "sent_to env (hist s') =
      map (\<lambda>k. (RemotePeer env (the (the (mget ?L k))), \<lparr>Op = op, Data = d\<rparr>)) ?order @ sent_to env (hist s)"
    using del by (simp add: rev_map)
  ultimately show ?thesis
    using ok' tr.relayLoop_frame [OF run] by blast
qed

text \<open>
  Relaying a segment: when no listener is nil, \<^verbatim>\<open>RelayStreamData\<close> returns nil,
  the listeners that remain afterwards are listeners from before with their streams, and the
  messages that left the node are the segment, once to the peer of each listener that remains and
  to nobody else; the other listeners had a failing send and are gone.
\<close>

theorem relay_stream_data_reaches_listeners:
  assumes "streams_ok env s" and "range_permutes env"
    and "mwf (r_listeners (get_r s p))" and "no_nil_listener (get_r s p)"
  shows "\<exists>s' order. RelayStreamData env s p sd = Returns (None, s')
      \<and> distinct order \<and> set order = {k. mget (r_listeners (get_r s' p)) k \<noteq> None}
      \<and> (\<forall>k \<in> set order. mget (r_listeners (get_r s' p)) k = mget (r_listeners (get_r s p)) k)
      \<and> sent_to env (hist s') =
          map (\<lambda>k. (RemotePeer env (the (the (mget (r_listeners (get_r s p)) k))),
                \<lparr>Op = StreamDataID, Data = D_StreamData sd\<rparr>)) order
          @ sent_to env (hist s)"
  using relay_result [OF assms, of StreamDataID "D_StreamData sd" True]
  by (simp only: RelayStreamData_def) blast

definition demo_relay :: node where
  "demo_relay = AddListener demo_env (AddListener demo_env
     (snd (NewRelayer demo_node ''s'' SubReqID)) 0 pA) 0 pC"

lemma demo_relay_listeners [simp]:
  "r_listeners (get_r demo_relay 0) = [(pA, Some 1), (pC, Some 3)]"
  "outStreams demo_relay = [(pA, 1), (pC, 3)]"
  by (simp_all add: demo_relay_def demo_node_def new_relayer_simps AddListener_def Let_def
      GetOutStream_def RefreshOutStream_def mput_def)

lemma demo_relay_ok [simp]:
  "streams_ok demo_env demo_relay" "mwf (r_listeners (get_r demo_relay 0))"
  "no_nil_listener (get_r demo_relay 0)"
  by (simp_all add: streams_ok_def mwf_def mkeys_def no_nil_listener_def)

lemma relay_stream_data_reaches_listeners_witness:
  "\<exists>s' order. RelayStreamData demo_env demo_relay 0 \<lparr>sd_SeqNo = 1, sd_StrmID = ''s'', sd_Data = ''x''\<rparr>
        = Returns (None, s')
      \<and> set order = {k. mget (r_listeners (get_r s' 0)) k \<noteq> None}
      \<and> length (sent_to demo_env (hist s')) = length order + length (sent_to demo_env (hist demo_relay))"
  using relay_stream_data_reaches_listeners [OF demo_relay_ok(1) demo_range demo_relay_ok(2,3),
      of "\<lparr>sd_SeqNo = 1, sd_StrmID = ''s'', sd_Data = ''x''\<rparr>"]
  by (metis length_append length_map)

text \<open>
  A relayer into which \<^verbatim>\<open>AddListener\<close> stored a nil stream (the host could not
  open one) brings the node down at the next segment: the loop dereferences the nil pointer.
\<close>

theorem relay_nil_listener_panics:
  assumes "range_permutes env" and "mwf (r_listeners (get_r s p))"
    and "mget (r_listeners (get_r s p)) (IDHexEncode env pid) = None"
    and "GetOutStream env s pid = (None, s1)"
  shows "RelayStreamData env (AddListener env s p pid) p sd = Panics"
proof -
  let ?k = "IDHexEncode env pid"
  let ?s2 = "AddListener env s p pid"
  have g: "get_r s1 p = get_r s p"
    by (rule io_frame_structs) (rule GetOutStream_frame [OF assms(4)])
  have L: "r_listeners (get_r ?s2 p) = mput (r_listeners (get_r s p)) ?k None"
    using assms(3,4) by (simp add: AddListener_def Let_def g)
  have wf: "mwf (r_listeners (get_r ?s2 p))" using assms(2) L by simp
  note ks = range_keys [OF assms(1) wf, of "hist ?s2"]
  have "?k \<in> set (MapRange env (hist ?s2) (mkeys (r_listeners (get_r ?s2 p))))"
    using ks(2) L by simp
  then have "relayLoop (sendMessageWithRetry env) (RemotePeer env) (Now env) StreamDataID
      (D_StreamData sd) True p (MapRange env (hist ?s2) (mkeys (r_listeners (get_r ?s2 p)))) ?s2 = Panics"
    by (rule tr.relayLoop_panics [OF _ ks(1)]) (simp add: L)
  then show ?thesis by (simp add: RelayStreamData_def relay_def)
qed

lemma relay_nil_listener_panics_witness:
  "RelayStreamData demo_env (AddListener demo_env demo_relay 0 pD) 0
     \<lparr>sd_SeqNo = 1, sd_StrmID = ''s'', sd_Data = ''x''\<rparr> = Panics"
  by (rule relay_nil_listener_panics [where ?s1.0 = "log (E_NewStream pD None) demo_relay"])
    (simp_all add: GetOutStream_def RefreshOutStream_def)

text \<open>
  \<^verbatim>\<open>AddListener\<close> registers the peer under its hexadecimal id and leaves every
  other entry as it is; adding a peer that is registered already changes nothing, so a repeated
  subscription neither replaces the stream nor duplicates the listener.
\<close>

theorem add_listener_registers:
  "mget (r_listeners (get_r (AddListener env s p pid) p)) k =
     (if k = IDHexEncode env pid \<and> mget (r_listeners (get_r s p)) k = None
      then Some (fst (GetOutStream env s pid)) else mget (r_listeners (get_r s p)) k)
   \<and> AddListener env (AddListener env s p pid) p pid = AddListener env s p pid"
proof
  let ?s' = "AddListener env s p pid"
  have "mget (r_listeners (get_r ?s' p)) (IDHexEncode env pid) \<noteq> None"
    by (simp add: AddListener_listeners)
  then show "AddListener env ?s' p pid = ?s'"
    unfolding AddListener_def [of env ?s'] by auto
qed (rule AddListener_listeners)

text \<open>
  A relayer that has not relayed anything since \<^verbatim>\<open>NewRelayer\<close> made it is taken
  out of the map by the very first tick of its collector, ten seconds later, not after the
  sixty seconds of \<^verbatim>\<open>RelayGCTime\<close>: its time of last use is still the zero time. All
  that is assumed is a clock more than a minute after the zero time.
\<close>

theorem new_relayer_collected_at_first_tick:
  assumes "NewRelayer s strmID op = (p, s')" and "RelayGCTime < Now env (hist s')"
  shows "mget (relayers s') (relayerMapKey strmID op) = Some p
     \<and> fst (relayGCTick env p (relayerMapKey strmID op) s')
     \<and> mget (relayers (snd (relayGCTick env p (relayerMapKey strmID op) s'))) (relayerMapKey strmID op) = None"
proof -
  obtain q s1 where n: "new_r s zero_relayer = (q, s1)" by fastforce
  have "get_r s1 q = zero_relayer" using rel.rd_alloc [OF n] by simp
  with n assms show ?thesis
    by (auto simp: NewRelayer_def relayGCTick_def time_since_def RelayGCTime_def zero_relayer_def
        get_r_def)
qed

lemma new_relayer_collected_at_first_tick_witness:
  "fst (relayGCTick demo_env 0 (relayerMapKey ''s'' SubReqID) (snd (NewRelayer demo_node ''s'' SubReqID)))"
  using new_relayer_collected_at_first_tick [of demo_node "''s''" SubReqID 0
      "snd (NewRelayer demo_node ''s'' SubReqID)" demo_env]
  by (simp add: RelayGCTime_def demo_node_def NewRelayer_eq)

text \<open>
  The collector of a relayer deletes whatever is stored under its key. When the stream was
  finished and subscribed again meanwhile, the idle collector of the old relayer \<open>p\<close> removes the
  new one \<open>q\<close>, although \<open>q\<close> relayed a segment this very moment and its own collector keeps it.
\<close>

theorem collector_removes_successor:
  assumes "mget (relayers s) key = Some q"
    and "r_LastRelay (get_r s q) = Now env (hist s)"
    and "RelayGCTime < time_since (Now env (hist s)) (r_LastRelay (get_r s p))"
  shows "p \<noteq> q \<and> mget (relayers (snd (relayGCTick env q key s))) key = Some q
     \<and> mget (relayers (snd (relayGCTick env p key s))) key = None"
  using assms by (auto simp: relayGCTick_def time_since_def RelayGCTime_def)

definition demo_successor :: node where
  "demo_successor = (let s = snd (NewRelayer (snd (NewRelayer demo_node ''s'' SubReqID)) ''s'' SubReqID)
     in put_r s 1 ((get_r s 1)\<lparr>r_LastRelay := 200 * 1000000000\<rparr>))"

lemma collector_removes_successor_witness:
  "mget (relayers demo_successor) (relayerMapKey ''s'' SubReqID) = Some 1
   \<and> mget (relayers (snd (relayGCTick demo_env 0 (relayerMapKey ''s'' SubReqID) demo_successor)))
        (relayerMapKey ''s'' SubReqID) = None"
proof -
  have "mget (relayers demo_successor) (relayerMapKey ''s'' SubReqID) = Some 1"
    "r_LastRelay (get_r demo_successor 1) = 200 * 1000000000" "r_LastRelay (get_r demo_successor 0) = 0"
    by (simp_all add: demo_successor_def demo_node_def new_relayer_simps Let_def)
  with collector_removes_successor [of demo_successor "relayerMapKey ''s'' SubReqID" 1 demo_env 0]
  show ?thesis by (simp add: RelayGCTime_def time_since_def)
qed

end
