(* ===== verification/Broadcaster.thy ===== *)
theory Broadcaster
  imports Relayer
begin

text \<open>
  The broadcaster (\<^verbatim>\<open>basic_broadcaster.go\<close>): the source of a stream, with its window of
  the latest segments, its listeners and its worker goroutine.
\<close>

section \<open>Operations\<close>

definition DefaultBroadcasterBufferSize :: nat where
  "DefaultBroadcasterBufferSize = 3"

definition GetBroadcaster :: "node \<Rightarrow> string \<Rightarrow> ptr \<times> node" where
  "GetBroadcaster s strmID =
     (case mget (broadcasters s) strmID of
        Some b \<Rightarrow> (b, s)
      | None \<Rightarrow>
          (case new_b s \<lparr>b_StrmID = strmID,
                         b_lastMsgs = replicate DefaultBroadcasterBufferSize None, b_q = [],
                         b_listeners = [], b_working = False, b_cancelWorker = None\<rparr> of
             (p, s1) \<Rightarrow>
               (p, log (E_LogBroadcaster strmID) (s1\<lparr>broadcasters := mput (broadcasters s1) strmID p\<rparr>))))"

definition SetBroadcaster :: "node \<Rightarrow> string \<Rightarrow> ptr \<Rightarrow> node" where
  "SetBroadcaster s strmID p = s\<lparr>broadcasters := mput (broadcasters s) strmID p\<rparr>"

text \<open>
  \<^verbatim>\<open>Broadcast\<close> up to its send: the worker is started by the first call, the window moves
  by one segment, and the segment waits at the channel. The call returns when the worker has
  taken its segment.
\<close>

definition startBroadcastWorker :: "node \<Rightarrow> ptr \<Rightarrow> node" where
  "startBroadcastWorker s p =
     (if b_working (get_b s p) then s
      else (case with_cancel s of
              (c, s1) \<Rightarrow>
                let s2 = put_b s1 p ((get_b s1 p)\<lparr>b_cancelWorker := Some c\<rparr>);
                    s3 = spawn (GO_Broadcast p c) s2
                in put_b s3 p ((get_b s3 p)\<lparr>b_working := True\<rparr>)))"

definition Broadcast :: "node \<Rightarrow> ptr \<Rightarrow> uint64 \<Rightarrow> bytes \<Rightarrow> node" where
  "Broadcast s p seqNo dat =
     (let s1 = startBroadcastWorker s p;
          latest = \<lparr>sd_SeqNo = seqNo, sd_StrmID = [], sd_Data = dat\<rparr>;
          s2 = put_b s1 p ((get_b s1 p)\<lparr>b_lastMsgs := b_lastMsgs (get_b s1 p) @ [Some latest]\<rparr>);
          s3 = put_b s2 p ((get_b s2 p)\<lparr>b_lastMsgs := tl (b_lastMsgs (get_b s2 p))\<rparr>)
      in put_b s3 p ((get_b s3 p)\<lparr>b_q := b_q (get_b s3 p) @ [latest]\<rparr>))"

definition AddListeningPeer :: "env \<Rightarrow> node \<Rightarrow> ptr \<Rightarrow> peerID \<Rightarrow> node" where
  "AddListeningPeer env s p pid =
     (let key = IDHexEncode env pid in
      case mget (b_listeners (get_b s p)) key of
        Some _ \<Rightarrow> s
      | None \<Rightarrow>
          (case GetOutStream env s pid of
             (strm, s1) \<Rightarrow>
               put_b s1 p ((get_b s1 p)\<lparr>b_listeners := mput (b_listeners (get_b s1 p)) key (Basic strm)\<rparr>)))"

definition AddListeningStream :: "node \<Rightarrow> ptr \<Rightarrow> string \<Rightarrow> OutStream \<Rightarrow> node" where
  "AddListeningStream s p key os =
     (case mget (b_listeners (get_b s p)) key of
        Some _ \<Rightarrow> s
      | None \<Rightarrow> put_b s p ((get_b s p)\<lparr>b_listeners := mput (b_listeners (get_b s p)) key os\<rparr>))"

type_synonym sender =
  "node \<Rightarrow> peerID \<Rightarrow> OutStream option \<Rightarrow> Opcode \<Rightarrow> gdata \<Rightarrow> go_error option \<times> node"

definition stream_msg :: "BasicBroadcaster \<Rightarrow> StreamDataMsg \<Rightarrow> StreamDataMsg" where
  "stream_msg b m = \<lparr>sd_SeqNo = sd_SeqNo m, sd_StrmID = b_StrmID b, sd_Data = sd_Data m\<rparr>"

definition sendDataMsgWith ::
  "sender \<Rightarrow> (OutStream \<Rightarrow> peerID) \<Rightarrow> node \<Rightarrow> ptr \<Rightarrow> string \<Rightarrow> OutStream \<Rightarrow> StreamDataMsg option \<Rightarrow> node" where
  "sendDataMsgWith send rmt s p lid l msg =
     (case msg of
        None \<Rightarrow> s
      | Some m \<Rightarrow>
          (case send s (rmt l) (Some l) StreamDataID (D_StreamData (stream_msg (get_b s p) m)) of
             (None, s1) \<Rightarrow> s1
           | (Some _, s1) \<Rightarrow>
               put_b s1 p ((get_b s1 p)\<lparr>b_listeners := mdel (b_listeners (get_b s1 p)) lid\<rparr>)))"

definition sendDataMsg :: "env \<Rightarrow> node \<Rightarrow> ptr \<Rightarrow> string \<Rightarrow> OutStream \<Rightarrow> StreamDataMsg option \<Rightarrow> node" where
  "sendDataMsg env = sendDataMsgWith (sendMessageWithRetry env) (GetRemotePeer env)"

fun broadcastLoop ::
  "sender \<Rightarrow> (OutStream \<Rightarrow> peerID) \<Rightarrow> ptr \<Rightarrow> StreamDataMsg \<Rightarrow> string list \<Rightarrow> node \<Rightarrow> node" where
  "broadcastLoop send rmt p msg [] s = s"
| "broadcastLoop send rmt p msg (k # ks) s =
     (case mget (b_listeners (get_b s p)) k of
        None \<Rightarrow> broadcastLoop send rmt p msg ks s
      | Some l \<Rightarrow> broadcastLoop send rmt p msg ks (sendDataMsgWith send rmt s p k l (Some msg)))"

text \<open>
  One iteration of the worker \<^verbatim>\<open>broadcastToListeners\<close>. When both a segment and the
  cancellation are ready, \<^verbatim>\<open>select\<close> takes either, so the two branches are two
  functions; each is \<open>None\<close> when its case is not ready.
\<close>

definition broadcastSegment :: "env \<Rightarrow> ptr \<Rightarrow> node \<Rightarrow> node option" where
  "broadcastSegment env p s =
     (case b_q (get_b s p) of
        [] \<Rightarrow> None
      | msg # rest \<Rightarrow>
          let s1 = put_b s p ((get_b s p)\<lparr>b_q := rest\<rparr>)
          in Some (broadcastLoop (sendMessageWithRetry env) (GetRemotePeer env) p msg
                     (MapRange env (hist s1) (mkeys (b_listeners (get_b s1 p)))) s1))"

definition broadcastDone :: "ptr \<Rightarrow> ptr \<Rightarrow> node \<Rightarrow> node option" where
  "broadcastDone p c s =
     (if cancelled s c then Some (s\<lparr>gos := remove1 (GO_Broadcast p c) (gos s)\<rparr>) else None)"

fun finishLoop :: "env \<Rightarrow> ptr \<Rightarrow> string list \<Rightarrow> node \<Rightarrow> node" where
  "finishLoop env p [] s = s"
| "finishLoop env p (k # ks) s =
     (case mget (b_listeners (get_b s p)) k of
        None \<Rightarrow> finishLoop env p ks s
      | Some l \<Rightarrow>
          finishLoop env p ks
            (snd (sendMessageWithRetry env s (GetRemotePeer env l) (Some l) FinishStreamID
                    (D_FinishStream \<lparr>fs_StrmID = b_StrmID (get_b s p)\<rparr>))))"

definition Finish :: "env \<Rightarrow> node \<Rightarrow> ptr \<Rightarrow> go_error option \<times> node" where
  "Finish env s p =
     (let s1 = cancel_opt (b_cancelWorker (get_b s p)) s;
          s2 = finishLoop env p (MapRange env (hist s1) (mkeys (b_listeners (get_b s1 p)))) s1
      in (None, s2\<lparr>broadcasters := mdel (broadcasters s2) (b_StrmID (get_b s2 p))\<rparr>))"

definition BroadcasterIsLive :: "node \<Rightarrow> ptr \<Rightarrow> bool" where
  "BroadcasterIsLive s p = b_working (get_b s p)"

section \<open>The window of latest segments\<close>

lemma get_b_with_cancel: "with_cancel s = (c, s1) \<Longrightarrow> get_b s1 p = get_b s p"
  by (auto simp: with_cancel_def Let_def get_b_def split: prod.split_asm)

lemma startBroadcastWorker_b:
  "get_b (startBroadcastWorker s p) q =
     (if q = p \<and> \<not> b_working (get_b s p)
      then (get_b s p)\<lparr>b_cancelWorker := Some (fst (with_cancel s)), b_working := True\<rparr> else get_b s q)"
  by (auto simp: startBroadcastWorker_def Let_def get_b_with_cancel split: prod.split)

lemma Broadcast_lastMsgs:
  "b_lastMsgs (get_b (Broadcast s p n d) p) =
     tl (b_lastMsgs (get_b s p) @ [Some \<lparr>sd_SeqNo = n, sd_StrmID = [], sd_Data = d\<rparr>])"
  by (simp add: Broadcast_def Let_def startBroadcastWorker_b)

lemma tl_append_drop: "tl (xs @ [y]) = drop 1 (xs @ [y])"
  by (cases xs) simp_all

text \<open>
  C34. The window of a broadcaster holds exactly the latest segments: after any sequence of calls
  of \<^verbatim>\<open>Broadcast\<close> it is the old window followed by the new segments, cut at the front by
  as many entries as were added; so its size never changes, and a window of three holds the last
  three segments.
\<close>

theorem broadcast_window:
  "b_lastMsgs (get_b (fold (\<lambda>(n, d) s. Broadcast s p n d) ms s) p) =
     drop (length ms) (b_lastMsgs (get_b s p)
       @ map (\<lambda>(n, d). Some \<lparr>sd_SeqNo = n, sd_StrmID = [], sd_Data = d\<rparr>) ms)
   \<and> length (b_lastMsgs (get_b (fold (\<lambda>(n, d) s. Broadcast s p n d) ms s) p))
       = length (b_lastMsgs (get_b s p))"
proof -
  have "b_lastMsgs (get_b (fold (\<lambda>(n, d) s. Broadcast s p n d) ms s) p) =
     drop (length ms) (b_lastMsgs (get_b s p)
       @ map (\<lambda>(n, d). Some \<lparr>sd_SeqNo = n, sd_StrmID = [], sd_Data = d\<rparr>) ms)"
  proof (induction ms arbitrary: s)
    case Nil
    then show ?case by simp
  next
    case (Cons m ms)
    obtain n d where m: "m = (n, d)" by fastforce
    show ?case
      unfolding m fold_Cons comp_def case_prod_conv Cons.IH Broadcast_lastMsgs tl_append_drop
      by (cases "b_lastMsgs (get_b s p)") simp_all
  qed
  then show ?thesis by simp
qed

section \<open>Broadcasting a segment\<close>

text \<open>The peer or the local subscriber that a listener stands for.\<close>

fun remote_of :: "(strmh \<Rightarrow> peerID) \<Rightarrow> OutStream option \<Rightarrow> peerID list" where
  "remote_of r (Some (Basic (Some sh))) = [r sh]"
| "remote_of r _ = []"

fun local_of :: "OutStream option \<Rightarrow> ptr list" where
  "local_of (Some (Local q)) = [q]"
| "local_of _ = []"

definition no_nil_stream :: "BasicBroadcaster \<Rightarrow> bool" where
  "no_nil_stream b \<longleftrightarrow> (\<forall>k. mget (b_listeners b) k \<noteq> Some (Basic None))"

context transport
begin

text \<open>One send of the loop: the listener stays exactly when the send succeeded.\<close>

lemma sendDataMsg_step:
  assumes "ok s" and L: "mget (b_listeners (get_b s p)) k = Some l" and nn: "l \<noteq> Basic None"
    and rmt: "\<And>sh. rmt (Basic (Some sh)) = remote sh"
    and s1: "s1 = sendDataMsgWith send rmt s p k l (Some m)"
  shows "\<exists>good. (\<forall>k'. mget (b_listeners (get_b s1 p)) k' =
            (if k' = k \<and> \<not> good then None else mget (b_listeners (get_b s p)) k'))
      \<and> delivered s1 = (if good then map (\<lambda>q. (q, \<lparr>Op = StreamDataID, Data = D_StreamData (stream_msg (get_b s p) m)\<rparr>))
            (remote_of remote (Some l)) else []) @ delivered s
      \<and> gos s1 = gos s @ (if good then map (\<lambda>q. GO_Insert q (stream_msg (get_b s p) m)) (local_of (Some l)) else [])
      \<and> b_StrmID (get_b s1 p) = b_StrmID (get_b s p) \<and> ok s1"
proof (cases l)
  case (Local q)
  then have "s1 = spawn (GO_Insert q (stream_msg (get_b s p) m)) s"
    using s1 by (simp add: sendDataMsgWith_def send_local)
  with Local assms(1) show ?thesis
    by (intro exI [of _ True]) (simp add: ok_spawn delivered_spawn)
next
  case (Basic bs)
  with nn obtain sh where sh: "bs = Some sh" by (cases bs) auto
  obtain e s2 where sd: "send s (remote sh) (Some (Basic (Some sh))) StreamDataID
      (D_StreamData (stream_msg (get_b s p) m)) = (e, s2)" by fastforce
  have g: "get_b s2 p = get_b s p" by (rule io_frame_structs) (rule send_frame [OF sd])
  note facts = send_ok [OF sd assms(1)] send_gos [OF sd]
  show ?thesis
  proof (cases e)
    case None
    then have "s1 = s2" using s1 Basic sh rmt sd by (simp add: sendDataMsgWith_def)
    moreover have "delivered s2 = (remote sh, \<lparr>Op = StreamDataID,
        Data = D_StreamData (stream_msg (get_b s p) m)\<rparr>) # delivered s"
      using send_delivers [of s "remote sh" sh] sd None assms(1) by blast
    ultimately show ?thesis
      using facts g Basic sh by (intro exI [of _ True]) simp
  next
    case (Some err)
    then have "s1 = put_b s2 p ((get_b s2 p)\<lparr>b_listeners := mdel (b_listeners (get_b s2 p)) k\<rparr>)"
      using s1 Basic sh rmt sd by (simp add: sendDataMsgWith_def)
    moreover have "delivered s2 = delivered s"
      using send_fails [of s "remote sh"] sd Some by blast
    ultimately show ?thesis
      using facts g by (intro exI [of _ False]) (simp add: ok_put_b delivered_put_b)
  qed
qed

lemma broadcastLoop_result:
  assumes "ok s" "distinct ks" "no_nil_stream (get_b s p)"
    and rmt: "\<And>sh. rmt (Basic (Some sh)) = remote sh"
  shows "\<exists>f. (\<forall>k. mget (b_listeners (get_b (broadcastLoop send rmt p m ks s) p)) k =
            (if k \<in> set ks \<and> \<not> f k then None else mget (b_listeners (get_b s p)) k))
      \<and> delivered (broadcastLoop send rmt p m ks s) =
          rev (map (\<lambda>q. (q, \<lparr>Op = StreamDataID, Data = D_StreamData (stream_msg (get_b s p) m)\<rparr>))
            (concat (map (\<lambda>k. remote_of remote (mget (b_listeners (get_b s p)) k)) (filter f ks)))) @ delivered s
      \<and> gos (broadcastLoop send rmt p m ks s) =
          gos s @ map (\<lambda>q. GO_Insert q (stream_msg (get_b s p) m))
            (concat (map (\<lambda>k. local_of (mget (b_listeners (get_b s p)) k)) (filter f ks)))
      \<and> ok (broadcastLoop send rmt p m ks s)"
    (is "\<exists>f. ?post f s ks")
  using assms(1-3)
proof (induction ks arbitrary: s)
  case Nil
  then show ?case by (intro exI [of _ "\<lambda>_. False"]) simp
next
  case (Cons k ks)
  let ?L = "b_listeners (get_b s p)"
  show ?case
  proof (cases "mget ?L k")
    case None
    with Cons.prems Cons.IH [of s] obtain f where "?post f s ks" by auto
    with None show ?thesis by (intro exI [of _ f]) auto
  next
    case (Some l)
    define s1 where "s1 = sendDataMsgWith send rmt s p k l (Some m)"
    have run: "broadcastLoop send rmt p m (k # ks) s = broadcastLoop send rmt p m ks s1"
      using Some by (simp add: s1_def)
    have "l \<noteq> Basic None" using Cons.prems(3) Some by (auto simp: no_nil_stream_def)
    from sendDataMsg_step [OF Cons.prems(1) Some this rmt s1_def] obtain good where
      L1: "\<And>k'. mget (b_listeners (get_b s1 p)) k' = (if k' = k \<and> \<not> good then None else mget ?L k')"
      and d1: "delivered s1 = (if good then map (\<lambda>q. (q, \<lparr>Op = StreamDataID,
            Data = D_StreamData (stream_msg (get_b s p) m)\<rparr>)) (remote_of remote (Some l)) else []) @ delivered s"
      and g1: "gos s1 = gos s @ (if good then map (\<lambda>q. GO_Insert q (stream_msg (get_b s p) m))
            (local_of (Some l)) else [])"
      and b1: "b_StrmID (get_b s1 p) = b_StrmID (get_b s p)" and ok1: "ok s1" by metis
    have "no_nil_stream (get_b s1 p)" using Cons.prems(3) L1 by (auto simp: no_nil_stream_def)
    with Cons.IH [OF ok1] Cons.prems(2) obtain f where f: "?post f s1 ks" by auto
    have sm: "stream_msg (get_b s1 p) m = stream_msg (get_b s p) m" using b1 by (simp add: stream_msg_def)
    have k: "k \<notin> set ks" using Cons.prems(2) by simp
    define f' where "f' = f(k := good)"
    have f2: "filter f' (k # ks) = (if good then k # filter f ks else filter f ks)"
      unfolding f'_def by (rule filter_fun_upd [OF k])
    have m1: "map (\<lambda>k. remote_of remote (mget (b_listeners (get_b s1 p)) k)) (filter f ks)
        = map (\<lambda>k. remote_of remote (mget ?L k)) (filter f ks)"
      and m2: "map (\<lambda>k. local_of (mget (b_listeners (get_b s1 p)) k)) (filter f ks)
        = map (\<lambda>k. local_of (mget ?L k)) (filter f ks)"
      using k L1 by auto
    have rr: "rev (map h (remote_of remote (Some l))) = map h (remote_of remote (Some l))"
      for h :: "peerID \<Rightarrow> peerID \<times> Msg"
      by (cases "(remote, Some l)" rule: remote_of.cases) auto
    from f have fl: "\<And>k'. mget (b_listeners (get_b (broadcastLoop send rmt p m ks s1) p)) k' =
          (if k' \<in> set ks \<and> \<not> f k' then None else mget (b_listeners (get_b s1 p)) k')"
      and fd: "delivered (broadcastLoop send rmt p m ks s1) =
          rev (map (\<lambda>q. (q, \<lparr>Op = StreamDataID, Data = D_StreamData (stream_msg (get_b s p) m)\<rparr>))
            (concat (map (\<lambda>k. remote_of remote (mget ?L k)) (filter f ks)))) @ delivered s1"
      and fg: "gos (broadcastLoop send rmt p m ks s1) =
          gos s1 @ map (\<lambda>q. GO_Insert q (stream_msg (get_b s p) m))
            (concat (map (\<lambda>k. local_of (mget ?L k)) (filter f ks)))"
      and fo: "ok (broadcastLoop send rmt p m ks s1)"
      unfolding m1 m2 sm by blast+
    have "?post f' s (k # ks)"
    proof (intro conjI allI)
      show "mget (b_listeners (get_b (broadcastLoop send rmt p m (k # ks) s) p)) k' =
          (if k' \<in> set (k # ks) \<and> \<not> f' k' then None else mget ?L k')" for k'
        unfolding run fl L1 using k by (auto simp: f'_def)
      show "delivered (broadcastLoop send rmt p m (k # ks) s) =
          rev (map (\<lambda>q. (q, \<lparr>Op = StreamDataID, Data = D_StreamData (stream_msg (get_b s p) m)\<rparr>))
            (concat (map (\<lambda>k. remote_of remote (mget ?L k)) (filter f' (k # ks))))) @ delivered s"
        unfolding run fd d1 f2 by (simp add: Some rr)
      show "gos (broadcastLoop send rmt p m (k # ks) s) =
          gos s @ map (\<lambda>q. GO_Insert q (stream_msg (get_b s p) m))
            (concat (map (\<lambda>k. local_of (mget ?L k)) (filter f' (k # ks))))"
        unfolding run fg g1 f2 by (simp add: Some)
      show "ok (broadcastLoop send rmt p m (k # ks) s)"
        unfolding run by (rule fo)
    qed
    then show ?thesis by (intro exI [of _ f'])
  qed
qed

end

lemma rev_concat_short:
  "(\<And>x. rev (h x) = h x) \<Longrightarrow> rev (concat (map h xs)) = concat (map h (rev xs))"
  by (induction xs) simp_all

lemma rev_remote_of: "rev (remote_of r l) = remote_of r l"
  by (cases "(r, l)" rule: remote_of.cases) auto

lemma broadcast_result:
  assumes "streams_ok env s" and "range_permutes env"
    and "mwf (b_listeners (get_b s p))" and "no_nil_stream (get_b s p)"
    and "b_q (get_b s p) = msg # rest"
  shows "\<exists>s' order. broadcastSegment env p s = Some s'
      \<and> distinct order \<and> set order = {k. mget (b_listeners (get_b s' p)) k \<noteq> None}
      \<and> (\<forall>k \<in> set order. mget (b_listeners (get_b s' p)) k = mget (b_listeners (get_b s p)) k)
      \<and> sent_to env (hist s') =
          map (\<lambda>q. (q, \<lparr>Op = StreamDataID, Data = D_StreamData (stream_msg (get_b s p) msg)\<rparr>))
            (concat (map (\<lambda>k. remote_of (RemotePeer env) (mget (b_listeners (get_b s p)) k)) order))
          @ sent_to env (hist s)
      \<and> gos s' = gos s @ map (\<lambda>q. GO_Insert q (stream_msg (get_b s p) msg))
            (concat (map (\<lambda>k. local_of (mget (b_listeners (get_b s p)) k)) (rev order)))"
proof -
  let ?b = "get_b s p" and ?s1 = "put_b s p ((get_b s p)\<lparr>b_q := rest\<rparr>)"
  let ?L = "b_listeners ?b"
  let ?ks = "MapRange env (hist ?s1) (mkeys (b_listeners (get_b ?s1 p)))"
  let ?s' = "broadcastLoop (sendMessageWithRetry env) (GetRemotePeer env) p msg ?ks ?s1"
  have L: "b_listeners (get_b ?s1 p) = ?L" by simp
  have sm: "stream_msg (get_b ?s1 p) msg = stream_msg ?b msg" by (simp add: stream_msg_def)
  have ks: "distinct ?ks" "set ?ks = {k. mget ?L k \<noteq> None}"
    using range_keys [OF assms(2,3), of "hist ?s1"] by simp_all
  have nn: "no_nil_stream (get_b ?s1 p)" and ok: "streams_ok env ?s1"
    using assms(1,4) by (simp_all add: no_nil_stream_def)
  have rmt: "GetRemotePeer env (Basic (Some sh)) = RemotePeer env sh" for sh
    by (simp add: GetRemotePeer_def)
  from tr.broadcastLoop_result [OF ok ks(1) nn rmt, of msg] obtain f where
    lis: "\<forall>k. mget (b_listeners (get_b ?s' p)) k = (if k \<in> set ?ks \<and> \<not> f k then None else mget ?L k)" and
    del: "sent_to env (hist ?s') = rev (map (\<lambda>q. (q, \<lparr>Op = StreamDataID, Data = D_StreamData (stream_msg ?b msg)\<rparr>))
        (concat (map (\<lambda>k. remote_of (RemotePeer env) (mget ?L k)) (filter f ?ks)))) @ sent_to env (hist ?s1)" and
    go: "gos ?s' = gos ?s1 @ map (\<lambda>q. GO_Insert q (stream_msg ?b msg))
        (concat (map (\<lambda>k. local_of (mget ?L k)) (filter f ?ks)))"
    unfolding sm L by blast
  let ?order = "rev (filter f ?ks)"
  have "broadcastSegment env p s = Some ?s'"
    using assms(5) by (simp add: broadcastSegment_def Let_def)
  moreover have "distinct ?order" using ks(1) by simp
  moreover have "set ?order = {k. mget (b_listeners (get_b ?s' p)) k \<noteq> None}"
    using lis ks(2) by auto
  moreover have "\<forall>k \<in> set ?order. mget (b_listeners (get_b ?s' p)) k = mget ?L k"
    using lis by auto
  moreover have "sent_to env (hist ?s') = map (\<lambda>q. (q, \<lparr>Op = StreamDataID, Data = D_StreamData (stream_msg ?b msg)\<rparr>))
      (concat (map (\<lambda>k. remote_of (RemotePeer env) (mget ?L k)) ?order)) @ sent_to env (hist s)"
    using del by (simp add: rev_map rev_concat_short [OF rev_remote_of])
  moreover have "gos ?s' = gos s @ map (\<lambda>q. GO_Insert q (stream_msg ?b msg))
      (concat (map (\<lambda>k. local_of (mget ?L k)) (rev ?order)))"
    using go by simp
  ultimately show ?thesis by blast
qed


definition demo_bcast :: node where
  "demo_bcast = (let s = snd (GetBroadcaster demo_node ''s'');
                     s1 = AddListeningStream (AddListeningPeer demo_env s 0 pA) 0 ''localSub'' (Local 0)
                 in Broadcast s1 0 1 ''x'')"

lemma GetBroadcaster_new:
  assumes "mget (broadcasters s) strmID = None"
  shows "fst (GetBroadcaster s strmID) = fresh (bstore s)"
    "get_b (snd (GetBroadcaster s strmID)) q =
       (if q = fresh (bstore s) then \<lparr>b_StrmID = strmID, b_lastMsgs = replicate DefaultBroadcasterBufferSize None,
          b_q = [], b_listeners = [], b_working = False, b_cancelWorker = None\<rparr> else get_b s q)"
    "outStreams (snd (GetBroadcaster s strmID)) = outStreams s"
    "identity (snd (GetBroadcaster s strmID)) = identity s"
    "relayers (snd (GetBroadcaster s strmID)) = relayers s"
    "broadcasters (snd (GetBroadcaster s strmID)) = mput (broadcasters s) strmID (fresh (bstore s))"
  using assms by (simp_all add: GetBroadcaster_def new_b_def snew_def Let_def get_b_def sget_def log_def)

lemma demo_bcast_b [simp]:
  "b_listeners (get_b demo_bcast 0) = [(pA, Basic (Some 1)), (''localSub'', Local 0)]"
  "b_q (get_b demo_bcast 0) = [\<lparr>sd_SeqNo = 1, sd_StrmID = [], sd_Data = ''x''\<rparr>]"
  "outStreams demo_bcast = [(pA, 1)]"
  by (simp_all add: demo_bcast_def Let_def Broadcast_def startBroadcastWorker_def with_cancel_def
      snew_def GetBroadcaster_new demo_node_def AddListeningPeer_def AddListeningStream_def
      GetOutStream_def RefreshOutStream_def mput_def)

lemma demo_bcast_ok:
  "streams_ok demo_env demo_bcast" "mwf (b_listeners (get_b demo_bcast 0))"
  "no_nil_stream (get_b demo_bcast 0)"
  by (auto simp: streams_ok_def no_nil_stream_def)


section \<open>Finishing a stream\<close>

lemma finish_step:
  assumes "sendMessageWithRetry env s (GetRemotePeer env l) (Some l) FinishStreamID d = (e, s')"
  shows "gos s' = gos s"
proof (cases l)
  case (Basic bs)
  with assms show ?thesis by (auto dest: retry_gos)
next
  case (Local q)
  with assms show ?thesis
    by (auto simp: sendMessageWithRetry_def SendMessage_def [of _ _ "Local q"] LocalSendMessage_def
        opcode_defs dest!: SendMessage_gos RefreshOutStream_gos split: prod.split_asm)
qed

lemma finishLoop_frame: "io_frame s (finishLoop env p ks s) \<and> gos (finishLoop env p ks s) = gos s"
proof (induction ks arbitrary: s)
  case Nil
  then show ?case by simp
next
  case (Cons k ks)
  show ?case
  proof (cases "mget (b_listeners (get_b s p)) k")
    case None
    with Cons show ?thesis by simp
  next
    case (Some l)
    obtain e s1 where sd: "sendMessageWithRetry env s (GetRemotePeer env l) (Some l) FinishStreamID
        (D_FinishStream \<lparr>fs_StrmID = b_StrmID (get_b s p)\<rparr>) = (e, s1)" by fastforce
    from Cons.IH [of s1] io_frame_trans [OF retry_frame [OF sd]] finish_step [OF sd] Some sd
    show ?thesis by simp
  qed
qed

text \<open>
  \<^verbatim>\<open>Finish\<close> cancels the worker, takes the stream out of the map of broadcasters and
  keeps the other streams. A subscriber of the same node is never told: no subscriber changes and
  no goroutine is started for one, so its \<^verbatim>\<open>gotData\<close> sees no end of the stream, while the
  remote listeners are sent \<^verbatim>\<open>FinishStream\<close>.
\<close>

theorem finish_ends_stream_but_not_local_subscriber:
  assumes "Finish env s p = (e, s')"
  shows "e = None
     \<and> (\<forall>k. mget (broadcasters s') k = (if k = b_StrmID (get_b s p) then None else mget (broadcasters s) k))
     \<and> (\<forall>c. b_cancelWorker (get_b s p) = Some c \<longrightarrow> cancelled s' c)
     \<and> sstore s' = sstore s \<and> subscribers s' = subscribers s \<and> gos s' = gos s"
proof -
  let ?s1 = "cancel_opt (b_cancelWorker (get_b s p)) s"
  let ?s2 = "finishLoop env p (MapRange env (hist ?s1) (mkeys (b_listeners (get_b ?s1 p)))) ?s1"
  have fr: "io_frame ?s1 ?s2" "gos ?s2 = gos ?s1" by (simp_all add: finishLoop_frame)
  have s1: "broadcasters ?s1 = broadcasters s" "sstore ?s1 = sstore s" "gos ?s1 = gos s"
    "subscribers ?s1 = subscribers s" "get_b ?s1 q = get_b s q" for q
    by (simp_all add: cancel_opt_def cancel_def get_b_def split: option.split)
  have "cancelled ?s1 c" if "b_cancelWorker (get_b s p) = Some c" for c
    using that by (simp add: cancel_opt_def cancel_def cancelled_def)
  with assms fr(2) s1 io_frameD [OF fr(1)] io_frame_structs [OF fr(1)] show ?thesis
    by (auto simp: Finish_def Let_def cancelled_def)
qed

lemma finish_ends_stream_but_not_local_subscriber_witness:
  "mget (broadcasters (snd (Finish demo_env demo_bcast 0))) (b_StrmID (get_b demo_bcast 0)) = None
   \<and> gos (snd (Finish demo_env demo_bcast 0)) = gos demo_bcast"
  using finish_ends_stream_but_not_local_subscriber
    [of demo_env demo_bcast 0 "fst (Finish demo_env demo_bcast 0)" "snd (Finish demo_env demo_bcast 0)"]
  by simp

end
