(* ===== verification/Subscriber.thy ===== *)
theory Subscriber
  imports Broadcaster
begin

text \<open>
  The subscriber (\<^verbatim>\<open>basic_subscriber.go\<close>): subscribing locally or through the network,
  the worker that hands segments to the client, the insertions that feed it, the retransmission
  of a transcoder's subscription and the switch to a direct connection. The client's
  \<^verbatim>\<open>gotData\<close> is an external action \<open>E_GotData\<close>.
\<close>

section \<open>Subscribers of a node\<close>

definition GetSubscriber :: "node \<Rightarrow> string \<Rightarrow> ptr \<times> node" where
  "GetSubscriber s strmID =
     (case mget (subscribers s) strmID of
        Some p \<Rightarrow> (p, s)
      | None \<Rightarrow>
          (case new_s s \<lparr>s_StrmID = strmID, s_UpstreamPeer = [], s_working = False,
                         s_subAttempts = 0, s_subResponded = None, s_cancelWorker = None\<rparr> of
             (p, s1) \<Rightarrow>
               (p, log (E_LogSub strmID) (s1\<lparr>subscribers := mput (subscribers s1) strmID p\<rparr>))))"

definition SetSubscriber :: "node \<Rightarrow> string \<Rightarrow> ptr \<Rightarrow> node" where
  "SetSubscriber s strmID p = s\<lparr>subscribers := mput (subscribers s) strmID p\<rparr>"

definition getSubscriber :: "node \<Rightarrow> string \<Rightarrow> ptr option" where
  "getSubscriber s strmID = mget (subscribers s) strmID"

section \<open>Subscribing\<close>

definition startWorker :: "node \<Rightarrow> ptr \<Rightarrow> ptr \<Rightarrow> strmh option \<Rightarrow> node" where
  "startWorker s p ctxW ws = spawn (GO_SubWorker p ctxW ws) s"

text \<open>
  What both successful branches of \<^verbatim>\<open>sendSub\<close> do: a new context, \<^verbatim>\<open>cancelWorker\<close> and
  \<^verbatim>\<open>working\<close>.
\<close>

definition beginWork :: "node \<Rightarrow> ptr \<Rightarrow> ptr \<times> node" where
  "beginWork s p =
     (case with_cancel s of
        (c, s1) \<Rightarrow>
          let s2 = put_s s1 p ((get_s s1 p)\<lparr>s_cancelWorker := Some c\<rparr>)
          in (c, put_s s2 p ((get_s s2 p)\<lparr>s_working := True\<rparr>)))"

fun subLoop :: "env \<Rightarrow> ptr \<Rightarrow> Opcode \<Rightarrow> gdata \<Rightarrow> peerID list \<Rightarrow> node \<Rightarrow> go_error option \<times> node" where
  "subLoop env p opCode msg [] s = (Some ErrNoClosePeers, s)"
| "subLoop env p opCode msg (q # qs) s =
     (if q = identity s then subLoop env p opCode msg qs s
      else (case GetOutStream env s q of
              (None, s1) \<Rightarrow> subLoop env p opCode msg qs s1
            | (Some ns, s1) \<Rightarrow>
                (case sendMessageWithRetry env s1 q (Some (Basic (Some ns))) opCode msg of
                   (Some err, s2) \<Rightarrow> (Some err, s2)
                 | (None, s2) \<Rightarrow>
                     (case beginWork s2 p of
                        (c, s3) \<Rightarrow>
                          let s4 = put_s s3 p ((get_s s3 p)\<lparr>s_UpstreamPeer := q\<rparr>)
                          in (None, startWorker s4 p c (Some ns))))))"

definition sendSub :: "env \<Rightarrow> node \<Rightarrow> ptr \<Rightarrow> Opcode \<Rightarrow> gdata \<Rightarrow> go_error option \<times> node" where
  "sendSub env s p opCode msg =
     (case mget (broadcasters s) (s_StrmID (get_s s p)) of
        Some b \<Rightarrow>
          let s1 = AddListeningStream s b ''localSub'' (Local p)
          in (case beginWork s1 p of (c, s2) \<Rightarrow> (None, startWorker s2 p c None))
      | None \<Rightarrow>
          let localPeers = Peers env (hist s)
          in if length localPeers = 1 then (Some ErrSubscriber, s)
             else (case extractNodeID env (s_StrmID (get_s s p)) of
                     Inl _ \<Rightarrow> (Some ErrSubscriber, s)
                   | Inr targetPid \<Rightarrow>
                       let up = s_UpstreamPeer (get_s s p);
                           peers = SortClosestPeers env localPeers targetPid
                       in if s_working (get_s s p)
                          then (case GetOutStream env s up of
                                  (Some ns, s1) \<Rightarrow>
                                    sendMessageWithRetry env s1 up (Some (Basic (Some ns))) opCode msg
                                | (None, s1) \<Rightarrow> subLoop env p opCode msg peers s1)
                          else subLoop env p opCode msg peers s))"

definition Subscribe :: "env \<Rightarrow> node \<Rightarrow> ptr \<Rightarrow> go_error option \<times> node" where
  "Subscribe env s p = sendSub env s p SubReqID (D_SubReq \<lparr>sr_StrmID = s_StrmID (get_s s p)\<rparr>)"

text \<open>
  A node that was created without a public address holds a nil \<^verbatim>\<open>Multiaddr\<close>, and
  \<^verbatim>\<open>BytesForSigning\<close> calls a method of it.
\<close>

definition TranscoderSubscribe :: "env \<Rightarrow> node \<Rightarrow> ptr \<Rightarrow> (go_error option \<times> node) outcome" where
  "TranscoderSubscribe env s p =
     (case publicIP s of
        None \<Rightarrow> Panics
      | Some ip \<Rightarrow>
          let ts = \<lparr>ts_MultiAddrs = [ip], ts_NodeID = identity s, ts_StrmID = s_StrmID (get_s s p),
                    ts_Sig = []\<rparr>
          in (case Sign s (BytesForSigning env ts) of
                Inl err \<Rightarrow> Returns (Some err, s)
              | Inr sig \<Rightarrow>
                  (case with_cancel (log (E_Notify p) s) of
                     (c, s1) \<Rightarrow>
                       let s2 = put_s s1 p ((get_s s1 p)\<lparr>s_subResponded := Some c\<rparr>)
                       in Returns (None, spawn (GO_Retransmit p c (ts\<lparr>ts_Sig := sig\<rparr>)) s2))))"

definition TranscodeSub :: "env \<Rightarrow> node \<Rightarrow> string \<Rightarrow> (go_error option \<times> node) outcome" where
  "TranscodeSub env s strmID =
     (case GetSubscriber s strmID of (p, s1) \<Rightarrow> TranscoderSubscribe env s1 p)"

definition Unsubscribe :: "node \<Rightarrow> ptr \<Rightarrow> node" where
  "Unsubscribe s p =
     (let s1 = cancel_opt (s_cancelWorker (get_s s p)) s;
          strm = s_StrmID (get_s s1 p);
          s2 = (case mget (broadcasters s1) strm of
                  None \<Rightarrow> s1
                | Some b \<Rightarrow> put_b s1 b ((get_b s1 b)\<lparr>b_listeners := mdel (b_listeners (get_b s1 b)) ''localSub''\<rparr>));
          s3 = s2\<lparr>subscribers := mdel (subscribers s2) strm\<rparr>
      in log (E_StopNotify p) s3)"

definition SubscriberIsLive :: "node \<Rightarrow> ptr \<Rightarrow> bool" where
  "SubscriberIsLive s p = s_working (get_s s p)"

section \<open>Goroutines\<close>

definition ends :: "goroutine \<Rightarrow> node \<Rightarrow> node" where
  "ends g s = s\<lparr>gos := remove1 g (gos s)\<rparr>"

text \<open>
  \<^verbatim>\<open>InsertData\<close>'s goroutine: it looks at \<^verbatim>\<open>working\<close> once, then waits for the
  worker or its timer.
\<close>

definition insertStart :: "ptr \<Rightarrow> StreamDataMsg \<Rightarrow> node \<Rightarrow> node" where
  "insertStart p sd s =
     (if s_working (get_s s p) then spawn (GO_InsertWait p sd) (ends (GO_Insert p sd) s)
      else ends (GO_Insert p sd) s)"

definition insertTimeout :: "ptr \<Rightarrow> StreamDataMsg \<Rightarrow> node \<Rightarrow> node" where
  "insertTimeout p sd s = ends (GO_InsertWait p sd) s"

text \<open>The worker's two cases: a segment from a waiting insertion, or its context is done.\<close>

definition workerData :: "ptr \<Rightarrow> StreamDataMsg \<Rightarrow> node \<Rightarrow> node" where
  "workerData p msg s =
     (let s1 = ends (GO_InsertWait p msg) s;
          s2 = cancel_opt (s_subResponded (get_s s1 p)) s1
      in log (E_GotData p (sd_SeqNo msg) (sd_Data msg) False) s2)"

definition workerDone :: "env \<Rightarrow> ptr \<Rightarrow> ptr \<Rightarrow> strmh option \<Rightarrow> node \<Rightarrow> node" where
  "workerDone env p c ws s =
     (let s1 = cancel_opt (s_subResponded (get_s s p)) s;
          s2 = put_s s1 p ((get_s s1 p)\<lparr>s_working := False\<rparr>);
          s3 = log (E_GotData p 0 [] True) s2;
          s4 = (case ws of
                  None \<Rightarrow> s3
                | Some sh \<Rightarrow>
                    snd (sendMessageWithRetry env s3 (RemotePeer env sh) (Some (Basic (Some sh))) CancelSubID
                           (D_CancelSub \<lparr>cs_StrmID = s_StrmID (get_s s3 p)\<rparr>)))
      in ends (GO_SubWorker p c ws) s4)"

text \<open>The retransmission loop: one attempt, then the wait for an answer or the timer.\<close>

definition retransmitSend :: "env \<Rightarrow> ptr \<Rightarrow> ptr \<Rightarrow> TranscodeSubMsg \<Rightarrow> node \<Rightarrow> node" where
  "retransmitSend env p c ts s =
     (let s1 = put_s s p ((get_s s p)\<lparr>s_subAttempts := s_subAttempts (get_s s p) + 1\<rparr>);
          s2 = snd (sendSub env s1 p TranscodeSubID (D_TranscodeSub ts))
      in spawn (GO_RetransmitWait p c ts) (ends (GO_Retransmit p c ts) s2))"

definition retransmitTimer :: "ptr \<Rightarrow> ptr \<Rightarrow> TranscodeSubMsg \<Rightarrow> node \<Rightarrow> node" where
  "retransmitTimer p c ts s = spawn (GO_Retransmit p c ts) (ends (GO_RetransmitWait p c ts) s)"

definition retransmitStop :: "ptr \<Rightarrow> ptr \<Rightarrow> TranscodeSubMsg \<Rightarrow> node \<Rightarrow> node" where
  "retransmitStop p c ts s = ends (GO_RetransmitWait p c ts) s"

text \<open>The notification of a new connection, and the goroutine it starts.\<close>

definition SubscriberConnected :: "env \<Rightarrow> node \<Rightarrow> ptr \<Rightarrow> peerID \<Rightarrow> node" where
  "SubscriberConnected env s p remotePeer =
     (case extractNodeID env (s_StrmID (get_s s p)) of
        Inl _ \<Rightarrow> s
      | Inr broadcasterPid \<Rightarrow>
          if remotePeer \<noteq> broadcasterPid then s else spawn (GO_DirectConn p remotePeer) s)"

definition directConn :: "env \<Rightarrow> ptr \<Rightarrow> peerID \<Rightarrow> node \<Rightarrow> node" where
  "directConn env p remotePeer s =
     (let up = s_UpstreamPeer (get_s s p);
          s2 = (case GetOutStream env s up of
                  (None, s1) \<Rightarrow> s1
                | (Some ns, s1) \<Rightarrow>
                    snd (sendMessageWithRetry env s1 up (Some (Basic (Some ns))) CancelSubID
                           (D_CancelSub \<lparr>cs_StrmID = s_StrmID (get_s s1 p)\<rparr>)))
      in (case GetOutStream env s2 remotePeer of
            (None, s3) \<Rightarrow> ends (GO_DirectConn p remotePeer) s3
          | (Some _, s3) \<Rightarrow>
              let s4 = put_s s3 p ((get_s s3 p)\<lparr>s_UpstreamPeer := remotePeer\<rparr>)
              in ends (GO_DirectConn p remotePeer) (cancel_opt (s_subResponded (get_s s4 p)) s4)))"

section \<open>Facts\<close>

lemma beginWork_spec:
  assumes "beginWork s p = (c, s')"
  shows "c = fresh (ctxs s)" "\<not> cancelled s' c" "c' \<noteq> c \<Longrightarrow> cancelled s' c' = cancelled s c'"
    "get_s s' q = (if q = p then (get_s s p)\<lparr>s_cancelWorker := Some c, s_working := True\<rparr> else get_s s q)"
    "hist s' = hist s" "outStreams s' = outStreams s" "gos s' = gos s" "identity s' = identity s"
    "broadcasters s' = broadcasters s" "subscribers s' = subscribers s" "relayers s' = relayers s"
    "get_b s' b = get_b s b" "get_r s' r = get_r s r"
  using assms
  by (auto simp: beginWork_def with_cancel_def snew_def Let_def cancelled_def sget_def)

lemma cancelled_cancel [simp]: "cancelled (cancel c s) c' \<longleftrightarrow> c' = c \<or> cancelled s c'"
  by (simp add: cancelled_def cancel_def)

lemma cancel_fields [simp]:
  "hist (cancel c s) = hist s" "outStreams (cancel c s) = outStreams s" "gos (cancel c s) = gos s"
  "get_s (cancel c s) q = get_s s q" "get_b (cancel c s) q = get_b s q" "get_r (cancel c s) q = get_r s q"
  "broadcasters (cancel c s) = broadcasters s" "subscribers (cancel c s) = subscribers s"
  "relayers (cancel c s) = relayers s" "identity (cancel c s) = identity s"
  by (simp_all add: cancel_def)

lemma ends_fields [simp]:
  "hist (ends g s) = hist s" "outStreams (ends g s) = outStreams s" "gos (ends g s) = remove1 g (gos s)"
  "get_s (ends g s) q = get_s s q" "get_b (ends g s) q = get_b s q" "get_r (ends g s) q = get_r s q"
  "identity (ends g s) = identity s" "broadcasters (ends g s) = broadcasters s"
  "subscribers (ends g s) = subscribers s" "relayers (ends g s) = relayers s"
  "cancelled (ends g s) c = cancelled s c"
  by (simp_all add: ends_def cancelled_def)

lemma RefreshOutStream_ctxs: "GetOutStream env s q = (st, s') \<Longrightarrow> ctxs s' = ctxs s \<and> gos s' = gos s"
  by (auto simp: GetOutStream_def dest: RefreshOutStream_gos io_frameD(16) [OF RefreshOutStream_frame]
      split: option.split_asm)

section \<open>Properties\<close>

text \<open>What a subscriber gets from a peer: one request sent, one worker for its stream.\<close>

definition subscribed_via ::
  "env \<Rightarrow> node \<Rightarrow> ptr \<Rightarrow> Opcode \<Rightarrow> gdata \<Rightarrow> node \<Rightarrow> peerID \<Rightarrow> strmh \<Rightarrow> ptr \<Rightarrow> bool" where
  "subscribed_via env s p op d s' q sh c \<longleftrightarrow>
     q \<noteq> identity s \<and> RemotePeer env sh = q
     \<and> sent_to env (hist s') = (q, \<lparr>Op = op, Data = d\<rparr>) # sent_to env (hist s)
     \<and> get_s s' p = (get_s s p)\<lparr>s_cancelWorker := Some c, s_working := True, s_UpstreamPeer := q\<rparr>
     \<and> gos s' = gos s @ [GO_SubWorker p c (Some sh)] \<and> \<not> cancelled s' c"

lemma subLoop_spec:
  assumes "streams_ok env s" and "subLoop env p op d qs s = (e, s')"
  shows "e \<noteq> None \<and> sent_to env (hist s') = sent_to env (hist s) \<and> get_s s' p = get_s s p \<and> gos s' = gos s
     \<or> e = None \<and> (\<exists>q sh c. q \<in> set qs \<and> subscribed_via env s p op d s' q sh c)"
  using assms
proof (induction qs arbitrary: s)
  case Nil
  then show ?case by auto
next
  case (Cons q qs)
  show ?case
  proof (cases "q = identity s")
    case True
    with Cons.prems(2) have "subLoop env p op d qs s = (e, s')" by simp
    from Cons.IH [OF Cons.prems(1) this] show ?thesis by auto
  next
    case False
    obtain st s1 where g: "GetOutStream env s q = (st, s1)" by fastforce
    note g1 = GetOutStream_silent [OF g] GetOutStream_ok [OF g Cons.prems(1)]
      io_frameD(1) [OF GetOutStream_frame [OF g]] io_frame_structs(3) [OF GetOutStream_frame [OF g]]
      RefreshOutStream_ctxs [OF g]
    show ?thesis
    proof (cases st)
      case None
      with False g Cons.prems(2) have "subLoop env p op d qs s1 = (e, s')" by simp
      from Cons.IH [OF g1(2) this] g1 show ?thesis by (auto simp: subscribed_via_def)
    next
      case (Some sh)
      have rem: "RemotePeer env sh = q" using GetOutStream_remote g Some Cons.prems(1) by blast
      obtain e2 s2 where sd: "sendMessageWithRetry env s1 q (Some (Basic (Some sh))) op d = (e2, s2)" by fastforce
      note s2 = retry_gos [OF sd] io_frame_structs(3) [OF retry_frame [OF sd]]
      show ?thesis
      proof (cases e2)
        case err: (Some err)
        with False g Some sd Cons.prems(2) have "e = Some err" "s' = s2" by simp_all
        with s2 g1 retry_fails [OF sd [unfolded err]] show ?thesis by simp
      next
        case None
        obtain c s3 where b: "beginWork s2 p = (c, s3)" by fastforce
        from False g Some sd None b Cons.prems(2)
        have r: "e = None" "s' = startWorker (put_s s3 p ((get_s s3 p)\<lparr>s_UpstreamPeer := q\<rparr>)) p c (Some sh)"
          by (simp_all add: Let_def)
        have "sent_to env (hist s2) = (q, \<lparr>Op = op, Data = d\<rparr>) # sent_to env (hist s)"
          using retry_delivers [OF sd [unfolded None] g1(2)] rem g1(1) by simp
        with r s2 g1 rem False beginWork_spec [OF b] have "subscribed_via env s p op d s' q sh c"
          by (simp add: subscribed_via_def startWorker_def)
        with r(1) show ?thesis by auto
      qed
    qed
  qed
qed


text \<open>
  A retransmission by a live subscriber whose upstream peer still has a stream starts no second
  worker and leaves the subscriber's context alone, as the comment in \<^verbatim>\<open>sendSub\<close> asks; the
  request goes to the upstream peer, at most once.
\<close>

theorem retransmission_reuses_upstream:
  assumes "streams_ok env s" and "sendSub env s p op d = (e, s')"
    and "mget (broadcasters s) (s_StrmID (get_s s p)) = None" and "s_working (get_s s p)"
    and "mget (outStreams s) (s_UpstreamPeer (get_s s p)) = Some sh"
  shows "gos s' = gos s \<and> get_s s' p = get_s s p \<and> ctxs s' = ctxs s
     \<and> (sent_to env (hist s') = sent_to env (hist s)
        \<or> sent_to env (hist s') = (s_UpstreamPeer (get_s s p), \<lparr>Op = op, Data = d\<rparr>) # sent_to env (hist s))"
proof (cases "s' = s")
  case True
  then show ?thesis by simp
next
  case False
  let ?up = "s_UpstreamPeer (get_s s p)"
  from assms False have sd: "sendMessageWithRetry env s ?up (Some (Basic (Some sh))) op d = (e, s')"
    by (auto simp: sendSub_def GetOutStream_def Let_def split: if_split_asm sum.split_asm)
  have "RemotePeer env sh = ?up" using assms(1,5) by (simp add: streams_ok_def)
  with retry_sent [OF sd assms(1)] retry_gos [OF sd] io_frameD(16) [OF retry_frame [OF sd]]
    io_frame_structs(3) [OF retry_frame [OF sd]]
  show ?thesis by (cases e) simp_all
qed

text \<open>
  With a local broadcaster the retransmission of a live transcoder does start another worker:
  the local case comes before the test that the subscriber is live. Every retransmission adds a
  worker with a context of its own and overwrites the only handle of the previous one, which is
  left uncancelled, so that \<^verbatim>\<open>Unsubscribe\<close> ends the last worker only.
\<close>

theorem local_retransmission_adds_worker:
  assumes "mget (broadcasters s) (s_StrmID (get_s s p)) = Some b"
    and "s_cancelWorker (get_s s p) = Some c" and "\<not> cancelled s c" and "c < fresh (ctxs s)"
    and "GO_SubWorker p c None \<in> set (gos s)"
    and "s' = Unsubscribe (retransmitSend env p k ts s) p"
  shows "\<exists>c'. c' \<noteq> c \<and> GO_SubWorker p c' None \<in> set (gos s') \<and> cancelled s' c'
     \<and> GO_SubWorker p c None \<in> set (gos s') \<and> \<not> cancelled s' c"
proof -
  let ?s1 = "put_s s p ((get_s s p)\<lparr>s_subAttempts := s_subAttempts (get_s s p) + 1\<rparr>)"
  let ?s2 = "AddListeningStream ?s1 b ''localSub'' (Local p)"
  obtain c' s3 where bw: "beginWork ?s2 p = (c', s3)" by fastforce
  have a: "get_s (AddListeningStream t b k l) q = get_s t q" "gos (AddListeningStream t b k l) = gos t"
    "ctxs (AddListeningStream t b k l) = ctxs t"
    "cancelled (AddListeningStream t b k l) x = cancelled t x" for t k l q x
    by (simp_all add: AddListeningStream_def split: option.split)
  note bs = beginWork_spec [OF bw]
  have r: "retransmitSend env p k ts s =
      spawn (GO_RetransmitWait p k ts) (ends (GO_Retransmit p k ts) (startWorker s3 p c' None))"
    using assms(1) bw by (simp add: retransmitSend_def sendSub_def Let_def)
  let ?t = "retransmitSend env p k ts s"
  have t: "s_cancelWorker (get_s ?t p) = Some c'" "c' \<noteq> c" "\<not> cancelled ?t c"
    "GO_SubWorker p c' None \<in> set (gos ?t)" "GO_SubWorker p c None \<in> set (gos ?t)"
    using assms(3-5) bs(1) bs(3) [of c]
    by (auto simp: r startWorker_def bs a)
  then show ?thesis
    unfolding assms(6) by (intro exI [of _ c'])
      (simp add: Unsubscribe_def Let_def cancel_opt_def split: option.split)
qed

text \<open>
  C35. When a worker's context is done, the worker marks the subscriber as not working, hands the end
  of the stream to the client exactly once, cancels at the peer it subscribed through, at most once
  and with the stream's id, and is gone.
\<close>

theorem worker_done_cancels_upstream:
  assumes "streams_ok env s" and "s' = workerDone env p c ws s"
  shows "\<not> s_working (get_s s' p) \<and> gos s' = remove1 (GO_SubWorker p c ws) (gos s)
     \<and> got_data p (hist s') = (0, [], True) # got_data p (hist s)
     \<and> (sent_to env (hist s') = sent_to env (hist s) \<or> (\<exists>sh. ws = Some sh \<and> sent_to env (hist s') =
         (RemotePeer env sh, \<lparr>Op = CancelSubID, Data = D_CancelSub \<lparr>cs_StrmID = s_StrmID (get_s s p)\<rparr>\<rparr>)
         # sent_to env (hist s)))"
proof -
  define s1 where "s1 = cancel_opt (s_subResponded (get_s s p)) s"
  define s3 where "s3 = log (E_GotData p 0 [] True) (put_s s1 p ((get_s s1 p)\<lparr>s_working := False\<rparr>))"
  have s3: "streams_ok env s3" "s_StrmID (get_s s3 p) = s_StrmID (get_s s p)" "gos s3 = gos s"
    "got_data p (hist s3) = (0, [], True) # got_data p (hist s)" "sent_to env (hist s3) = sent_to env (hist s)"
    "\<not> s_working (get_s s3 p)"
    using assms(1) by (simp_all add: s1_def s3_def cancel_opt_def streams_ok_def split: option.split)
  have s': "s' = ends (GO_SubWorker p c ws) (case ws of None \<Rightarrow> s3 | Some sh \<Rightarrow>
      snd (sendMessageWithRetry env s3 (RemotePeer env sh) (Some (Basic (Some sh))) CancelSubID
        (D_CancelSub \<lparr>cs_StrmID = s_StrmID (get_s s3 p)\<rparr>)))"
    unfolding assms(2) workerDone_def Let_def s3_def s1_def by (rule refl)
  show ?thesis
  proof (cases ws)
    case None
    with s' s3 show ?thesis by simp
  next
    case (Some sh)
    let ?d = "D_CancelSub \<lparr>cs_StrmID = s_StrmID (get_s s p)\<rparr>"
    obtain e s4 where sd: "sendMessageWithRetry env s3 (RemotePeer env sh) (Some (Basic (Some sh)))
        CancelSubID ?d = (e, s4)" by fastforce
    have s4: "s' = ends (GO_SubWorker p c ws) s4"
      using s' Some sd s3(2) by simp
    note fr = retry_gos [OF sd] retry_client [OF sd] io_frame_structs(3) [OF retry_frame [OF sd]]
    have "sent_to env (hist s4) = sent_to env (hist s3)
        \<or> sent_to env (hist s4) = (RemotePeer env sh, \<lparr>Op = CancelSubID, Data = ?d\<rparr>) # sent_to env (hist s3)"
      using retry_sent [OF sd s3(1)] by (cases e) auto
    then show ?thesis unfolding s4 by (simp add: fr s3 Some)
  qed
qed

section \<open>Witnesses\<close>

definition demo_sub :: node where "demo_sub = snd (GetSubscriber demo_node demo_strm)"

lemma demo_sub_facts [simp]:
  "broadcasters demo_sub = []" "outStreams demo_sub = []" "identity demo_sub = pMe" "gos demo_sub = []"
  "get_s demo_sub 0 = zero_subscriber\<lparr>s_StrmID := demo_strm\<rparr>" "sent_to demo_env (hist demo_sub) = []"
  "fresh (ctxs demo_sub) = 0"
  by (simp_all add: demo_sub_def GetSubscriber_def new_s_def snew_def log_def zero_subscriber_def get_s_def
      sget_def demo_node_def new_node_def empty_store_def)

lemma demo_sub_ok [simp]: "streams_ok demo_env demo_sub"
  by (simp add: streams_ok_def)


definition demo_live :: node where
  "demo_live = (let (c, s) = beginWork demo_sub 0
     in (put_s s 0 ((get_s s 0)\<lparr>s_UpstreamPeer := pA\<rparr>))\<lparr>outStreams := [(pA, 1)], gos := [GO_SubWorker 0 c None]\<rparr>)"

lemma demo_live_facts [simp]:
  "broadcasters demo_live = []" "outStreams demo_live = [(pA, 1)]" "gos demo_live = [GO_SubWorker 0 0 None]"
  "get_s demo_live 0 = zero_subscriber\<lparr>s_StrmID := demo_strm, s_working := True, s_cancelWorker := Some 0,
     s_UpstreamPeer := pA\<rparr>"
  "\<not> cancelled demo_live 0" "fresh (ctxs demo_live) = Suc 0"
proof -
  obtain c s where b: "beginWork demo_sub 0 = (c, s)" by fastforce
  have "c = 0" using beginWork_spec(1) [OF b] by simp
  note bs = beginWork_spec [OF b [unfolded this]]
  have f: "fresh (ctxs s) = Suc 0"
    using b by (auto simp: beginWork_def with_cancel_def snew_def Let_def)
  show "broadcasters demo_live = []" "outStreams demo_live = [(pA, 1)]" "gos demo_live = [GO_SubWorker 0 0 None]"
    "get_s demo_live 0 = zero_subscriber\<lparr>s_StrmID := demo_strm, s_working := True, s_cancelWorker := Some 0,
       s_UpstreamPeer := pA\<rparr>"
    "\<not> cancelled demo_live 0" "fresh (ctxs demo_live) = Suc 0"
    using b bs \<open>c = 0\<close> f by (simp_all add: demo_live_def)
qed

lemma demo_live_ok [simp]: "streams_ok demo_env demo_live"
  by (simp add: streams_ok_def)

lemma retransmission_reuses_upstream_witness:
  "gos (snd (sendSub demo_env demo_live 0 SubReqID (D_SubReq \<lparr>sr_StrmID = demo_strm\<rparr>))) = gos demo_live"
  using retransmission_reuses_upstream [of demo_env demo_live 0 SubReqID "D_SubReq \<lparr>sr_StrmID = demo_strm\<rparr>"
      "fst (sendSub demo_env demo_live 0 SubReqID (D_SubReq \<lparr>sr_StrmID = demo_strm\<rparr>))"
      "snd (sendSub demo_env demo_live 0 SubReqID (D_SubReq \<lparr>sr_StrmID = demo_strm\<rparr>))" 1] by simp

lemma local_retransmission_adds_worker_witness:
  "GO_SubWorker 0 0 None \<in> set (gos (Unsubscribe (retransmitSend demo_env 0 7
      \<lparr>ts_MultiAddrs = [], ts_NodeID = pMe, ts_StrmID = demo_strm, ts_Sig = []\<rparr>
      (demo_live\<lparr>broadcasters := [(demo_strm, 3)]\<rparr>)) 0))"
  using local_retransmission_adds_worker [of "demo_live\<lparr>broadcasters := [(demo_strm, 3)]\<rparr>" 0 3 0 _ demo_env 7
      "\<lparr>ts_MultiAddrs = [], ts_NodeID = pMe, ts_StrmID = demo_strm, ts_Sig = []\<rparr>"] by auto

lemma worker_done_cancels_upstream_witness:
  "got_data 0 (hist (workerDone demo_env 0 0 (Some 1) demo_live)) = (0, [], True) # got_data 0 (hist demo_live)"
  using worker_done_cancels_upstream [OF demo_live_ok refl, of 0 0 "Some 1"] by blast

end
