(* ===== verification/Handlers.thy ===== *)
theory Handlers
  imports Subscriber
begin

text \<open>
  The message handlers of \<^verbatim>\<open>basic_network.go\<close>, one definition each, in the order of the
  code. A handler takes the node, the peer at the other end of the stream and the decoded
  message, and returns its error and the node after it.
\<close>

section \<open>Subscriptions\<close>

text \<open>The latest segments, sent to a new listener one second apart.\<close>

fun sendLastMsgs :: "env \<Rightarrow> ptr \<Rightarrow> peerID \<Rightarrow> StreamDataMsg option list \<Rightarrow> node \<Rightarrow> node" where
  "sendLastMsgs env b remotePID [] s = s"
| "sendLastMsgs env b remotePID (None # ms) s = sendLastMsgs env b remotePID ms s"
| "sendLastMsgs env b remotePID (Some msg # ms) s =
     (case GetOutStream env s remotePID of
        (strm, s1) \<Rightarrow>
          sendLastMsgs env b remotePID ms
            (log E_Sleep (sendDataMsg env s1 b (IDHexEncode env remotePID) (Basic strm) (Some msg))))"

text \<open>A new relayer with its upstream peer and first listener.\<close>

definition createRelayer :: "env \<Rightarrow> node \<Rightarrow> string \<Rightarrow> Opcode \<Rightarrow> peerID \<Rightarrow> string option \<Rightarrow> peerID \<Rightarrow> node" where
  "createRelayer env s strmID opcode upstream logged remotePID =
     (case NewRelayer s strmID opcode of
        (r, s1) \<Rightarrow>
          let s2 = set_upstream s1 r upstream;
              s3 = (case logged of None \<Rightarrow> s2 | Some l \<Rightarrow> log (E_LogRelay strmID l) s2)
          in AddListener env s3 r remotePID)"

definition handleSub ::
  "env \<Rightarrow> node \<Rightarrow> Opcode \<Rightarrow> string \<Rightarrow> gdata \<Rightarrow> peerID \<Rightarrow> go_error option \<times> node" where
  "handleSub env s opCode strmID submsg remotePID =
     (case mget (broadcasters s) strmID of
        Some b \<Rightarrow>
          let s1 = AddListeningPeer env s b remotePID
          in (None, sendLastMsgs env b remotePID (b_lastMsgs (get_b s1 b)) s1)
      | None \<Rightarrow>
     (case mget (relayers s) (relayerMapKey strmID SubReqID) of
        Some r \<Rightarrow> (None, AddListener env s r remotePID)
      | None \<Rightarrow>
     (let s1 = (case mget (subscribers s) strmID of
                  Some sp \<Rightarrow>
                    createRelayer env s strmID SubReqID (s_UpstreamPeer (get_s s sp))
                      (Some (IDHexEncode env remotePID)) remotePID
                | None \<Rightarrow> s)
      in case ClosestLocalPeers env s1 strmID of
           Inl _ \<Rightarrow> (Some ErrHandleMsg, s1)
         | Inr peers \<Rightarrow>
             if extractNodeID env strmID = Inr (identity s1)
             then (case GetOutStream env s1 remotePID of
                     (None, s2) \<Rightarrow> (None, s2)
                   | (Some ns, s2) \<Rightarrow>
                       (None, snd (sendMessageWithRetry env s2 remotePID (Some (Basic (Some ns)))
                                FinishStreamID (D_FinishStream \<lparr>fs_StrmID = strmID\<rparr>))))
             else (case forward env remotePID opCode submsg peers s1 of
                     (FwdEmptyPeer, s2) \<Rightarrow> (None, s2)
                   | (FwdNone, s2) \<Rightarrow> (Some ErrHandleMsg, s2)
                   | (FwdSent p, s2) \<Rightarrow>
                       (case mget (relayers s2) (relayerMapKey strmID SubReqID) of
                          Some r \<Rightarrow> (None, AddListener env s2 r remotePID)
                        | None \<Rightarrow>
                            (None, createRelayer env s2 strmID SubReqID p
                               (Some (IDHexEncode env p)) remotePID))))))"

definition handleSubReq :: "env \<Rightarrow> node \<Rightarrow> SubReqMsg \<Rightarrow> peerID \<Rightarrow> go_error option \<times> node" where
  "handleSubReq env s subReq remotePID =
     handleSub env s SubReqID (sr_StrmID subReq) (D_SubReq subReq) remotePID"

definition handleCancelSubReq :: "env \<Rightarrow> node \<Rightarrow> CancelSubMsg \<Rightarrow> peerID \<Rightarrow> go_error option \<times> node" where
  "handleCancelSubReq env s cr rpeer =
     (let strm = cs_StrmID cr; key = relayerMapKey strm SubReqID in
      case mget (broadcasters s) strm of
        Some b \<Rightarrow>
          (None, put_b s b ((get_b s b)\<lparr>b_listeners := mdel (b_listeners (get_b s b)) (IDHexEncode env rpeer)\<rparr>))
      | None \<Rightarrow>
     (case mget (relayers s) key of
        Some r \<Rightarrow>
          let s1 = put_r s r ((get_r s r)\<lparr>r_listeners := mdel (r_listeners (get_r s r)) (IDHexEncode env rpeer)\<rparr>);
              s2 = log (E_RemoveRelay strm) s1
          in if r_listeners (get_r s2 r) = []
             then let up = r_UpstreamPeer (get_r s2 r);
                      s4 = (case GetOutStream env s2 up of
                              (None, s3) \<Rightarrow> s3
                            | (Some ns, s3) \<Rightarrow>
                                snd (sendMessageWithRetry env s3 up (Some (Basic (Some ns))) CancelSubID
                                       (D_CancelSub cr)))
                  in (None, if mget (subscribers s4) strm = None
                            then s4\<lparr>relayers := mdel (relayers s4) key\<rparr> else s4)
             else (None, s2)
      | None \<Rightarrow> (None, s)))"

section \<open>Stream data\<close>

definition handleStreamData ::
  "env \<Rightarrow> node \<Rightarrow> peerID \<Rightarrow> StreamDataMsg \<Rightarrow> (go_error option \<times> node) outcome" where
  "handleStreamData env s remotePID sd =
     (let sub = getSubscriber s (sd_StrmID sd);
          s1 = (case sub of None \<Rightarrow> s | Some p \<Rightarrow> snd (InsertData s p sd))
      in case mget (relayers s1) (relayerMapKey (sd_StrmID sd) SubReqID) of
           Some r \<Rightarrow>
             map_outcome (\<lambda>(err, s2). (if err \<noteq> None then Some ErrHandleMsg else None, s2))
               (RelayStreamData env s1 r sd)
         | None \<Rightarrow> Returns (if sub = None then Some ErrHandleMsg else None, s1))"

definition handleFinishStream ::
  "env \<Rightarrow> node \<Rightarrow> FinishStreamMsg \<Rightarrow> (go_error option \<times> node) outcome" where
  "handleFinishStream env s fs =
     (let strm = fs_StrmID fs; key = relayerMapKey strm SubReqID;
          sub = mget (subscribers s) strm;
          s1 = (case sub of
                  None \<Rightarrow> s
                | Some p \<Rightarrow> (let s0 = Unsubscribe s p in s0\<lparr>subscribers := mdel (subscribers s0) strm\<rparr>))
      in case mget (relayers s1) key of
           Some r \<Rightarrow>
             map_outcome (\<lambda>(_, s2). (None, log (E_RemoveRelay strm) (s2\<lparr>relayers := mdel (relayers s2) key\<rparr>)))
               (RelayFinishStream env s1 r fs)
         | None \<Rightarrow> Returns (if sub = None then Some ErrHandleMsg else None, s1))"

section \<open>Transcoding\<close>

definition handleTranscodeResponse ::
  "env \<Rightarrow> node \<Rightarrow> peerID \<Rightarrow> TranscodeResponseMsg \<Rightarrow> go_error option \<times> node" where
  "handleTranscodeResponse env s remotePID tr =
     (case mget (transResponseCallbacks s) (tr_StrmID tr) of
        Some cb \<Rightarrow> (None, log (E_Callback cb (tr_Result tr)) s)
      | None \<Rightarrow>
          (case extractNodeID env (tr_StrmID tr) of
             Inl _ \<Rightarrow> (Some ErrHandleMsg, s)
           | Inr nid \<Rightarrow>
               if IDHexEncode env nid = GetNodeID env s then (None, s)
               else (case ClosestLocalPeers env s (tr_StrmID tr) of
                       Inl _ \<Rightarrow> (Some ErrTranscodeResponse, s)
                     | Inr peers \<Rightarrow>
                         (case forward env remotePID TranscodeResponseID (D_TranscodeResponse tr) peers s of
                            (FwdEmptyPeer, s1) \<Rightarrow> (None, s1)
                          | (FwdSent _, s1) \<Rightarrow> (None, s1)
                          | (FwdNone, s1) \<Rightarrow> (Some ErrHandleMsg, s1)))))"

definition handleTranscodeSub ::
  "env \<Rightarrow> node \<Rightarrow> peerID \<Rightarrow> TranscodeSubMsg \<Rightarrow> go_error option \<times> node" where
  "handleTranscodeSub env s remotePeer ts =
     (if \<not> VerifyTranscoderSig s (BytesForSigning env ts) (ts_Sig ts) (ts_StrmID ts)
      then (Some ErrHandleMsg, s)
      else (case extractNodeID env (ts_StrmID ts) of
              Inl _ \<Rightarrow> (Some ErrHandleMsg, s)
            | Inr bcastPid \<Rightarrow>
                if bcastPid \<noteq> identity s
                then handleSub env s TranscodeSubID (ts_StrmID ts) (D_TranscodeSub ts) remotePeer
                else if ts_MultiAddrs ts = [] then (Some ErrHandleMsg, s)
                else let mas = map (maString env) (ts_MultiAddrs ts);
                         pid = ts_NodeID ts
                     in if PeerAddrs env (hist s) pid \<noteq> None
                        then handleSubReq env s \<lparr>sr_StrmID = ts_StrmID ts\<rparr> pid
                        else (case Connect env s (IDHexEncode env pid) mas of
                                (Some _, s1) \<Rightarrow> handleSubReq env s1 \<lparr>sr_StrmID = ts_StrmID ts\<rparr> remotePeer
                              | (None, s1) \<Rightarrow> handleSubReq env s1 \<lparr>sr_StrmID = ts_StrmID ts\<rparr> pid)))"

section \<open>Master playlists\<close>

text \<open>\<^verbatim>\<open>nw.sendMessageWithRetry(p, nw.NetworkNode.GetOutStream(p), op, d)\<close>\<close>

definition reply :: "env \<Rightarrow> node \<Rightarrow> peerID \<Rightarrow> Opcode \<Rightarrow> gdata \<Rightarrow> go_error option \<times> node" where
  "reply env s p op d =
     (case GetOutStream env s p of
        (strm, s1) \<Rightarrow> sendMessageWithRetry env s1 p (Some (Basic strm)) op d)"

text \<open>An error of the last reply of a handler is reported as \<^verbatim>\<open>ErrHandleMsg\<close>.\<close>

definition as_handle_error :: "go_error option \<times> node \<Rightarrow> go_error option \<times> node" where
  "as_handle_error r = (case r of (None, s) \<Rightarrow> (None, s) | (Some _, s) \<Rightarrow> (Some ErrHandleMsg, s))"

definition mplNotFound :: "string \<Rightarrow> gdata" where
  "mplNotFound manifestID =
     D_MasterPlaylistData \<lparr>md_ManifestID = manifestID, md_MPL = [], md_NotFound = True\<rparr>"

definition handleGetMasterPlaylistReq ::
  "env \<Rightarrow> node \<Rightarrow> peerID \<Rightarrow> GetMasterPlaylistReqMsg \<Rightarrow> go_error option \<times> node" where
  "handleGetMasterPlaylistReq env s remotePID mplr =
     (let mid = mr_ManifestID mplr; key = relayerMapKey mid GetMasterPlaylistReqID in
      case mget (mplMap s) mid of
        Some mpl \<Rightarrow>
          as_handle_error (reply env s remotePID MasterPlaylistDataID
            (D_MasterPlaylistData \<lparr>md_ManifestID = mid, md_MPL = mplString env mpl, md_NotFound = False\<rparr>))
      | None \<Rightarrow>
          if (case extractNodeID env mid of Inl _ \<Rightarrow> False | Inr nid \<Rightarrow> IDHexEncode env nid = GetNodeID env s)
          then reply env s remotePID MasterPlaylistDataID (mplNotFound mid)
          else (case ClosestLocalPeers env s mid of
                  Inl _ \<Rightarrow> reply env s remotePID MasterPlaylistDataID (mplNotFound mid)
                | Inr peers \<Rightarrow>
                    (case forward env remotePID GetMasterPlaylistReqID
                            (D_GetMasterPlaylistReq \<lparr>mr_ManifestID = mid\<rparr>) peers s of
                       (FwdEmptyPeer, s1) \<Rightarrow> (None, s1)
                     | (FwdSent p, s1) \<Rightarrow>
                         (case mget (relayers s1) key of
                            Some r \<Rightarrow> (None, AddListener env s1 r remotePID)
                          | None \<Rightarrow>
                              (None, createRelayer env s1 mid GetMasterPlaylistReqID p
                                 (Some (IDHexEncode env p)) remotePID))
                     | (FwdNone, s1) \<Rightarrow>
                         as_handle_error (reply env s1 remotePID MasterPlaylistDataID (mplNotFound mid)))))"

definition handleMasterPlaylistDataMsg ::
  "env \<Rightarrow> node \<Rightarrow> MasterPlaylistDataMsg \<Rightarrow> (go_error option \<times> node) outcome" where
  "handleMasterPlaylistDataMsg env s mpld =
     (case mget (msgChans s) (msgChansKey GetMasterPlaylistReqID (md_ManifestID mpld)) of
        None \<Rightarrow>
          (case mget (relayers s) (relayerMapKey (md_ManifestID mpld) GetMasterPlaylistReqID) of
             Some r \<Rightarrow> RelayMasterPlaylistData env s r mpld
           | None \<Rightarrow> Returns (Some ErrHandleMsg, s))
      | Some ch \<Rightarrow>
          (case chan_send s ch (V_Msg \<lparr>Op = MasterPlaylistDataID, Data = D_MasterPlaylistData mpld\<rparr>) of
             Returns s1 \<Rightarrow> Returns (None, s1)
           | Panics \<Rightarrow> Panics
           | Blocks \<Rightarrow> Returns (None, s)))"

section \<open>Node status\<close>

definition statusNotFound :: "string \<Rightarrow> gdata" where
  "statusNotFound nid = D_NodeStatusData \<lparr>nd_NodeID = nid, nd_Data = [], nd_NotFound = True\<rparr>"

definition nodeStatusString :: "env \<Rightarrow> node \<Rightarrow> string" where
  "nodeStatusString env s = statusString env (GetNodeID env s) (mplMap s)"

definition handleNodeStatusReqMsg ::
  "env \<Rightarrow> node \<Rightarrow> peerID \<Rightarrow> NodeStatusReqMsg \<Rightarrow> go_error option \<times> node" where
  "handleNodeStatusReqMsg env s remotePID nsr =
     (let nid = nr_NodeID nsr; key = relayerMapKey nid NodeStatusReqID in
      if nid = GetNodeID env s
      then as_handle_error (reply env s remotePID NodeStatusDataID
             (D_NodeStatusData \<lparr>nd_NodeID = GetNodeID env s, nd_Data = nodeStatusString env s,
                                nd_NotFound = False\<rparr>))
      else (case ClosestLocalPeers env s nid of
              Inl _ \<Rightarrow> reply env s remotePID NodeStatusDataID (statusNotFound nid)
            | Inr peers \<Rightarrow>
                (case forward env remotePID NodeStatusReqID (D_NodeStatusReq \<lparr>nr_NodeID = nid\<rparr>) peers s of
                   (FwdEmptyPeer, s1) \<Rightarrow> (None, s1)
                 | (FwdSent p, s1) \<Rightarrow>
                     (case mget (relayers s1) key of
                        Some r \<Rightarrow> (None, AddListener env s1 r remotePID)
                      | None \<Rightarrow> (None, createRelayer env s1 nid NodeStatusReqID p None remotePID))
                 | (FwdNone, s1) \<Rightarrow>
                     as_handle_error (reply env s1 remotePID NodeStatusDataID (statusNotFound nid)))))"

definition handleNodeStatusDataMsg ::
  "env \<Rightarrow> node \<Rightarrow> NodeStatusDataMsg \<Rightarrow> (go_error option \<times> node) outcome" where
  "handleNodeStatusDataMsg env s nsd =
     (case mget (msgChans s) (msgChansKey NodeStatusReqID (nd_NodeID nsd)) of
        None \<Rightarrow>
          (case mget (relayers s) (relayerMapKey (nd_NodeID nsd) NodeStatusReqID) of
             Some r \<Rightarrow> RelayNodeStatusData env s r nsd
           | None \<Rightarrow> Returns (Some ErrHandleMsg, s))
      | Some ch \<Rightarrow>
          map_outcome (\<lambda>s1. (None, s1))
            (chan_send s ch (V_Msg \<lparr>Op = NodeStatusDataID, Data = D_NodeStatusData nsd\<rparr>)))"

section \<open>Ping and pong\<close>

definition handlePing :: "env \<Rightarrow> node \<Rightarrow> peerID \<Rightarrow> string \<Rightarrow> go_error option \<times> node" where
  "handlePing env s remotePID pd =
     (case GetOutStream env s remotePID of
        (strm, s1) \<Rightarrow> as_handle_error (SendMessage env s1 (Basic strm) PongID (D_Pong pd)))"

definition handlePong :: "node \<Rightarrow> peerID \<Rightarrow> string \<Rightarrow> (go_error option \<times> node) outcome" where
  "handlePong s remotePID pd =
     (case mget (pingChs s) pd of
        None \<Rightarrow> Returns (Some ErrHandleMsg, s)
      | Some ch \<Rightarrow>
          (case chan_send s ch V_Unit of
             Panics \<Rightarrow> Panics
           | Blocks \<Rightarrow> Blocks
           | Returns s1 \<Rightarrow>
               map_outcome (\<lambda>s2. (None, s2\<lparr>pingChs := mdel (pingChs s2) pd\<rparr>)) (chan_close s1 ch)))"

end
