(* ===== verification/Subscriptions.thy ===== *)
theory Subscriptions
  imports Handlers "HOL-Library.Sublist"
begin

text \<open>
  What the handlers of subscriptions, cancellations, stream data and the end of a stream
  guarantee.
\<close>

section \<open>Shared facts\<close>

text \<open>A new relayer holds its one listener and its upstream peer; nothing is sent.\<close>

lemma createRelayer_spec:
  assumes "s' = createRelayer env s strmID opcode up logged pid" and "r = fresh (rstore s)"
  shows "relayers s' = mput (relayers s) (relayerMapKey strmID opcode) r"
    and "r_UpstreamPeer (get_r s' r) = up"
    and "\<exists>st. r_listeners (get_r s' r) = [(IDHexEncode env pid, st)]"
    and "sent_to env (hist s') = sent_to env (hist s)"
    and "streams_ok env s \<Longrightarrow> streams_ok env s'"
    and "identity s' = identity s" and "broadcasters s' = broadcasters s"
    and "subscribers s' = subscribers s"
    and "q < fresh (rstore s) \<Longrightarrow> get_r s' q = get_r s q"
proof -
  let ?n = "snd (NewRelayer s strmID opcode)"
  let ?m = "case logged of None \<Rightarrow> set_upstream ?n r up
            | Some l \<Rightarrow> log (E_LogRelay strmID l) (set_upstream ?n r up)"
  have s': "s' = AddListener env ?m r pid"
    using assms by (cases logged) (simp_all add: createRelayer_def NewRelayer_eq Let_def)
  have m: "relayers ?m = mput (relayers s) (relayerMapKey strmID opcode) r"
    "get_r ?m q = (if q = r then zero_relayer\<lparr>r_UpstreamPeer := up\<rparr> else get_r s q)"
    "sent_to env (hist ?m) = sent_to env (hist s)" "outStreams ?m = outStreams s"
    "identity ?m = identity s" "broadcasters ?m = broadcasters s" "subscribers ?m = subscribers s" for q
    using assms(2) by (auto simp: new_relayer_simps set_upstream_def split: option.split)
  obtain st t where g: "GetOutStream env ?m pid = (st, t)" by fastforce
  have gt: "get_r t q = get_r ?m q" for q by (rule io_frame_structs) (rule GetOutStream_frame [OF g])
  show "relayers s' = mput (relayers s) (relayerMapKey strmID opcode) r"
    "identity s' = identity s" "broadcasters s' = broadcasters s" "subscribers s' = subscribers s"
    unfolding s' AddListener_rel m by (rule refl)+
  show "r_UpstreamPeer (get_r s' r) = up"
    unfolding s' AddListener_upstream m by simp
  show "\<exists>st. r_listeners (get_r s' r) = [(IDHexEncode env pid, st)]"
    unfolding s' AddListener_def Let_def m g by (simp add: gt m)
  show "sent_to env (hist s') = sent_to env (hist s)"
    unfolding s' AddListener_quiet m by (rule refl)
  show "streams_ok env s'" if "streams_ok env s"
    using that AddListener_ok streams_ok_cong [OF m(4)] unfolding s' by blast
  show "get_r s' q = get_r s q" if "q < fresh (rstore s)"
    using that assms(2) AddListener_rel(11) [of q r env ?m pid] m(2) [of q] unfolding s' by simp
qed

lemma forward_frames:
  assumes "forward env rp op d ps s = (res, s')"
  shows "io_frame s s'" and "streams_ok env s \<Longrightarrow> streams_ok env s'"
  using assms tr.forward_frame tr.forward_ok unfolding forward_def by blast+

lemma forward_once:
  assumes "forward env rp op d ps s = (FwdSent p, s')" and "streams_ok env s"
  shows "p \<in> set ps \<and> p \<noteq> rp \<and> p \<noteq> identity s \<and> p \<noteq> []
     \<and> sent_to env (hist s') = (p, \<lparr>Op = op, Data = d\<rparr>) # sent_to env (hist s)"
  using assms tr.forward_sent unfolding forward_def by blast

lemma forward_silent:
  assumes "forward env rp op d ps s = (res, s')" and "\<forall>p. res \<noteq> FwdSent p"
  shows "sent_to env (hist s') = sent_to env (hist s)"
  using assms tr.forward_quiet unfolding forward_def by blast

section \<open>A subscription to a stream that this node does not know\<close>

text \<open>
  C16. A subscription that no broadcaster, relayer or subscriber of this node serves either has no
  effect on the streams at all, or leaves the node exactly once: to one peer that is neither the
  requester nor this node, and then the stream has a relayer with that peer upstream and the
  requester as its only listener.
\<close>

theorem subscription_forwarded_once:
  assumes "streams_ok env s" and "handleSub env s op strm d requester = (e, s')"
    and "mget (broadcasters s) strm = None" and "mget (relayers s) (relayerMapKey strm SubReqID) = None"
    and "mget (subscribers s) strm = None" and "extractNodeID env strm \<noteq> Inr (identity s)"
  shows "sent_to env (hist s') = sent_to env (hist s) \<and> relayers s' = relayers s
     \<or> (\<exists>p r st. e = None \<and> p \<noteq> requester \<and> p \<noteq> identity s
          \<and> sent_to env (hist s') = (p, \<lparr>Op = op, Data = d\<rparr>) # sent_to env (hist s)
          \<and> relayers s' = mput (relayers s) (relayerMapKey strm SubReqID) r
          \<and> r_UpstreamPeer (get_r s' r) = p
          \<and> r_listeners (get_r s' r) = [(IDHexEncode env requester, st)])"
proof (cases "ClosestLocalPeers env s strm")
  case (Inl err)
  with assms show ?thesis by (simp add: handleSub_def)
next
  case (Inr peers)
  obtain res s2 where f: "forward env requester op d peers s = (res, s2)" by fastforce
  note fr = forward_frames(1) [OF f]
  show ?thesis
  proof (cases "\<exists>p. res = FwdSent p")
    case True
    then obtain p where res: "res = FwdSent p" by blast
    have s': "s' = createRelayer env s2 strm SubReqID p (Some (IDHexEncode env p)) requester" "e = None"
      using assms Inr f res io_frameD(9) [OF fr] by (simp_all add: handleSub_def)
    from forward_once [OF f [unfolded res] assms(1)] createRelayer_spec [OF s'(1) refl]
      io_frameD(9) [OF fr] s'(2)
    show ?thesis by (intro disjI2) auto
  next
    case False
    then have "s' = s2"
      using assms Inr f by (cases res) (simp_all add: handleSub_def)
    with False forward_silent [OF f] io_frameD(9) [OF fr] show ?thesis by simp
  qed
qed

section \<open>A subscription at the broadcaster's node\<close>

text \<open>One segment sent outside the loop of the worker, over a stream of the requester.\<close>

lemma retry_nil_empty:
  assumes "no_empty_peer env"
  shows "\<exists>err s'. sendMessageWithRetry env s [] (Some (Basic None)) op d = (Some err, s')"
proof -
  obtain s1 where "RefreshOutStream env s [] = (None, s1)"
    using assms by (cases "RefreshOutStream env s []")
      (auto simp: RefreshOutStream_def Let_def no_empty_peer_def split: option.split_asm sum.split_asm)
  then show ?thesis
    by (simp add: sendMessageWithRetry_def SendMessage_def BasicSendMessage_def)
qed

lemma sendDataMsg_peer:
  assumes "streams_ok env s" "no_empty_peer env" and rem: "\<forall>sh. st = Some sh \<longrightarrow> RemotePeer env sh = q"
    and s1: "s1 = sendDataMsg env s b k (Basic st) (Some m)"
  shows "\<exists>good. sent_to env (hist s1) = (if good then [(q, \<lparr>Op = StreamDataID,
            Data = D_StreamData (stream_msg (get_b s b) m)\<rparr>)] else []) @ sent_to env (hist s)
      \<and> get_b s1 b = (if good then get_b s b
            else (get_b s b)\<lparr>b_listeners := mdel (b_listeners (get_b s b)) k\<rparr>)
      \<and> streams_ok env s1"
proof -
  let ?d = "D_StreamData (stream_msg (get_b s b) m)"
  obtain e s2 where sd: "sendMessageWithRetry env s (GetRemotePeer env (Basic st)) (Some (Basic st))
      StreamDataID ?d = (e, s2)" by fastforce
  have g: "get_b s2 b = get_b s b" by (rule io_frame_structs) (rule retry_frame [OF sd])
  have ok: "streams_ok env s2" by (rule retry_ok [OF sd assms(1)])
  show ?thesis
  proof (cases e)
    case None
    from retry_nil_empty [OF assms(2), of s StreamDataID ?d] None sd obtain sh where sh: "st = Some sh"
      by (cases st) (auto simp: GetRemotePeer_def)
    with rem sd None have "sent_to env (hist s2) = (q, \<lparr>Op = StreamDataID, Data = ?d\<rparr>) # sent_to env (hist s)"
      by (intro retry_delivers [OF _ assms(1)]) (auto simp: GetRemotePeer_def)
    with None sd g ok show ?thesis
      by (intro exI [of _ True]) (simp add: s1 sendDataMsg_def sendDataMsgWith_def)
  next
    case (Some err)
    with sd have "sent_to env (hist s2) = sent_to env (hist s)" by (auto dest: retry_fails)
    with Some sd g ok show ?thesis
      by (intro exI [of _ False]) (simp add: s1 sendDataMsg_def sendDataMsgWith_def)
  qed
qed

definition window_segs :: "StreamDataMsg option list \<Rightarrow> StreamDataMsg list" where
  "window_segs ms = map the (filter (\<lambda>m. m \<noteq> None) ms)"

lemma window_segs_simps [simp]:
  "window_segs [] = []" "window_segs (None # ms) = window_segs ms"
  "window_segs (Some m # ms) = m # window_segs ms"
  by (simp_all add: window_segs_def)

lemma sendLastMsgs_spec:
  assumes "streams_ok env s" "no_empty_peer env" and "k = IDHexEncode env q"
  shows "\<exists>ms. subseq ms (window_segs ws)
      \<and> sent_to env (hist (sendLastMsgs env b q ws s)) =
          map (\<lambda>m. (q, \<lparr>Op = StreamDataID, Data = D_StreamData (stream_msg (get_b s b) m)\<rparr>)) (rev ms)
          @ sent_to env (hist s)
      \<and> get_b (sendLastMsgs env b q ws s) b = (if ms = window_segs ws then get_b s b
            else (get_b s b)\<lparr>b_listeners := mdel (b_listeners (get_b s b)) k\<rparr>)"
  using assms(1)
proof (induction ws arbitrary: s)
  case Nil
  then show ?case by (intro exI [of _ "[]"]) simp
next
  case (Cons w ws)
  show ?case
  proof (cases w)
    case None
    with Cons show ?thesis by simp
  next
    case (Some m)
    obtain st s1 where g: "GetOutStream env s q = (st, s1)" by fastforce
    have g1: "get_b s1 b = get_b s b" by (rule io_frame_structs) (rule GetOutStream_frame [OF g])
    note ok1 = GetOutStream_ok [OF g Cons.prems]
    have rem: "\<forall>sh. st = Some sh \<longrightarrow> RemotePeer env sh = q"
      using GetOutStream_remote g Cons.prems by blast
    define s2 where "s2 = sendDataMsg env s1 b k (Basic st) (Some m)"
    from sendDataMsg_peer [OF ok1 assms(2) rem s2_def] obtain good where
      d2: "sent_to env (hist s2) = (if good then [(q, \<lparr>Op = StreamDataID,
            Data = D_StreamData (stream_msg (get_b s b) m)\<rparr>)] else []) @ sent_to env (hist s)"
      and b2: "get_b s2 b = (if good then get_b s b
            else (get_b s b)\<lparr>b_listeners := mdel (b_listeners (get_b s b)) k\<rparr>)"
      and ok2: "streams_ok env s2"
      unfolding g1 GetOutStream_silent [OF g] by blast
    have run: "sendLastMsgs env b q (w # ws) s = sendLastMsgs env b q ws (log E_Sleep s2)"
      using Some g assms(3) by (simp add: s2_def)
    have sm: "stream_msg (get_b (log E_Sleep s2) b) = stream_msg (get_b s b)"
      by (simp add: b2 stream_msg_def fun_eq_iff)
    from Cons.IH [of "log E_Sleep s2"] ok2 obtain ms where ms: "subseq ms (window_segs ws)"
      "sent_to env (hist (sendLastMsgs env b q ws (log E_Sleep s2))) =
          map (\<lambda>m. (q, \<lparr>Op = StreamDataID, Data = D_StreamData (stream_msg (get_b s b) m)\<rparr>)) (rev ms)
          @ sent_to env (hist s2)"
      "get_b (sendLastMsgs env b q ws (log E_Sleep s2)) b = (if ms = window_segs ws then get_b s2 b
            else (get_b s2 b)\<lparr>b_listeners := mdel (b_listeners (get_b s2 b)) k\<rparr>)"
      unfolding sm by auto
    have len: "length ms \<le> length (window_segs ws)"
      using ms(1) by (rule list_emb_length)
    show ?thesis
    proof (cases good)
      case True
      with ms d2 b2 Some run show ?thesis by (intro exI [of _ "m # ms"]) simp
    next
      case False
      have "ms \<noteq> m # window_segs ws" using len by auto
      then show ?thesis
        using False ms d2 b2 Some run by (intro exI [of _ ms]) auto
    qed
  qed
qed

lemma AddListeningPeer_spec:
  shows "sent_to env (hist (AddListeningPeer env s b q)) = sent_to env (hist s)"
    and "streams_ok env s \<Longrightarrow> streams_ok env (AddListeningPeer env s b q)"
    and "b_lastMsgs (get_b (AddListeningPeer env s b q) b) = b_lastMsgs (get_b s b)"
    and "b_StrmID (get_b (AddListeningPeer env s b q) b) = b_StrmID (get_b s b)"
    and "mget (b_listeners (get_b (AddListeningPeer env s b q) b)) k =
       (if k = IDHexEncode env q \<and> mget (b_listeners (get_b s b)) k = None
        then Some (Basic (fst (GetOutStream env s q))) else mget (b_listeners (get_b s b)) k)"
proof -
  obtain st s1 where g: "GetOutStream env s q = (st, s1)" by fastforce
  have g1: "get_b s1 p = get_b s p" for p by (rule io_frame_structs) (rule GetOutStream_frame [OF g])
  note facts = g1 GetOutStream_silent [OF g] GetOutStream_ok [OF g]
  show "sent_to env (hist (AddListeningPeer env s b q)) = sent_to env (hist s)"
    "streams_ok env s \<Longrightarrow> streams_ok env (AddListeningPeer env s b q)"
    "b_lastMsgs (get_b (AddListeningPeer env s b q) b) = b_lastMsgs (get_b s b)"
    "b_StrmID (get_b (AddListeningPeer env s b q) b) = b_StrmID (get_b s b)"
    "mget (b_listeners (get_b (AddListeningPeer env s b q) b)) k =
       (if k = IDHexEncode env q \<and> mget (b_listeners (get_b s b)) k = None
        then Some (Basic (fst (GetOutStream env s q))) else mget (b_listeners (get_b s b)) k)"
    using g facts by (auto simp: AddListeningPeer_def Let_def split: option.split)
qed

text \<open>
  C19. A subscription at the node that broadcasts the stream: the requester is sent segments of the
  window only, in the order they were broadcast and under the stream's id, each at most once. It
  ends up registered as a listener exactly when every segment of the window could be sent; no
  other listener changes.
\<close>

theorem subscription_replays_window:
  assumes "streams_ok env s" and "no_empty_peer env"
    and "mget (broadcasters s) strm = Some b" and "handleSub env s op strm d requester = (e, s')"
  shows "\<exists>ms. e = None \<and> subseq ms (window_segs (b_lastMsgs (get_b s b)))
      \<and> sent_to env (hist s') =
          map (\<lambda>m. (requester, \<lparr>Op = StreamDataID, Data = D_StreamData (stream_msg (get_b s b) m)\<rparr>)) (rev ms)
          @ sent_to env (hist s)
      \<and> (mget (b_listeners (get_b s' b)) (IDHexEncode env requester) \<noteq> None
          \<longleftrightarrow> ms = window_segs (b_lastMsgs (get_b s b)))
      \<and> (\<forall>k. k \<noteq> IDHexEncode env requester \<longrightarrow>
          mget (b_listeners (get_b s' b)) k = mget (b_listeners (get_b s b)) k)"
proof -
  let ?s1 = "AddListeningPeer env s b requester"
  have s': "e = None" "s' = sendLastMsgs env b requester (b_lastMsgs (get_b s b)) ?s1"
    using assms(3,4) by (simp_all add: handleSub_def Let_def AddListeningPeer_spec(3))
  have sm: "stream_msg (get_b ?s1 b) = stream_msg (get_b s b)"
    by (simp add: stream_msg_def fun_eq_iff AddListeningPeer_spec(4))
  note l1 = AddListeningPeer_spec(5) [of env s b requester]
  have "\<exists>ms. subseq ms (window_segs (b_lastMsgs (get_b s b)))
      \<and> sent_to env (hist s') =
          map (\<lambda>m. (requester, \<lparr>Op = StreamDataID, Data = D_StreamData (stream_msg (get_b s b) m)\<rparr>)) (rev ms)
          @ sent_to env (hist s)
      \<and> get_b s' b = (if ms = window_segs (b_lastMsgs (get_b s b)) then get_b ?s1 b
        else (get_b ?s1 b)\<lparr>b_listeners := mdel (b_listeners (get_b ?s1 b)) (IDHexEncode env requester)\<rparr>)"
    using sendLastMsgs_spec [OF AddListeningPeer_spec(2) [OF assms(1), of b requester] assms(2) refl,
        where q = requester and b = b and ws = "b_lastMsgs (get_b s b)"]
    by (simp only: sm AddListeningPeer_spec(1) s'(2))
  then obtain ms where ms: "subseq ms (window_segs (b_lastMsgs (get_b s b)))"
    "sent_to env (hist s') =
          map (\<lambda>m. (requester, \<lparr>Op = StreamDataID, Data = D_StreamData (stream_msg (get_b s b) m)\<rparr>)) (rev ms)
          @ sent_to env (hist s)"
    and b': "get_b s' b = (if ms = window_segs (b_lastMsgs (get_b s b)) then get_b ?s1 b
        else (get_b ?s1 b)\<lparr>b_listeners := mdel (b_listeners (get_b ?s1 b)) (IDHexEncode env requester)\<rparr>)"
    by blast
  have "mget (b_listeners (get_b s' b)) (IDHexEncode env requester) \<noteq> None
      \<longleftrightarrow> ms = window_segs (b_lastMsgs (get_b s b))"
    unfolding b' by (simp add: l1)
  moreover have "mget (b_listeners (get_b s' b)) k = mget (b_listeners (get_b s b)) k"
    if "k \<noteq> IDHexEncode env requester" for k
    unfolding b' using that by (simp add: l1)
  ultimately show ?thesis using ms s'(1) by blast
qed

section \<open>Subscriptions to a stream that is relayed already\<close>

lemma handleSub_relayed:
  assumes "mget (broadcasters s) strm = None" "mget (relayers s) (relayerMapKey strm SubReqID) = Some r"
  shows "handleSub env s op strm d q = (None, AddListener env s r q)"
  using assms by (simp add: handleSub_def)

text \<open>
  C17. Aggregation: once a stream has a relayer, any number of further subscriptions, from any
  peers, sends nothing upstream and creates no relayer; the upstream peer stays, and the listeners
  are the old ones and the new requesters.
\<close>

theorem later_subscriptions_join:
  assumes "mget (broadcasters s) strm = None"
    and "mget (relayers s) (relayerMapKey strm SubReqID) = Some r"
    and "s' = fold (\<lambda>q s. snd (handleSub env s op strm d q)) qs s"
  shows "sent_to env (hist s') = sent_to env (hist s) \<and> relayers s' = relayers s
     \<and> r_UpstreamPeer (get_r s' r) = r_UpstreamPeer (get_r s r)
     \<and> {k. mget (r_listeners (get_r s' r)) k \<noteq> None}
         = {k. mget (r_listeners (get_r s r)) k \<noteq> None} \<union> IDHexEncode env ` set qs"
  using assms
proof (induction qs arbitrary: s)
  case Nil
  then show ?case by simp
next
  case (Cons q qs)
  let ?s1 = "AddListener env s r q"
  have "mget (broadcasters ?s1) strm = None" "mget (relayers ?s1) (relayerMapKey strm SubReqID) = Some r"
    using Cons.prems by (simp_all add: AddListener_rel)
  moreover have "s' = fold (\<lambda>q s. snd (handleSub env s op strm d q)) qs ?s1"
    using Cons.prems handleSub_relayed [OF Cons.prems(1,2)] by simp
  moreover have "{k. mget (r_listeners (get_r ?s1 r)) k \<noteq> None}
      = insert (IDHexEncode env q) {k. mget (r_listeners (get_r s r)) k \<noteq> None}"
    by (auto simp: AddListener_listeners split: if_splits)
  ultimately show ?case using Cons.IH [of ?s1] by (simp add: AddListener_rel)
qed

section \<open>Streams of this node that it does not broadcast\<close>

text \<open>
  A subscription to a stream whose id names this node, but which it does not broadcast, is not
  forwarded: the only message that may leave is the end of that stream, to the requester, and no
  relayer is made.
\<close>

theorem own_unknown_stream_finished:
  assumes "streams_ok env s" and "handleSub env s op strm d requester = (e, s')"
    and "mget (broadcasters s) strm = None" and "mget (relayers s) (relayerMapKey strm SubReqID) = None"
    and "mget (subscribers s) strm = None" and "extractNodeID env strm = Inr (identity s)"
  shows "relayers s' = relayers s \<and> (sent_to env (hist s') = sent_to env (hist s)
     \<or> sent_to env (hist s') =
         (requester, \<lparr>Op = FinishStreamID, Data = D_FinishStream \<lparr>fs_StrmID = strm\<rparr>\<rparr>) # sent_to env (hist s))"
proof (cases "ClosestLocalPeers env s strm")
  case (Inl err)
  with assms show ?thesis by (simp add: handleSub_def)
next
  case (Inr peers)
  obtain st s2 where g: "GetOutStream env s requester = (st, s2)" by fastforce
  note g1 = GetOutStream_silent [OF g] io_frameD(9) [OF GetOutStream_frame [OF g]]
  show ?thesis
  proof (cases st)
    case None
    with assms Inr g g1 show ?thesis by (simp add: handleSub_def)
  next
    case (Some sh)
    obtain e' s3 where sd: "sendMessageWithRetry env s2 requester (Some (Basic (Some sh)))
        FinishStreamID (D_FinishStream \<lparr>fs_StrmID = strm\<rparr>) = (e', s3)" by fastforce
    have s': "s' = s3" using assms Inr g sd Some by (simp add: handleSub_def)
    have "RemotePeer env sh = requester" using GetOutStream_remote g Some assms(1) by blast
    with retry_delivers [of env s2 requester "Some sh"] sd GetOutStream_ok [OF g assms(1)]
    have "e' = None \<Longrightarrow> sent_to env (hist s3) = (requester,
        \<lparr>Op = FinishStreamID, Data = D_FinishStream \<lparr>fs_StrmID = strm\<rparr>\<rparr>) # sent_to env (hist s2)" by auto
    with retry_fails [of env s2 requester] sd g1 s' io_frameD(9) [OF retry_frame [OF sd]]
    show ?thesis by (cases e') auto
  qed
qed

text \<open>
  The comment of \<^verbatim>\<open>handleSub\<close> says that the request is forwarded only when there is
  no local subscriber. A node with a subscriber makes a relayer whose upstream peer is the
  subscriber's, and then forwards the request all the same: to a peer that need not be that
  upstream peer, so the node may receive the stream twice.
\<close>

theorem subscriber_node_forwards_again:
  assumes "streams_ok env s" and "mget (broadcasters s) strm = None"
    and "mget (relayers s) (relayerMapKey strm SubReqID) = None"
    and "mget (subscribers s) strm = Some sp" and "extractNodeID env strm \<noteq> Inr (identity s)"
    and "s1 = createRelayer env s strm SubReqID (s_UpstreamPeer (get_s s sp))
           (Some (IDHexEncode env requester)) requester"
    and "ClosestLocalPeers env s1 strm = Inr peers"
    and "forward env requester op d peers s1 = (FwdSent p, s2)"
  shows "handleSub env s op strm d requester = (None, AddListener env s2 (fresh (rstore s)) requester)
     \<and> sent_to env (hist (AddListener env s2 (fresh (rstore s)) requester))
         = (p, \<lparr>Op = op, Data = d\<rparr>) # sent_to env (hist s)
     \<and> r_UpstreamPeer (get_r (AddListener env s2 (fresh (rstore s)) requester) (fresh (rstore s)))
         = s_UpstreamPeer (get_s s sp)"
proof -
  note c = createRelayer_spec [OF assms(6) refl]
  note fr = io_frameD [OF forward_frames(1) [OF assms(8)]] io_frame_structs [OF forward_frames(1) [OF assms(8)]]
  have m: "mget (relayers s2) (relayerMapKey strm SubReqID) = Some (fresh (rstore s))"
    by (simp add: fr c)
  have "handleSub env s op strm d requester = (None, AddListener env s2 (fresh (rstore s)) requester)"
    using assms(5) by (simp add: handleSub_def assms(2-4) assms(6) [symmetric] assms(7,8) c(6) m)
  moreover have "sent_to env (hist s2) = (p, \<lparr>Op = op, Data = d\<rparr>) # sent_to env (hist s)"
    using forward_once [OF assms(8)] c(4,5) assms(1) by simp
  ultimately show ?thesis by (simp add: fr c(2))
qed

section \<open>Cancelling\<close>

text \<open>The message that a relayer without listeners passes on to its upstream peer.\<close>

definition pass_on :: "env \<Rightarrow> node \<Rightarrow> peerID \<Rightarrow> CancelSubMsg \<Rightarrow> node" where
  "pass_on env s up cr =
     (case GetOutStream env s up of
        (None, s1) \<Rightarrow> s1
      | (Some ns, s1) \<Rightarrow>
          snd (sendMessageWithRetry env s1 up (Some (Basic (Some ns))) CancelSubID (D_CancelSub cr)))"

lemma pass_on_spec:
  assumes "streams_ok env s" and "s' = pass_on env s up cr"
  shows "io_frame s s'"
    and "sent_to env (hist s') = sent_to env (hist s)
      \<or> sent_to env (hist s') = (up, \<lparr>Op = CancelSubID, Data = D_CancelSub cr\<rparr>) # sent_to env (hist s)"
proof -
  obtain st s1 where g: "GetOutStream env s up = (st, s1)" by fastforce
  have "io_frame s s' \<and> (sent_to env (hist s') = sent_to env (hist s)
      \<or> sent_to env (hist s') = (up, \<lparr>Op = CancelSubID, Data = D_CancelSub cr\<rparr>) # sent_to env (hist s))"
  proof (cases st)
    case None
    with g assms GetOutStream_frame [OF g] GetOutStream_silent [OF g] show ?thesis
      by (simp add: pass_on_def)
  next
    case (Some sh)
    obtain e s2 where sd: "sendMessageWithRetry env s1 up (Some (Basic (Some sh))) CancelSubID
        (D_CancelSub cr) = (e, s2)" by fastforce
    have "RemotePeer env sh = up" using GetOutStream_remote g Some assms(1) by blast
    with retry_delivers [of env s1 up "Some sh"] sd GetOutStream_ok [OF g assms(1)]
    have d: "e = None \<Longrightarrow> sent_to env (hist s2) =
        (up, \<lparr>Op = CancelSubID, Data = D_CancelSub cr\<rparr>) # sent_to env (hist s1)" by auto
    have "s' = s2" using g Some sd assms(2) by (simp add: pass_on_def)
    with d retry_fails [of env s1 up] sd GetOutStream_silent [OF g]
      io_frame_trans [OF GetOutStream_frame [OF g] retry_frame [OF sd]]
    show ?thesis by (cases e) auto
  qed
  then show "io_frame s s'" "sent_to env (hist s') = sent_to env (hist s)
      \<or> sent_to env (hist s') = (up, \<lparr>Op = CancelSubID, Data = D_CancelSub cr\<rparr>) # sent_to env (hist s)"
    by blast+
qed

text \<open>The relayer branch of \<^verbatim>\<open>handleCancelSubReq\<close> with its last step named.\<close>

lemma cancel_relayer_eq:
  assumes "mget (broadcasters s) (cs_StrmID cr) = None"
    and "mget (relayers s) (relayerMapKey (cs_StrmID cr) SubReqID) = Some r"
    and "L = mdel (r_listeners (get_r s r)) (IDHexEncode env q)"
    and "s2 = log (E_RemoveRelay (cs_StrmID cr)) (put_r s r ((get_r s r)\<lparr>r_listeners := L\<rparr>))"
    and "s4 = pass_on env s2 (r_UpstreamPeer (get_r s r)) cr"
  shows "handleCancelSubReq env s cr q =
     (None, if L = [] then
              if mget (subscribers s4) (cs_StrmID cr) = None
              then s4\<lparr>relayers := mdel (relayers s4) (relayerMapKey (cs_StrmID cr) SubReqID)\<rparr> else s4
            else s2)"
  unfolding assms(3-5) by (simp add: handleCancelSubReq_def Let_def assms(1,2) flip: pass_on_def)


text \<open>
  C38. The comment in \<^verbatim>\<open>handleCancelSubReq\<close> asks for the opposite of what it does when
  this node still has a subscriber: the cancellation should not be passed on and the relayer should
  be removed. The code cancels upstream, which ends the subscriber's own supply, and keeps a
  relayer without listeners.
\<close>

theorem cancel_cuts_own_subscriber:
  assumes "streams_ok env s" and "mget (broadcasters s) (cs_StrmID cr) = None"
    and "mget (relayers s) (relayerMapKey (cs_StrmID cr) SubReqID) = Some r"
    and "mget (subscribers s) (cs_StrmID cr) = Some sp"
    and "r_listeners (get_r s r) = [(IDHexEncode env q, l)]"
    and "mget (outStreams s) (r_UpstreamPeer (get_r s r)) = Some sh"
    and "\<forall>h b. EncodeTo env h sh b = None \<and> FlushTo env h sh = None"
    and "MarshalJSON env \<lparr>Op = CancelSubID, Data = D_CancelSub cr\<rparr> = Inr bs"
    and "handleCancelSubReq env s cr q = (e, s')"
  shows "sent_to env (hist s') =
      (r_UpstreamPeer (get_r s r), \<lparr>Op = CancelSubID, Data = D_CancelSub cr\<rparr>) # sent_to env (hist s)
     \<and> mget (relayers s') (relayerMapKey (cs_StrmID cr) SubReqID) = Some r
     \<and> r_listeners (get_r s' r) = [] \<and> mget (subscribers s') (cs_StrmID cr) = Some sp"
proof -
  define s2 where "s2 = log (E_RemoveRelay (cs_StrmID cr)) (put_r s r ((get_r s r)\<lparr>r_listeners := []\<rparr>))"
  define s4 where "s4 = pass_on env s2 (r_UpstreamPeer (get_r s r)) cr"
  have L: "[] = mdel (r_listeners (get_r s r)) (IDHexEncode env q)"
    by (simp add: assms(5) mdel_def)
  have ok: "streams_ok env s2" using assms(1) by (simp add: s2_def)
  have "RemotePeer env sh = r_UpstreamPeer (get_r s r)"
    using assms(1,6) by (simp add: streams_ok_def)
  then have snt: "sent_to env (hist s4) =
      (r_UpstreamPeer (get_r s r), \<lparr>Op = CancelSubID, Data = D_CancelSub cr\<rparr>) # sent_to env (hist s)"
    using assms(6,7,8)
    by (simp add: s4_def s2_def pass_on_def GetOutStream_def sendMessageWithRetry_def SendMessage_def
        BasicSendMessage_def encodeAndFlush_def Let_def)
  note fr = pass_on_spec(1) [OF ok s4_def]
  have "s' = s4"
    using cancel_relayer_eq [OF assms(2,3) L s2_def s4_def] assms(4,9) io_frameD(5) [OF fr]
    by (simp add: s2_def)
  with snt io_frameD [OF fr] io_frame_structs [OF fr] assms(3,4) show ?thesis by (simp add: s2_def)
qed

section \<open>Stream data and the end of a stream\<close>

text \<open>The relayer of a stream, if there is one, has a well-formed list without nil streams.\<close>

definition relayer_ready :: "node \<Rightarrow> string \<Rightarrow> bool" where
  "relayer_ready s key =
     (case mget (relayers s) key of
        None \<Rightarrow> True
      | Some r \<Rightarrow> mwf (r_listeners (get_r s r)) \<and> no_nil_listener (get_r s r))"

lemma relayer_ready_cong:
  "relayers t = relayers s \<Longrightarrow> (\<And>r. get_r t r = get_r s r) \<Longrightarrow> relayer_ready t key = relayer_ready s key"
  by (simp add: relayer_ready_def split: option.split)

text \<open>The peers behind a list of a relayer's keys.\<close>

definition listener_peers :: "env \<Rightarrow> BasicRelayer \<Rightarrow> string list \<Rightarrow> peerID list" where
  "listener_peers env r ks = map (\<lambda>k. RemotePeer env (the (the (mget (r_listeners r) k)))) ks"

lemma relay_ready_result:
  assumes "streams_ok env s" "range_permutes env" "mget (relayers s) key = Some r" "relayer_ready s key"
  shows "\<exists>s' order. relay env op d cnt s r = Returns (None, s') \<and> rel_frame r s s'
      \<and> distinct order \<and> set order = {k. mget (r_listeners (get_r s' r)) k \<noteq> None}
      \<and> sent_to env (hist s') = map (\<lambda>q. (q, \<lparr>Op = op, Data = d\<rparr>)) (listener_peers env (get_r s r) order)
          @ sent_to env (hist s)"
  using relay_result [OF assms(1,2), of r op d cnt] assms(3,4)
  by (auto simp: relayer_ready_def listener_peers_def comp_def)

text \<open>
  C20. A segment that arrives is handed to the local subscriber, if there is one, and relayed once to
  every listener of the stream's relayer that remains, if there is one; the handler reports an error
  exactly when there is neither.
\<close>

theorem stream_data_served:
  assumes "streams_ok env s" and "range_permutes env"
    and "relayer_ready s (relayerMapKey (sd_StrmID sd) SubReqID)"
  shows "\<exists>e s' order. handleStreamData env s q sd = Returns (e, s')
      \<and> (e = None \<longleftrightarrow> mget (subscribers s) (sd_StrmID sd) \<noteq> None
            \<or> mget (relayers s) (relayerMapKey (sd_StrmID sd) SubReqID) \<noteq> None)
      \<and> (case mget (subscribers s) (sd_StrmID sd) of None \<Rightarrow> True | Some p \<Rightarrow> GO_Insert p sd \<in> set (gos s'))
      \<and> (case mget (relayers s) (relayerMapKey (sd_StrmID sd) SubReqID) of
           None \<Rightarrow> sent_to env (hist s') = sent_to env (hist s)
         | Some r \<Rightarrow> distinct order \<and> set order = {k. mget (r_listeners (get_r s' r)) k \<noteq> None}
             \<and> sent_to env (hist s') =
                 map (\<lambda>p. (p, \<lparr>Op = StreamDataID, Data = D_StreamData sd\<rparr>)) (listener_peers env (get_r s r) order)
                 @ sent_to env (hist s))"
proof -
  let ?key = "relayerMapKey (sd_StrmID sd) SubReqID"
  let ?sub = "mget (subscribers s) (sd_StrmID sd)"
  define s1 where "s1 = (case ?sub of None \<Rightarrow> s | Some p \<Rightarrow> spawn (GO_Insert p sd) s)"
  have s1: "streams_ok env s1" "relayers s1 = relayers s" "sent_to env (hist s1) = sent_to env (hist s)"
    "get_r s1 r = get_r s r" "case ?sub of None \<Rightarrow> True | Some p \<Rightarrow> GO_Insert p sd \<in> set (gos s1)" for r
    using assms(1) by (simp_all add: s1_def split: option.split)
  have eq: "handleStreamData env s q sd = (case mget (relayers s1) ?key of
      Some r \<Rightarrow> map_outcome (\<lambda>(err, s2). (if err \<noteq> None then Some ErrHandleMsg else None, s2))
                  (RelayStreamData env s1 r sd)
    | None \<Rightarrow> Returns (if ?sub = None then Some ErrHandleMsg else None, s1))"
    by (simp add: handleStreamData_def getSubscriber_def InsertData_def s1_def split: option.split)
  show ?thesis
  proof (cases "mget (relayers s) ?key")
    case None
    with eq s1 show ?thesis by auto
  next
    case (Some r)
    have rr: "relayer_ready s1 ?key" using assms(3) relayer_ready_cong [OF s1(2,4)] by blast
    from relay_ready_result [OF s1(1) assms(2) _ rr, of r StreamDataID "D_StreamData sd" True] Some s1(2)
    obtain s' order where run: "RelayStreamData env s1 r sd = Returns (None, s')" and fr: "rel_frame r s1 s'"
      and ord: "distinct order" "set order = {k. mget (r_listeners (get_r s' r)) k \<noteq> None}"
      and snt: "sent_to env (hist s') = map (\<lambda>q. (q, \<lparr>Op = StreamDataID, Data = D_StreamData sd\<rparr>))
          (listener_peers env (get_r s1 r) order) @ sent_to env (hist s1)"
      unfolding RelayStreamData_def by auto
    have "set (gos s1) \<subseteq> set (gos s')" using fr by (auto simp: rel_frame_def)
    with s1(5) have "case ?sub of None \<Rightarrow> True | Some p \<Rightarrow> GO_Insert p sd \<in> set (gos s')"
      by (auto split: option.splits)
    with eq run Some s1 ord snt show ?thesis
      by (intro exI [of _ None] exI [of _ s'] exI [of _ order]) simp
  qed
qed

lemma cancel_opt_fields [simp]:
  "hist (cancel_opt c s) = hist s" "outStreams (cancel_opt c s) = outStreams s"
  "identity (cancel_opt c s) = identity s" "broadcasters (cancel_opt c s) = broadcasters s"
  "subscribers (cancel_opt c s) = subscribers s" "relayers (cancel_opt c s) = relayers s"
  "get_r (cancel_opt c s) p = get_r s p" "get_b (cancel_opt c s) p = get_b s p"
  "get_s (cancel_opt c s) p = get_s s p" "gos (cancel_opt c s) = gos s"
  by (simp_all add: cancel_opt_def cancel_def split: option.split)

lemma Unsubscribe_spec:
  "relayers (Unsubscribe s p) = relayers s" "get_r (Unsubscribe s p) r = get_r s r"
  "outStreams (Unsubscribe s p) = outStreams s"
  "subscribers (Unsubscribe s p) = mdel (subscribers s) (s_StrmID (get_s s p))"
  "sent_to env (hist (Unsubscribe s p)) = sent_to env (hist s)"
  "s_cancelWorker (get_s s p) = Some c \<Longrightarrow> cancelled (Unsubscribe s p) c"
  by (auto simp: Unsubscribe_def Let_def cancel_opt_def cancel_def cancelled_def split: option.split)

text \<open>
  C21. The end of a stream removes its subscriber and its relayer from the node, whatever else
  happens, cancels the subscriber's worker, and passes the message on once to every listener that
  could be reached; the handler reports an error exactly when there was neither.
\<close>

theorem finish_stream_cleans_up:
  assumes "streams_ok env s" and "range_permutes env"
    and "relayer_ready s (relayerMapKey (fs_StrmID fs) SubReqID)"
  shows "\<exists>e s' order. handleFinishStream env s fs = Returns (e, s')
      \<and> (e = None \<longleftrightarrow> mget (subscribers s) (fs_StrmID fs) \<noteq> None
            \<or> mget (relayers s) (relayerMapKey (fs_StrmID fs) SubReqID) \<noteq> None)
      \<and> mget (subscribers s') (fs_StrmID fs) = None
      \<and> relayers s' = mdel (relayers s) (relayerMapKey (fs_StrmID fs) SubReqID)
      \<and> (case mget (subscribers s) (fs_StrmID fs) of None \<Rightarrow> True
         | Some p \<Rightarrow> (case s_cancelWorker (get_s s p) of None \<Rightarrow> True | Some c \<Rightarrow> cancelled s' c))
      \<and> (case mget (relayers s) (relayerMapKey (fs_StrmID fs) SubReqID) of
           None \<Rightarrow> sent_to env (hist s') = sent_to env (hist s)
         | Some r \<Rightarrow> distinct order \<and> set order = {k. mget (r_listeners (get_r s' r)) k \<noteq> None}
             \<and> sent_to env (hist s') =
                 map (\<lambda>p. (p, \<lparr>Op = FinishStreamID, Data = D_FinishStream fs\<rparr>)) (listener_peers env (get_r s r) order)
                 @ sent_to env (hist s))"
proof -
  let ?strm = "fs_StrmID fs"
  let ?key = "relayerMapKey ?strm SubReqID"
  let ?sub = "mget (subscribers s) ?strm"
  define s1 where "s1 = (case ?sub of None \<Rightarrow> s
    | Some p \<Rightarrow> (Unsubscribe s p)\<lparr>subscribers := mdel (subscribers (Unsubscribe s p)) ?strm\<rparr>)"
  let ?can = "\<lambda>t. case ?sub of None \<Rightarrow> True
      | Some p \<Rightarrow> (case s_cancelWorker (get_s s p) of None \<Rightarrow> True | Some c \<Rightarrow> cancelled t c)"
  have s1: "streams_ok env s1" "relayers s1 = relayers s" "sent_to env (hist s1) = sent_to env (hist s)"
    "get_r s1 r = get_r s r" "mget (subscribers s1) ?strm = None" "?can s1" for r
    using assms(1) Unsubscribe_spec(6) [of s]
    by (auto simp: s1_def Unsubscribe_spec(1-5) streams_ok_def split: option.split)
  have eq: "handleFinishStream env s fs = (case mget (relayers s1) ?key of
      Some r \<Rightarrow> map_outcome (\<lambda>(_, s2). (None, log (E_RemoveRelay ?strm) (s2\<lparr>relayers := mdel (relayers s2) ?key\<rparr>)))
               (RelayFinishStream env s1 r fs)
    | None \<Rightarrow> Returns (if ?sub = None then Some ErrHandleMsg else None, s1))"
    unfolding handleFinishStream_def Let_def s1_def by (rule refl)
  show ?thesis
  proof (cases "mget (relayers s) ?key")
    case None
    then have "mdel (relayers s) ?key = relayers s" by (simp add: mdel_def mget_def delete_id map_of_eq_None_iff)
    with None eq s1 show ?thesis by auto
  next
    case (Some r)
    have rr: "relayer_ready s1 ?key" using assms(3) relayer_ready_cong [OF s1(2,4)] by blast
    from relay_ready_result [OF s1(1) assms(2) _ rr, of r FinishStreamID "D_FinishStream fs" False] Some s1(2)
    obtain s2 order where run: "RelayFinishStream env s1 r fs = Returns (None, s2)" and fr: "rel_frame r s1 s2"
      and ord: "distinct order" "set order = {k. mget (r_listeners (get_r s2 r)) k \<noteq> None}"
      and snt: "sent_to env (hist s2) = map (\<lambda>q. (q, \<lparr>Op = FinishStreamID, Data = D_FinishStream fs\<rparr>))
          (listener_peers env (get_r s1 r) order) @ sent_to env (hist s1)"
      unfolding RelayFinishStream_def by auto
    let ?s' = "log (E_RemoveRelay ?strm) (s2\<lparr>relayers := mdel (relayers s2) ?key\<rparr>)"
    have run': "handleFinishStream env s fs = Returns (None, ?s')" using eq run Some s1(2) by simp
    have c: "cancelled s2 c = cancelled s1 c" for c using rel_frameD(7) [OF fr] by (simp add: cancelled_def)
    show ?thesis
      by (intro exI [of _ None] exI [of _ ?s'] exI [of _ order])
        (use run' Some s1 ord snt rel_frameD(3,4) [OF fr] in \<open>simp add: c cong: option.case_cong\<close>)
  qed
qed

section \<open>Witnesses\<close>

text \<open>A segment of peer B's stream, and a subscription to the stream.\<close>

definition demo_seg :: StreamDataMsg where
  "demo_seg = \<lparr>sd_SeqNo = 1, sd_StrmID = demo_strm, sd_Data = ''x''\<rparr>"

abbreviation demo_handleSub :: "node \<Rightarrow> peerID \<Rightarrow> go_error option \<times> node" where
  "demo_handleSub s q \<equiv> handleSub demo_env s SubReqID demo_strm (D_SubReq \<lparr>sr_StrmID = demo_strm\<rparr>) q"

lemma subscription_forwarded_once_witness:
  "sent_to demo_env (hist (snd (demo_handleSub demo_node pA))) = []
   \<or> (\<exists>p r. p \<noteq> pA \<and> mget (relayers (snd (demo_handleSub demo_node pA))) (relayerMapKey demo_strm SubReqID) = Some r
        \<and> r_UpstreamPeer (get_r (snd (demo_handleSub demo_node pA)) r) = p)"
  using subscription_forwarded_once [of demo_env demo_node SubReqID demo_strm
      "D_SubReq \<lparr>sr_StrmID = demo_strm\<rparr>" pA "fst (demo_handleSub demo_node pA)" "snd (demo_handleSub demo_node pA)"]
  by auto

text \<open>The demonstration node as a broadcaster with one segment in its window.\<close>

lemma subscription_replays_window_witness:
  "\<exists>ms. subseq ms [\<lparr>sd_SeqNo = 1, sd_StrmID = [], sd_Data = ''x''\<rparr>]
     \<and> length (sent_to demo_env (hist (snd (handleSub demo_env demo_bcast SubReqID ''s'' D_Nil pB))))
        = length ms + length (sent_to demo_env (hist demo_bcast))"
proof -
  have b: "mget (broadcasters demo_bcast) ''s'' = Some 0"
    by (simp add: demo_bcast_def Let_def Broadcast_def startBroadcastWorker_def with_cancel_def
        snew_def GetBroadcaster_new AddListeningPeer_def AddListeningStream_def
        GetOutStream_def RefreshOutStream_def)
  have w: "window_segs (b_lastMsgs (get_b demo_bcast 0)) = [\<lparr>sd_SeqNo = 1, sd_StrmID = [], sd_Data = ''x''\<rparr>]"
    by (simp add: demo_bcast_def Let_def Broadcast_lastMsgs GetBroadcaster_new AddListeningPeer_def
        AddListeningStream_def GetOutStream_def RefreshOutStream_def DefaultBroadcasterBufferSize_def
        numeral_3_eq_3)
  from subscription_replays_window [OF demo_bcast_ok(1) demo_no_empty b, of SubReqID D_Nil pB
      "fst (handleSub demo_env demo_bcast SubReqID ''s'' D_Nil pB)"
      "snd (handleSub demo_env demo_bcast SubReqID ''s'' D_Nil pB)"]
  obtain ms where ms: "subseq ms [\<lparr>sd_SeqNo = 1, sd_StrmID = [], sd_Data = ''x''\<rparr>]"
    "sent_to demo_env (hist (snd (handleSub demo_env demo_bcast SubReqID ''s'' D_Nil pB))) =
      map (\<lambda>m. (pB, \<lparr>Op = StreamDataID, Data = D_StreamData (stream_msg (get_b demo_bcast 0) m)\<rparr>)) (rev ms)
      @ sent_to demo_env (hist demo_bcast)"
    unfolding w by auto
  then show ?thesis by (intro exI [of _ ms]) simp
qed

definition demo_relaying :: node where
  "demo_relaying = createRelayer demo_env demo_node demo_strm SubReqID pB None pA"

lemma demo_relaying_facts [simp]:
  "relayers demo_relaying = [(relayerMapKey demo_strm SubReqID, 0)]" "broadcasters demo_relaying = []"
  "subscribers demo_relaying = []" "r_listeners (get_r demo_relaying 0) = [(pA, Some 1)]"
  "r_UpstreamPeer (get_r demo_relaying 0) = pB" "outStreams demo_relaying = [(pA, 1)]"
  "identity demo_relaying = pMe" "get_s demo_relaying p = zero_subscriber"
  by (simp_all add: demo_relaying_def createRelayer_def new_relayer_simps set_upstream_def AddListener_def
      GetOutStream_def RefreshOutStream_def)

lemma demo_relaying_ok [simp]: "streams_ok demo_env demo_relaying"
  "relayer_ready demo_relaying (relayerMapKey demo_strm SubReqID)"
  by (simp_all add: streams_ok_def relayer_ready_def no_nil_listener_def)

lemma later_subscriptions_join_witness:
  "sent_to demo_env (hist (fold (\<lambda>q s. snd (demo_handleSub s q)) [pB, pC] demo_relaying))
     = sent_to demo_env (hist demo_relaying)"
  using later_subscriptions_join [of demo_relaying demo_strm 0 _ demo_env SubReqID
      "D_SubReq \<lparr>sr_StrmID = demo_strm\<rparr>" "[pB, pC]"] by simp

lemma own_unknown_stream_finished_witness:
  "relayers (snd (handleSub demo_env demo_node SubReqID (pMe @ ''s'') D_Nil pA)) = []"
  using own_unknown_stream_finished [of demo_env demo_node SubReqID "pMe @ ''s''" D_Nil pA
      "fst (handleSub demo_env demo_node SubReqID (pMe @ ''s'') D_Nil pA)"
      "snd (handleSub demo_env demo_node SubReqID (pMe @ ''s'') D_Nil pA)"]
  by (simp add: extractNodeID_def)

text \<open>A node with a subscriber whose upstream peer is C; its request for a listener goes to B.\<close>

definition demo_subscribed :: node where
  "demo_subscribed = (let s = snd (GetSubscriber demo_node demo_strm)
     in put_s s 0 ((get_s s 0)\<lparr>s_UpstreamPeer := pC\<rparr>))"

lemma demo_subscribed_facts [simp]:
  "subscribers demo_subscribed = [(demo_strm, 0)]" "broadcasters demo_subscribed = []"
  "relayers demo_subscribed = []" "outStreams demo_subscribed = []" "identity demo_subscribed = pMe"
  "s_UpstreamPeer (get_s demo_subscribed 0) = pC" "fresh (rstore demo_subscribed) = 0"
  "sent_to demo_env (hist demo_subscribed) = []"
  by (simp_all add: demo_subscribed_def GetSubscriber_def new_s_def snew_def Let_def log_def)

lemma demo_subscribed_ok [simp]: "streams_ok demo_env demo_subscribed"
  by (simp add: streams_ok_def)

text \<open>Peer C's stream fails when flushed, A is the requester, so the request goes to B.\<close>

lemma demo_forward:
  assumes "identity s = pMe" "mget (outStreams s) pC = None" "mget (outStreams s) pB = None"
  shows "fst (forward demo_env pA SubReqID (D_SubReq \<lparr>sr_StrmID = demo_strm\<rparr>) [pMe, pC, pA, pB] s) = FwdSent pB"
  using assms by (simp add: forward_def send_simps)

lemma subscriber_node_forwards_again_witness:
  "\<exists>s'. sent_to demo_env (hist s') = [(pB, \<lparr>Op = SubReqID, Data = D_SubReq \<lparr>sr_StrmID = demo_strm\<rparr>\<rparr>)]
     \<and> demo_handleSub demo_subscribed pA = (None, s') \<and> r_UpstreamPeer (get_r s' 0) = pC"
proof -
  define s1 where "s1 = createRelayer demo_env demo_subscribed demo_strm SubReqID
    (s_UpstreamPeer (get_s demo_subscribed 0)) (Some (IDHexEncode demo_env pA)) pA"
  have s1: "identity s1 = pMe" "outStreams s1 = [(pA, 1)]"
    by (simp_all add: s1_def createRelayer_def new_relayer_simps set_upstream_def AddListener_def
        GetOutStream_def RefreshOutStream_def)
  obtain s2 where f: "forward demo_env pA SubReqID (D_SubReq \<lparr>sr_StrmID = demo_strm\<rparr>) [pMe, pC, pA, pB] s1
      = (FwdSent pB, s2)"
    using demo_forward [of s1] s1 by (cases "forward demo_env pA SubReqID
      (D_SubReq \<lparr>sr_StrmID = demo_strm\<rparr>) [pMe, pC, pA, pB] s1") simp
  from subscriber_node_forwards_again [OF _ _ _ _ _ s1_def _ f] show ?thesis
    by (simp add: ClosestLocalPeers_def Let_def)
qed


text \<open>The relaying node with a subscriber of its own and an open stream to the upstream peer.\<close>

definition demo_both :: node where
  "demo_both = demo_relaying\<lparr>subscribers := [(demo_strm, 0)], outStreams := [(pA, 1), (pB, 2)]\<rparr>"

lemma demo_both_facts [simp]:
  "relayers demo_both = [(relayerMapKey demo_strm SubReqID, 0)]" "broadcasters demo_both = []"
  "subscribers demo_both = [(demo_strm, 0)]" "r_listeners (get_r demo_both 0) = [(pA, Some 1)]"
  "r_UpstreamPeer (get_r demo_both 0) = pB" "outStreams demo_both = [(pA, 1), (pB, 2)]"
  "identity demo_both = pMe" "get_s demo_both p = zero_subscriber"
  by (simp_all add: demo_both_def)

lemma demo_both_ok [simp]: "streams_ok demo_env demo_both"
  "relayer_ready demo_both (relayerMapKey demo_strm SubReqID)"
  by (simp_all add: streams_ok_def relayer_ready_def no_nil_listener_def)

lemma cancel_cuts_own_subscriber_witness:
  "hd (sent_to demo_env (hist (snd (handleCancelSubReq demo_env demo_both \<lparr>cs_StrmID = demo_strm\<rparr> pA))))
     = (pB, \<lparr>Op = CancelSubID, Data = D_CancelSub \<lparr>cs_StrmID = demo_strm\<rparr>\<rparr>)"
  using cancel_cuts_own_subscriber [of demo_env demo_both "\<lparr>cs_StrmID = demo_strm\<rparr>" 0 0 pA "Some 1" 2
      _ "fst (handleCancelSubReq demo_env demo_both \<lparr>cs_StrmID = demo_strm\<rparr> pA)"
      "snd (handleCancelSubReq demo_env demo_both \<lparr>cs_StrmID = demo_strm\<rparr> pA)"]
  by (simp add: MarshalJSON_def marshal_data_def)

lemma stream_data_served_witness:
  "\<exists>s'. handleStreamData demo_env demo_both pB demo_seg = Returns (None, s') \<and> GO_Insert 0 demo_seg \<in> set (gos s')"
  using stream_data_served [OF demo_both_ok(1) demo_range, of demo_seg pB] by (auto simp: demo_seg_def)

lemma finish_stream_cleans_up_witness:
  "\<exists>s'. handleFinishStream demo_env demo_both \<lparr>fs_StrmID = demo_strm\<rparr> = Returns (None, s')
     \<and> relayers s' = [] \<and> mget (subscribers s') demo_strm = None"
  using finish_stream_cleans_up [OF demo_both_ok(1) demo_range, of "\<lparr>fs_StrmID = demo_strm\<rparr>"]
  by (auto simp: mdel_def)

end
