(* ===== verification/Queries.thy ===== *)
theory Queries
  imports Subscriptions
begin

text \<open>
  What the handlers of transcode messages, playlist and status requests, pings and pongs guarantee.
\<close>

section \<open>Replies and forwarded requests\<close>

lemma reply_spec:
  assumes "reply env s p op d = (e, s')" and "streams_ok env s"
  shows "io_frame s s'"
    and "sent_to env (hist s') = (if e = None then [(p, \<lparr>Op = op, Data = d\<rparr>)] else []) @ sent_to env (hist s)"
proof -
  obtain st s1 where g: "GetOutStream env s p = (st, s1)" by fastforce
  with assms(1) have sd: "sendMessageWithRetry env s1 p (Some (Basic st)) op d = (e, s')"
    by (simp add: reply_def)
  show "io_frame s s'"
    by (rule io_frame_trans [OF GetOutStream_frame [OF g] retry_frame [OF sd]])
  have rem: "\<forall>sh. st = Some sh \<longrightarrow> RemotePeer env sh = p"
    using GetOutStream_remote g assms(2) by blast
  show "sent_to env (hist s') = (if e = None then [(p, \<lparr>Op = op, Data = d\<rparr>)] else []) @ sent_to env (hist s)"
  proof (cases e)
    case None
    with retry_delivers [OF _ GetOutStream_ok [OF g assms(2)] rem] sd GetOutStream_silent [OF g]
    show ?thesis by simp
  next
    case (Some err)
    with retry_fails sd GetOutStream_silent [OF g] show ?thesis by simp
  qed
qed

lemma as_handle_error_None: "as_handle_error r = (None, s') \<longleftrightarrow> r = (None, s')"
  by (cases r) (auto simp: as_handle_error_def split: option.split)

text \<open>
  The two request handlers end the same way: the request goes to one peer and the requester becomes
  a listener, or the answer \<open>nf\<close> goes back.
\<close>

definition ask_or_answer ::
  "env \<Rightarrow> node \<Rightarrow> peerID \<Rightarrow> Opcode \<Rightarrow> gdata \<Rightarrow> string \<Rightarrow> (peerID \<Rightarrow> string option) \<Rightarrow> Opcode \<Rightarrow> gdata
     \<Rightarrow> peerID list \<Rightarrow> go_error option \<times> node" where
  "ask_or_answer env s rp op d k lg op' nf peers =
     (case forward env rp op d peers s of
        (FwdEmptyPeer, s1) \<Rightarrow> (None, s1)
      | (FwdSent p, s1) \<Rightarrow>
          (case mget (relayers s1) (relayerMapKey k op) of
             Some r \<Rightarrow> (None, AddListener env s1 r rp)
           | None \<Rightarrow> (None, createRelayer env s1 k op p (lg p) rp))
      | (FwdNone, s1) \<Rightarrow> as_handle_error (reply env s1 rp op' nf))"

text \<open>What a served request looks like afterwards: asked on, or answered.\<close>

definition asked :: "env \<Rightarrow> node \<Rightarrow> node \<Rightarrow> peerID \<Rightarrow> Opcode \<Rightarrow> gdata \<Rightarrow> string \<Rightarrow> bool" where
  "asked env s s' rp op d k \<longleftrightarrow>
     (\<exists>p r. p \<noteq> rp \<and> p \<noteq> identity s
        \<and> sent_to env (hist s') = (p, \<lparr>Op = op, Data = d\<rparr>) # sent_to env (hist s)
        \<and> mget (relayers s') (relayerMapKey k op) = Some r
        \<and> mget (r_listeners (get_r s' r)) (IDHexEncode env rp) \<noteq> None)"

definition answered :: "env \<Rightarrow> node \<Rightarrow> node \<Rightarrow> peerID \<Rightarrow> Opcode \<Rightarrow> gdata \<Rightarrow> bool" where
  "answered env s s' rp op d \<longleftrightarrow>
     relayers s' = relayers s \<and> sent_to env (hist s') = (rp, \<lparr>Op = op, Data = d\<rparr>) # sent_to env (hist s)"

lemma answered_reply:
  assumes "reply env s rp op d = (None, s')" "streams_ok env s"
  shows "answered env s s' rp op d"
  using reply_spec(2) [OF assms] io_frameD(9) [OF reply_spec(1) [OF assms]]
  by (simp add: answered_def)

lemma answered_frame:
  assumes "io_frame s s1" "sent_to env (hist s1) = sent_to env (hist s)" "answered env s1 s' rp op d"
  shows "answered env s s' rp op d"
  using assms io_frameD(9) [OF assms(1)] by (simp add: answered_def)

lemma ask_or_answer_spec:
  assumes "ask_or_answer env s rp op d k lg op' nf peers = (None, s')"
    and ok: "streams_ok env s" and ne: "[] \<notin> set peers"
  shows "asked env s s' rp op d k \<or> answered env s s' rp op' nf"
proof -
  obtain res s1 where f: "forward env rp op d peers s = (res, s1)" by fastforce
  note fr = forward_frames [OF f] and fr' = io_frameD(9) [OF forward_frames(1) [OF f]]
  show ?thesis
  proof (cases res)
    case FwdEmptyPeer
    have "fst (forwardLoop g sd rp op d peers t) \<noteq> FwdEmptyPeer" for g sd t
      using ne by (induction peers arbitrary: t) (auto split: prod.split option.split)
    with f FwdEmptyPeer show ?thesis by (metis forward_def fst_conv)
  next
    case (FwdSent p)
    note once = forward_once [OF f [unfolded FwdSent] ok]
    show ?thesis
    proof (cases "mget (relayers s1) (relayerMapKey k op)")
      case None
      with assms(1) f FwdSent have "s' = createRelayer env s1 k op p (lg p) rp"
        by (simp add: ask_or_answer_def)
      with once createRelayer_spec [OF this refl] show ?thesis
        by (auto simp: asked_def)
    next
      case (Some r)
      with assms(1) f FwdSent have "s' = AddListener env s1 r rp" by (simp add: ask_or_answer_def)
      with once Some show ?thesis
        by (simp add: asked_def AddListener_rel AddListener_listeners)
    qed
  next
    case FwdNone
    with assms(1) f have "reply env s1 rp op' nf = (None, s')"
      by (simp add: ask_or_answer_def as_handle_error_None)
    from answered_reply [OF this fr(2) [OF ok]]
    show ?thesis using answered_frame [OF fr(1)] forward_silent [OF f] FwdNone by blast
  qed
qed

section \<open>Master playlists\<close>

text \<open>
  C24. A request for a master playlist that is handled without an error is never dropped and never
  served twice: the node sends its own playlist to the requester; or the answer that there is none;
  or it sends one request on, to a peer that is neither the requester nor this node, and the
  requester then is a listener of the relayer that will receive the answer. When the manifest id
  names this node, the request stays here.
\<close>

theorem playlist_request_served:
  assumes "streams_ok env s" and "handleGetMasterPlaylistReq env s q mplr = (None, s')"
    and "[] \<notin> set (Peers env (hist s))" and "sort_permutes env"
  shows "case mget (mplMap s) (mr_ManifestID mplr) of
       Some mpl \<Rightarrow> answered env s s' q MasterPlaylistDataID (D_MasterPlaylistData
         \<lparr>md_ManifestID = mr_ManifestID mplr, md_MPL = mplString env mpl, md_NotFound = False\<rparr>)
     | None \<Rightarrow> answered env s s' q MasterPlaylistDataID (mplNotFound (mr_ManifestID mplr))
         \<or> extractNodeID env (mr_ManifestID mplr) \<noteq> Inr (identity s)
           \<and> asked env s s' q GetMasterPlaylistReqID (D_GetMasterPlaylistReq mplr) (mr_ManifestID mplr)"
proof (cases "mget (mplMap s) (mr_ManifestID mplr)")
  case (Some mpl)
  with assms(2) show ?thesis
    by (auto simp: handleGetMasterPlaylistReq_def as_handle_error_None intro: answered_reply [OF _ assms(1)])
next
  case None
  let ?mid = "mr_ManifestID mplr"
  let ?own = "case extractNodeID env ?mid of Inl _ \<Rightarrow> False | Inr nid \<Rightarrow> IDHexEncode env nid = GetNodeID env s"
  have id: "\<not> ?own \<Longrightarrow> extractNodeID env ?mid \<noteq> Inr (identity s)" by (auto simp: GetNodeID_def)
  show ?thesis
  proof (cases "?own \<or> (\<exists>e. ClosestLocalPeers env s ?mid = Inl e)")
    case True
    with assms(2) None have "reply env s q MasterPlaylistDataID (mplNotFound ?mid) = (None, s')"
      by (auto simp: handleGetMasterPlaylistReq_def Let_def split: if_split_asm sum.split_asm)
    from answered_reply [OF this assms(1)] None show ?thesis by simp
  next
    case False
    then obtain peers where peers: "ClosestLocalPeers env s ?mid = Inr peers"
      by (cases "ClosestLocalPeers env s ?mid") auto
    then have "set peers = set (Peers env (hist s))"
      using sort_set [OF assms(4)]
      by (auto simp: ClosestLocalPeers_def Let_def split: sum.split_asm if_split_asm)
    then have ne: "[] \<notin> set peers" using assms(3) by simp
    have r: "\<lparr>mr_ManifestID = ?mid\<rparr> = mplr" by simp
    from assms(2) None peers False
    have "ask_or_answer env s q GetMasterPlaylistReqID (D_GetMasterPlaylistReq mplr) ?mid
        (\<lambda>p. Some (IDHexEncode env p)) MasterPlaylistDataID (mplNotFound ?mid) peers = (None, s')"
      by (simp add: handleGetMasterPlaylistReq_def Let_def ask_or_answer_def r)
    from ask_or_answer_spec [OF this assms(1) ne] None False id show ?thesis by auto
  qed
qed

section \<open>Node status\<close>

text \<open>
  The same for the status of a node: this node's own status goes back when the request names
  it; any other request that is handled without an error is answered with "not found" or sent on to
  exactly one peer, with the requester registered for the answer.
\<close>

theorem status_request_served:
  assumes "streams_ok env s" and "handleNodeStatusReqMsg env s q nsr = (None, s')"
    and "[] \<notin> set (Peers env (hist s))" and "sort_permutes env"
  shows "if nr_NodeID nsr = GetNodeID env s
     then answered env s s' q NodeStatusDataID (D_NodeStatusData
       \<lparr>nd_NodeID = GetNodeID env s, nd_Data = nodeStatusString env s, nd_NotFound = False\<rparr>)
     else answered env s s' q NodeStatusDataID (statusNotFound (nr_NodeID nsr))
       \<or> asked env s s' q NodeStatusReqID (D_NodeStatusReq nsr) (nr_NodeID nsr)"
proof (cases "nr_NodeID nsr = GetNodeID env s")
  case True
  with assms(2) show ?thesis
    by (auto simp: handleNodeStatusReqMsg_def Let_def as_handle_error_None intro: answered_reply [OF _ assms(1)])
next
  case False
  show ?thesis
  proof (cases "ClosestLocalPeers env s (nr_NodeID nsr)")
    case (Inl e)
    with assms(2) False have "reply env s q NodeStatusDataID (statusNotFound (nr_NodeID nsr)) = (None, s')"
      by (simp add: handleNodeStatusReqMsg_def Let_def)
    from answered_reply [OF this assms(1)] False show ?thesis by simp
  next
    case (Inr peers)
    then have "set peers = set (Peers env (hist s))"
      using sort_set [OF assms(4)]
      by (auto simp: ClosestLocalPeers_def Let_def split: sum.split_asm if_split_asm)
    then have ne: "[] \<notin> set peers" using assms(3) by simp
    have r: "\<lparr>nr_NodeID = nr_NodeID nsr\<rparr> = nsr" by simp
    from assms(2) False Inr
    have "ask_or_answer env s q NodeStatusReqID (D_NodeStatusReq nsr) (nr_NodeID nsr)
        (\<lambda>p. None) NodeStatusDataID (statusNotFound (nr_NodeID nsr)) peers = (None, s')"
      by (simp add: handleNodeStatusReqMsg_def Let_def ask_or_answer_def r)
    from ask_or_answer_spec [OF this assms(1) ne] False show ?thesis by auto
  qed
qed

section \<open>Answers\<close>

text \<open>
  C37. An answer for a request that this node made itself. While the request waits, both handlers
  hand the answer over and return. When it is still registered but not waiting (it moves from one
  peer to the next, or passes an earlier answer on), the playlist handler drops the answer and goes
  on, whereas the status handler blocks the goroutine that reads the peer's stream.
\<close>

theorem answers_to_own_requests:
  assumes "mget (msgChans s) (msgChansKey GetMasterPlaylistReqID (md_ManifestID mpld)) = Some c1"
    and "mget (msgChans s) (msgChansKey NodeStatusReqID (nd_NodeID nsd)) = Some c2"
    and "\<not> ch_closed (sget (chans s) c1)" and "\<not> ch_closed (sget (chans s) c2)"
  shows "(if ch_recv (sget (chans s) c1)
        then \<exists>s'. handleMasterPlaylistDataMsg env s mpld = Returns (None, s') \<and> sget (chans s') c1 =
          \<lparr>ch_recv = False, ch_val = Some (V_Msg \<lparr>Op = MasterPlaylistDataID, Data = D_MasterPlaylistData mpld\<rparr>),
           ch_closed = False\<rparr>
        else handleMasterPlaylistDataMsg env s mpld = Returns (None, s))
     \<and> (if ch_recv (sget (chans s) c2)
        then \<exists>s'. handleNodeStatusDataMsg env s nsd = Returns (None, s') \<and> sget (chans s') c2 =
          \<lparr>ch_recv = False, ch_val = Some (V_Msg \<lparr>Op = NodeStatusDataID, Data = D_NodeStatusData nsd\<rparr>),
           ch_closed = False\<rparr>
        else handleNodeStatusDataMsg env s nsd = Blocks)"
  using assms
  by (simp add: handleMasterPlaylistDataMsg_def handleNodeStatusDataMsg_def chan_send_def Let_def)

section \<open>Transcoding\<close>

text \<open>
  C26. A transcode response is consumed by the callback registered for its stream, and then nothing
  leaves the node; without a callback it is sent to at most one peer, neither the sender nor this
  node, and not at all when the stream is this node's. No relayer is created. (The duplication
  constant \<^verbatim>\<open>DefaultTranscodeResponseRelayDuplication\<close> = 2 has no effect: the loop returns
  after the first successful send.)
\<close>

theorem transcode_response_once:
  assumes "streams_ok env s" and "handleTranscodeResponse env s q tr = (e, s')"
  shows "relayers s' = relayers s \<and>
     (case mget (transResponseCallbacks s) (tr_StrmID tr) of
        Some cb \<Rightarrow> e = None \<and> hist s' = E_Callback cb (tr_Result tr) # hist s
      | None \<Rightarrow> sent_to env (hist s') = sent_to env (hist s)
          \<or> e = None \<and> extractNodeID env (tr_StrmID tr) \<noteq> Inr (identity s)
            \<and> (\<exists>p. p \<noteq> q \<and> p \<noteq> identity s \<and> sent_to env (hist s') =
                 (p, \<lparr>Op = TranscodeResponseID, Data = D_TranscodeResponse tr\<rparr>) # sent_to env (hist s)))"
proof (cases "mget (transResponseCallbacks s) (tr_StrmID tr)")
  case (Some cb)
  with assms(2) show ?thesis by (auto simp: handleTranscodeResponse_def)
next
  case None
  show ?thesis
  proof (cases "\<exists>nid peers. extractNodeID env (tr_StrmID tr) = Inr nid \<and> IDHexEncode env nid \<noteq> GetNodeID env s
      \<and> ClosestLocalPeers env s (tr_StrmID tr) = Inr peers")
    case False
    with None assms(2) show ?thesis
      by (auto simp: handleTranscodeResponse_def split: sum.split_asm if_split_asm)
  next
    case True
    then obtain nid peers where n: "extractNodeID env (tr_StrmID tr) = Inr nid"
      "IDHexEncode env nid \<noteq> GetNodeID env s" "ClosestLocalPeers env s (tr_StrmID tr) = Inr peers" by blast
    obtain res s1 where f: "forward env q TranscodeResponseID (D_TranscodeResponse tr) peers s = (res, s1)"
      by fastforce
    have s': "s' = s1" "(\<exists>p. res = FwdSent p) \<longrightarrow> e = None"
      using None assms(2) n f by (cases res; auto simp: handleTranscodeResponse_def)+
    have "nid \<noteq> identity s" using n(2) by (auto simp: GetNodeID_def)
    note fr = s' io_frameD(9) [OF forward_frames(1) [OF f]]
    show ?thesis
    proof (cases "\<exists>p. res = FwdSent p")
      case True
      then obtain p where "res = FwdSent p" by blast
      with forward_once [OF f [unfolded this] assms(1)] None n(1) fr \<open>nid \<noteq> identity s\<close>
      show ?thesis by simp
    next
      case False
      with forward_silent [OF f] None fr show ?thesis by simp
    qed
  qed
qed

text \<open>
  A transcode subscription is acted upon only if its signature verifies over the bytes of its
  addresses, stream id and node id; otherwise the node does not change at all and no message leaves.
\<close>

theorem transcode_sub_authenticated:
  assumes "handleTranscodeSub env s q ts = (e, s')" and "verifyFun s = Some f"
    and "s' \<noteq> s \<or> e = None"
  shows "f (BytesForSigning env ts) (ts_Sig ts) (ts_StrmID ts)"
  using assms by (auto simp: handleTranscodeSub_def VerifyTranscoderSig_def split: if_split_asm)

text \<open>
  C28. What a signature commits to: two subscriptions with stream ids and node ids of the same
  lengths have the same signed bytes exactly when both ids agree and the addresses, run together,
  are the same bytes. The boundaries between the addresses are not signed.
\<close>

theorem signature_covers_ids:
  assumes "length (ts_StrmID ts) = length (ts_StrmID ts')" and "length (ts_NodeID ts) = length (ts_NodeID ts')"
  shows "BytesForSigning env ts = BytesForSigning env ts' \<longleftrightarrow>
     ts_StrmID ts = ts_StrmID ts' \<and> ts_NodeID ts = ts_NodeID ts'
     \<and> concat (map (maBytes env) (ts_MultiAddrs ts)) = concat (map (maBytes env) (ts_MultiAddrs ts'))"
proof -
  have b: "BytesForSigning env t = concat (map (maBytes env) (ts_MultiAddrs t)) @ ts_StrmID t @ ts_NodeID t" for t
    by (simp add: BytesForSigning_def)
  show ?thesis
    unfolding b using assms by (auto simp: append_eq_append_conv)
qed

text \<open>
  C27. At the broadcasting node, a verified transcode subscription with an address becomes a plain
  subscription of the transcoder itself when a direct connection exists or can be made, and of the
  peer that passed the message on otherwise; making the connection sends no protocol message.
\<close>

theorem transcode_sub_at_broadcaster:
  assumes "VerifyTranscoderSig s (BytesForSigning env ts) (ts_Sig ts) (ts_StrmID ts)"
    and "extractNodeID env (ts_StrmID ts) = Inr (identity s)" and "ts_MultiAddrs ts \<noteq> []"
  shows "\<exists>s1 p. handleTranscodeSub env s q ts = handleSubReq env s1 \<lparr>sr_StrmID = ts_StrmID ts\<rparr> p
     \<and> io_frame s s1 \<and> sent_to env (hist s1) = sent_to env (hist s)
     \<and> p = (if PeerAddrs env (hist s) (ts_NodeID ts) \<noteq> None
              \<or> fst (Connect env s (IDHexEncode env (ts_NodeID ts)) (map (maString env) (ts_MultiAddrs ts))) = None
            then ts_NodeID ts else q)"
proof (cases "PeerAddrs env (hist s) (ts_NodeID ts)")
  case (Some as)
  with assms show ?thesis
    by (intro exI [of _ s] exI [of _ "ts_NodeID ts"]) (simp add: handleTranscodeSub_def Let_def)
next
  case None
  obtain e s1 where c: "Connect env s (IDHexEncode env (ts_NodeID ts)) (map (maString env) (ts_MultiAddrs ts)) = (e, s1)"
    by fastforce
  then have "io_frame s s1 \<and> sent_to env (hist s1) = sent_to env (hist s)"
    by (auto simp: Connect_def connectPeerInfo_def split: sum.split_asm option.split_asm intro!: io_frame_intros)
  with assms None c show ?thesis
    by (intro exI [of _ s1] exI [of _ "if e = None then ts_NodeID ts else q"])
      (cases e; simp add: handleTranscodeSub_def Let_def)
qed

section \<open>Ping and pong\<close>

text \<open>
  A ping is echoed: the only message a ping causes is a pong with the same nonce to the peer that
  sent it, and the handler reports an error exactly when that could not be sent (it does not retry).
\<close>

theorem ping_echoed:
  assumes "streams_ok env s" and "handlePing env s q pd = (e, s')"
  shows "io_frame s s' \<and> (e = None \<and> sent_to env (hist s') = (q, \<lparr>Op = PongID, Data = D_Pong pd\<rparr>) # sent_to env (hist s)
     \<or> e = Some ErrHandleMsg \<and> sent_to env (hist s') = sent_to env (hist s))"
proof -
  obtain st s1 where g: "GetOutStream env s q = (st, s1)" by fastforce
  obtain e' s2 where sd: "SendMessage env s1 (Basic st) PongID (D_Pong pd) = (e', s2)" by fastforce
  have rem: "st = Some sh \<Longrightarrow> RemotePeer env sh = q" for sh
    using GetOutStream_remote g assms(1) by blast
  note fr = io_frame_trans [OF GetOutStream_frame [OF g] SendMessage_frame [OF sd]]
  show ?thesis
  proof (cases e')
    case None
    with assms(2) g sd have "e = None" "s' = s2" by (simp_all add: handlePing_def as_handle_error_def)
    with sd None rem fr GetOutStream_silent [OF g] show ?thesis by (auto dest!: SendMessage_delivers)
  next
    case (Some err)
    with assms(2) g sd have "e = Some ErrHandleMsg" "s' = s2"
      by (simp_all add: handlePing_def as_handle_error_def)
    with sd Some fr GetOutStream_silent [OF g] show ?thesis by (auto dest!: SendMessage_fails)
  qed
qed

text \<open>
  A pong completes the ping with its nonce at most once: an unknown nonce is an error; a waiting
  pinger is released, its channel is closed and its entry removed, so that a second pong with the
  same nonce is an error again. A pong whose pinger does not listen to the channel it was given
  blocks the goroutine that reads the peer's stream.
\<close>

theorem pong_completes_ping:
  "case mget (pingChs s) pd of
     None \<Rightarrow> handlePong s q pd = Returns (Some ErrHandleMsg, s)
   | Some ch \<Rightarrow>
       if ch_closed (sget (chans s) ch) then handlePong s q pd = Panics
       else if ch_recv (sget (chans s) ch)
       then \<exists>s'. handlePong s q pd = Returns (None, s')
           \<and> sget (chans s') ch = \<lparr>ch_recv = False, ch_val = Some V_Unit, ch_closed = True\<rparr>
           \<and> pingChs s' = mdel (pingChs s) pd \<and> handlePong s' q' pd = Returns (Some ErrHandleMsg, s')
       else handlePong s q pd = Blocks"
  by (auto simp: handlePong_def chan_send_def chan_close_def Let_def split: option.split)

section \<open>Witnesses\<close>

lemma demo_reply_A:
  assumes "mget (outStreams s) pA = Some 1"
    and "\<exists>b. MarshalJSON demo_env \<lparr>Op = op, Data = d\<rparr> = Inr b"
  shows "\<exists>s'. reply demo_env s pA op d = (None, s')"
  using assms by (auto simp: reply_def sendMessageWithRetry_def SendMessage_def BasicSendMessage_def
      encodeAndFlush_def GetOutStream_def Let_def)

lemma pB_no_sep: "CHR ''|'' \<notin> set pB" by simp

lemma playlist_request_served_witness:
  "\<exists>s'. answered demo_env (demo_relaying\<lparr>mplMap := [(''m'', Playlist 7)]\<rparr>) s' pA MasterPlaylistDataID
     (D_MasterPlaylistData \<lparr>md_ManifestID = ''m'', md_MPL = ''7'', md_NotFound = False\<rparr>)"
proof -
  let ?s = "demo_relaying\<lparr>mplMap := [(''m'', Playlist 7)]\<rparr>"
  have d: "decimal 7 = ''7''" by code_simp
  have m: "\<exists>b. MarshalJSON demo_env \<lparr>Op = MasterPlaylistDataID, Data = D_MasterPlaylistData
     \<lparr>md_ManifestID = ''m'', md_MPL = ''7'', md_NotFound = False\<rparr>\<rparr> = Inr b"
    by (simp add: MarshalJSON_def marshal_data_def demo_pair_def)
  from demo_reply_A [OF _ m, of ?s] obtain s' where
    "handleGetMasterPlaylistReq demo_env ?s pA \<lparr>mr_ManifestID = ''m''\<rparr> = (None, s')"
    by (auto simp: handleGetMasterPlaylistReq_def as_handle_error_def d)
  moreover have "streams_ok demo_env ?s" by (simp add: streams_ok_def)
  ultimately show ?thesis
    using playlist_request_served [of demo_env ?s pA "\<lparr>mr_ManifestID = ''m''\<rparr>" s'] by (auto simp: d)
qed

lemma status_request_served_witness:
  "\<exists>s'. answered demo_env demo_relaying s' pA NodeStatusDataID
     (D_NodeStatusData \<lparr>nd_NodeID = pMe, nd_Data = pMe, nd_NotFound = False\<rparr>)"
proof -
  have m: "\<exists>b. MarshalJSON demo_env \<lparr>Op = NodeStatusDataID, Data = D_NodeStatusData
     \<lparr>nd_NodeID = pMe, nd_Data = pMe, nd_NotFound = False\<rparr>\<rparr> = Inr b"
    by (simp add: MarshalJSON_def marshal_data_def demo_pair_def)
  from demo_reply_A [OF _ m, of demo_relaying] obtain s' where
    "handleNodeStatusReqMsg demo_env demo_relaying pA \<lparr>nr_NodeID = pMe\<rparr> = (None, s')"
    by (auto simp: handleNodeStatusReqMsg_def as_handle_error_def GetNodeID_def nodeStatusString_def)
  from status_request_served [OF demo_relaying_ok(1) this] show ?thesis
    by (auto simp: GetNodeID_def nodeStatusString_def)
qed

definition demo_waiting :: node where
  "demo_waiting = demo_node\<lparr>msgChans := [(msgChansKey GetMasterPlaylistReqID ''m'', 0), (msgChansKey NodeStatusReqID ''n'', 1)]\<rparr>"

lemma answers_to_own_requests_witness:
  "handleNodeStatusDataMsg demo_env demo_waiting \<lparr>nd_NodeID = ''n'', nd_Data = [], nd_NotFound = False\<rparr> = Blocks"
  using answers_to_own_requests [of demo_waiting "\<lparr>md_ManifestID = ''m'', md_MPL = [], md_NotFound = False\<rparr>" 0
      "\<lparr>nd_NodeID = ''n'', nd_Data = [], nd_NotFound = False\<rparr>" 1 demo_env]
  by (simp add: demo_waiting_def key_simps opcode_defs demo_node_def new_node_def empty_store_def sget_def)

lemma transcode_response_once_witness:
  "hist (snd (handleTranscodeResponse demo_env (demo_node\<lparr>transResponseCallbacks := [(demo_strm, 4)]\<rparr>) pA
     \<lparr>tr_StrmID = demo_strm, tr_Result = Map.empty\<rparr>)) = [E_Callback 4 Map.empty]"
  using transcode_response_once [of demo_env "demo_node\<lparr>transResponseCallbacks := [(demo_strm, 4)]\<rparr>" pA
      "\<lparr>tr_StrmID = demo_strm, tr_Result = Map.empty\<rparr>"
      "fst (handleTranscodeResponse demo_env (demo_node\<lparr>transResponseCallbacks := [(demo_strm, 4)]\<rparr>) pA
         \<lparr>tr_StrmID = demo_strm, tr_Result = Map.empty\<rparr>)"
      "snd (handleTranscodeResponse demo_env (demo_node\<lparr>transResponseCallbacks := [(demo_strm, 4)]\<rparr>) pA
         \<lparr>tr_StrmID = demo_strm, tr_Result = Map.empty\<rparr>)"]
  by (simp add: streams_ok_def)

text \<open>A subscription of transcoder A to a stream of this node, with a signature that is checked.\<close>

definition demo_ts :: TranscodeSubMsg where
  "demo_ts = \<lparr>ts_MultiAddrs = [Multiaddr 3], ts_NodeID = pA, ts_StrmID = pMe @ ''s'', ts_Sig = ''ok''\<rparr>"

definition demo_verifying :: node where
  "demo_verifying = demo_node\<lparr>verifyFun := Some (\<lambda>dat sig strm. sig = ''ok'')\<rparr>"

lemma demo_ts_own: "extractNodeID demo_env (ts_StrmID demo_ts) = Inr pMe"
  by (simp add: extractNodeID_def demo_ts_def)

lemma demo_verifies:
  "VerifyTranscoderSig demo_verifying (BytesForSigning demo_env demo_ts) (ts_Sig demo_ts) (ts_StrmID demo_ts)"
  by (simp add: VerifyTranscoderSig_def demo_verifying_def demo_ts_def)

lemma demo_transcode_sub:
  "fst (handleTranscodeSub demo_env demo_verifying pB demo_ts) = None"
  using demo_verifies demo_ts_own
  by (simp add: handleTranscodeSub_def demo_verifying_def handleSubReq_def handleSub_def ClosestLocalPeers_def
      Let_def demo_ts_def send_simps)

lemma transcode_sub_authenticated_witness:
  "(\<lambda>dat sig strm. sig = ''ok'') (BytesForSigning demo_env demo_ts) (ts_Sig demo_ts) (ts_StrmID demo_ts)"
proof -
  obtain s' where "handleTranscodeSub demo_env demo_verifying pB demo_ts = (None, s')"
    using demo_transcode_sub by (cases "handleTranscodeSub demo_env demo_verifying pB demo_ts") simp
  then show ?thesis
    by (rule transcode_sub_authenticated) (simp_all add: demo_verifying_def)
qed

lemma signature_covers_ids_witness:
  "BytesForSigning demo_env demo_ts \<noteq> BytesForSigning demo_env (demo_ts\<lparr>ts_NodeID := pB\<rparr>)"
  using signature_covers_ids [of demo_ts "demo_ts\<lparr>ts_NodeID := pB\<rparr>" demo_env] by (simp add: demo_ts_def)

lemma transcode_sub_at_broadcaster_witness:
  "\<exists>s1. handleTranscodeSub demo_env demo_verifying pB demo_ts
     = handleSubReq demo_env s1 \<lparr>sr_StrmID = pMe @ ''s''\<rparr> pA"
proof -
  have i: "identity demo_verifying = pMe" by (simp add: demo_verifying_def)
  from transcode_sub_at_broadcaster [OF demo_verifies, unfolded i, OF demo_ts_own, of pB]
  show ?thesis by (auto simp: demo_ts_def)
qed

lemma ping_echoed_witness:
  "sent_to demo_env (hist (snd (handlePing demo_env demo_node pA ''n''))) = [(pA, \<lparr>Op = PongID, Data = D_Pong ''n''\<rparr>)]"
proof -
  have "fst (handlePing demo_env demo_node pA ''n'') = None"
    by (simp add: handlePing_def as_handle_error_def send_simps)
  then obtain s' where h: "handlePing demo_env demo_node pA ''n'' = (None, s')"
    by (cases "handlePing demo_env demo_node pA ''n''") simp
  from ping_echoed [OF demo_node_ok h] show ?thesis by (simp add: h)
qed

end
