(* ===== verification/Requests.thy ===== *)
theory Requests
  imports Queries
begin

text \<open>
  The requests a node makes itself: \<^verbatim>\<open>getResponseWithRelay\<close> and the playlist and status
  requests on top of it, \<^verbatim>\<open>Ping\<close>, \<^verbatim>\<open>SendTranscodeResponse\<close>, and the
  small operations of the client interface. A goroutine of a request is a value of
  \<open>goroutine\<close>; each of its steps between two blocking points is a definition.
\<close>

section \<open>Channels\<close>

definition new_chan :: "node \<Rightarrow> ptr \<times> node" where
  "new_chan s = (let (c, st) = snew (chans s) \<lparr>ch_recv = False, ch_val = None, ch_closed = False\<rparr>
                 in (c, s\<lparr>chans := st\<rparr>))"

text \<open>A goroutine starts to receive at a channel, or stops because its timer fired.\<close>

definition set_recv :: "ptr \<Rightarrow> bool \<Rightarrow> node \<Rightarrow> node" where
  "set_recv c r s = s\<lparr>chans := sput (chans s) c ((sget (chans s) c)\<lparr>ch_recv := r\<rparr>)\<rparr>"

definition take_val :: "ptr \<Rightarrow> node \<Rightarrow> node" where
  "take_val c s = s\<lparr>chans := sput (chans s) c ((sget (chans s) c)\<lparr>ch_val := None\<rparr>)\<rparr>"

section \<open>Requests that are relayed\<close>

definition getResponseWithRelay :: "node \<Rightarrow> Msg \<Rightarrow> string \<Rightarrow> string \<Rightarrow> ptr \<times> node" where
  "getResponseWithRelay s msg msgKey nodeID =
     (case new_chan s of
        (returnC, s1) \<Rightarrow>
          (case new_chan s1 of
             (c, s2) \<Rightarrow>
               (returnC, spawn (GO_ReqStart c returnC msgKey nodeID msg)
                  (s2\<lparr>msgChans := mput (msgChans s2) msgKey c\<rparr>))))"

text \<open>The deferred calls: the entry of the map goes first, then the channel is closed.\<close>

definition reqEnd :: "ptr \<Rightarrow> string \<Rightarrow> node \<Rightarrow> node outcome" where
  "reqEnd c msgKey s = chan_close (s\<lparr>msgChans := mdel (msgChans s) msgKey\<rparr>) c"

definition reqStart :: "env \<Rightarrow> ptr \<Rightarrow> ptr \<Rightarrow> string \<Rightarrow> string \<Rightarrow> Msg \<Rightarrow> node \<Rightarrow> node outcome" where
  "reqStart env c rc msgKey nodeID msg s =
     (let s0 = ends (GO_ReqStart c rc msgKey nodeID msg) s in
      case ClosestLocalPeers env s0 nodeID of
        Inl _ \<Rightarrow> reqEnd c msgKey s0
      | Inr peers \<Rightarrow> Returns (spawn (GO_ReqLoop c rc msgKey msg peers) s0))"

text \<open>
  The loop up to the next wait. A peer to which there is no stream is waited for all the same; only
  a failing send goes on at once.
\<close>

fun askPeers :: "env \<Rightarrow> ptr \<Rightarrow> ptr \<Rightarrow> string \<Rightarrow> Msg \<Rightarrow> peerID list \<Rightarrow> node \<Rightarrow> node outcome" where
  "askPeers env c rc msgKey msg [] s = reqEnd c msgKey s"
| "askPeers env c rc msgKey msg (p # ps) s =
     (if p = identity s then askPeers env c rc msgKey msg ps s
      else (case GetOutStream env s p of
              (None, s1) \<Rightarrow> Returns (spawn (GO_ReqWait c rc msgKey msg ps) (set_recv c True s1))
            | (Some sh, s1) \<Rightarrow>
                (case sendMessageWithRetry env s1 p (Some (Basic (Some sh))) (Op msg) (Data msg) of
                   (Some _, s2) \<Rightarrow> askPeers env c rc msgKey msg ps s2
                 | (None, s2) \<Rightarrow> Returns (spawn (GO_ReqWait c rc msgKey msg ps) (set_recv c True s2)))))"

definition reqLoop :: "env \<Rightarrow> ptr \<Rightarrow> ptr \<Rightarrow> string \<Rightarrow> Msg \<Rightarrow> peerID list \<Rightarrow> node \<Rightarrow> node outcome" where
  "reqLoop env c rc msgKey msg peers s =
     askPeers env c rc msgKey msg peers (ends (GO_ReqLoop c rc msgKey msg peers) s)"

text \<open>
  The select: the timer fires while no answer was handed over, or an answer was. An answer is never
  nil: only the goroutine itself closes its channel.
\<close>

definition reqTimer :: "ptr \<Rightarrow> ptr \<Rightarrow> string \<Rightarrow> Msg \<Rightarrow> peerID list \<Rightarrow> node \<Rightarrow> node option" where
  "reqTimer c rc msgKey msg ps s =
     (if ch_recv (sget (chans s) c)
      then Some (spawn (GO_ReqLoop c rc msgKey msg ps)
             (ends (GO_ReqWait c rc msgKey msg ps) (set_recv c False s)))
      else None)"

definition reqResponse :: "ptr \<Rightarrow> ptr \<Rightarrow> string \<Rightarrow> Msg \<Rightarrow> peerID list \<Rightarrow> node \<Rightarrow> node option" where
  "reqResponse c rc msgKey msg ps s =
     (case ch_val (sget (chans s) c) of
        Some (V_Msg response) \<Rightarrow>
          Some (spawn (GO_ReqReturn c rc msgKey response)
             (ends (GO_ReqWait c rc msgKey msg ps) (take_val c s)))
      | _ \<Rightarrow> None)"

definition reqReturn :: "ptr \<Rightarrow> ptr \<Rightarrow> string \<Rightarrow> Msg \<Rightarrow> node \<Rightarrow> node outcome" where
  "reqReturn c rc msgKey response s =
     (case chan_send s rc (V_Msg response) of
        Returns s1 \<Rightarrow> reqEnd c msgKey (ends (GO_ReqReturn c rc msgKey response) s1)
      | Panics \<Rightarrow> Panics
      | Blocks \<Rightarrow> Blocks)"

section \<open>Master playlists and node status\<close>

text \<open>\<^verbatim>\<open>returnC <- v; close(returnC)\<close>\<close>

definition sendClose :: "ptr \<Rightarrow> chval \<Rightarrow> node \<Rightarrow> node outcome" where
  "sendClose out v s =
     (case chan_send s out v of
        Returns s1 \<Rightarrow> chan_close (ends (GO_SendClose out v) s1) out
      | Panics \<Rightarrow> Panics
      | Blocks \<Rightarrow> Blocks)"

definition getMasterPlaylistWithRelay :: "env \<Rightarrow> node \<Rightarrow> string \<Rightarrow> ptr \<times> node" where
  "getMasterPlaylistWithRelay env s manifestID =
     (case new_chan s of
        (out, s1) \<Rightarrow>
          (case extractNodeID env manifestID of
             Inl _ \<Rightarrow> (out, s1)
           | Inr pid \<Rightarrow>
               (case getResponseWithRelay s1
                       \<lparr>Op = GetMasterPlaylistReqID, Data = D_GetMasterPlaylistReq \<lparr>mr_ManifestID = manifestID\<rparr>\<rparr>
                       (msgChansKey GetMasterPlaylistReqID manifestID) (IDHexEncode env pid) of
                  (msgC, s2) \<Rightarrow> (out, spawn (GO_MplWait msgC out) (set_recv msgC True s2)))))"

definition GetMasterPlaylist :: "env \<Rightarrow> node \<Rightarrow> string \<Rightarrow> (go_error + ptr) \<times> node" where
  "GetMasterPlaylist env s manifestID =
     (case mget (mplMap s) manifestID of
        Some mpl \<Rightarrow>
          (case new_chan s of (out, s1) \<Rightarrow> (Inr out, spawn (GO_SendClose out (V_Mpl (Some mpl))) s1))
      | None \<Rightarrow>
          (case extractNodeID env manifestID of
             Inl _ \<Rightarrow> (Inl ErrGetMasterPlaylist, s)
           | Inr nid \<Rightarrow>
               if GetNodeID env s = IDHexEncode env nid then (Inl ErrGetMasterPlaylist, s)
               else (case getMasterPlaylistWithRelay env s manifestID of (out, s1) \<Rightarrow> (Inr out, s1))))"

text \<open>
  The goroutine of \<^verbatim>\<open>getMasterPlaylistWithRelay\<close> when an answer has come: nil for "not
  found", nothing for a playlist that does not parse, the playlist otherwise. A payload of another
  type fails its type assertion.
\<close>

definition mplArrived :: "env \<Rightarrow> ptr \<Rightarrow> ptr \<Rightarrow> node \<Rightarrow> node outcome option" where
  "mplArrived env msgC out s =
     (case ch_val (sget (chans s) msgC) of
        Some (V_Msg m) \<Rightarrow>
          Some (let s1 = ends (GO_MplWait msgC out) (take_val msgC s) in
            case Data m of
              D_MasterPlaylistData mpld \<Rightarrow>
                if md_NotFound mpld then Returns (spawn (GO_SendClose out (V_Mpl None)) s1)
                else (case mplDecode env (md_MPL mpld) of
                        Inl _ \<Rightarrow> chan_close s1 out
                      | Inr mpl \<Rightarrow> Returns (spawn (GO_SendClose out (V_Mpl (Some mpl))) s1))
            | _ \<Rightarrow> Panics)
      | _ \<Rightarrow> None)"

definition UpdateMasterPlaylist :: "node \<Rightarrow> string \<Rightarrow> playlist option \<Rightarrow> go_error option \<times> node" where
  "UpdateMasterPlaylist s strmID mpl =
     (None, case mpl of
        Some m \<Rightarrow> s\<lparr>mplMap := mput (mplMap s) strmID m\<rparr>
      | None \<Rightarrow> s\<lparr>mplMap := mdel (mplMap s) strmID\<rparr>)"

definition nodeStatus :: "env \<Rightarrow> node \<Rightarrow> string \<times> (string, playlist) gomap" where
  "nodeStatus env s = (GetNodeID env s, mplMap s)"

definition getNodeStatusWithRelay :: "node \<Rightarrow> string \<Rightarrow> ptr \<times> node" where
  "getNodeStatusWithRelay s nodeID =
     (case new_chan s of
        (out, s1) \<Rightarrow>
          (case getResponseWithRelay s1 \<lparr>Op = NodeStatusReqID, Data = D_NodeStatusReq \<lparr>nr_NodeID = nodeID\<rparr>\<rparr>
                  (msgChansKey NodeStatusReqID nodeID) nodeID of
             (msgC, s2) \<Rightarrow> (out, spawn (GO_StatusWait msgC out) (set_recv msgC True s2))))"

definition GetNodeStatus :: "env \<Rightarrow> node \<Rightarrow> string \<Rightarrow> ptr \<times> node" where
  "GetNodeStatus env s nodeID =
     (if GetNodeID env s = nodeID
      then (case new_chan s of
              (out, s1) \<Rightarrow> (out, spawn (GO_SendClose out (V_Status (Some (nodeStatus env s)))) s1))
      else getNodeStatusWithRelay s nodeID)"

definition statusArrived :: "env \<Rightarrow> ptr \<Rightarrow> ptr \<Rightarrow> node \<Rightarrow> node outcome option" where
  "statusArrived env msgC out s =
     (case ch_val (sget (chans s) msgC) of
        Some (V_Msg m) \<Rightarrow>
          Some (let s1 = ends (GO_StatusWait msgC out) (take_val msgC s) in
            case Data m of
              D_NodeStatusData nsd \<Rightarrow>
                if nd_NotFound nsd then Returns (spawn (GO_SendClose out (V_Status None)) s1)
                else (case StatusFromString env (nd_Data nsd) of
                        Inl _ \<Rightarrow> chan_close s1 out
                      | Inr st \<Rightarrow> Returns (spawn (GO_SendClose out (V_Status (Some st))) s1))
            | _ \<Rightarrow> Panics)
      | _ \<Rightarrow> None)"

section \<open>Ping, transcode responses, local streams\<close>

definition reconnect :: "env \<Rightarrow> node \<Rightarrow> peerID \<Rightarrow> string \<Rightarrow> multiaddr list \<Rightarrow> go_error option \<times> node" where
  "reconnect env s pid nid addrs =
     (if Connected env (hist s) pid then (None, s)
      else Connect env (log (E_ClosePeer pid) s) nid (map (maString env) addrs))"

text \<open>
  The first attempt and, when it failed, the second: only the error "connection reset" makes the node
  close the connection and connect again; the second attempt sends the Go string \<^verbatim>\<open>""\<close>.
\<close>

definition pingSend ::
  "env \<Rightarrow> node \<Rightarrow> peerID \<Rightarrow> string \<Rightarrow> multiaddr list \<Rightarrow> strmh \<Rightarrow> string \<Rightarrow> go_error option \<times> node" where
  "pingSend env s pid nid addrs sh nonce =
     (case SendMessage env s (Basic (Some sh)) PingID (D_Ping nonce) of
        (None, s1) \<Rightarrow> (None, s1)
      | (Some err, s1) \<Rightarrow>
          (case (if err = ErrText ''connection reset''
                 then (case CloseConn env (hist s1) sh of
                         Some e \<Rightarrow> (Some e, s1)
                       | None \<Rightarrow> Connect env (log (E_CloseConn sh) s1) nid (map (maString env) addrs))
                 else (None, s1)) of
             (Some e, s2) \<Rightarrow> (Some e, s2)
           | (None, s2) \<Rightarrow>
               (case GetOutStream env s2 pid of
                  (None, s3) \<Rightarrow> (Some ErrSendMsg, s3)
                | (Some sh', s3) \<Rightarrow> SendMessage env s3 (Basic (Some sh')) PingID (D_String []))))"

definition Ping :: "env \<Rightarrow> node \<Rightarrow> string \<Rightarrow> (go_error + ptr) \<times> node" where
  "Ping env s nid =
     (case new_chan s of
        (returnCh, s0) \<Rightarrow>
          (case IDHexDecode env nid of
             Inl _ \<Rightarrow> (Inl ErrBadNodeID, s0)
           | Inr pid \<Rightarrow>
               (case PeerAddrs env (hist s0) pid of
                  None \<Rightarrow> (Inl ErrNotFound, s0)
                | Some addrs \<Rightarrow>
                    (case reconnect env s0 pid nid addrs of
                       (Some _, s1) \<Rightarrow> (Inl ErrBadNodeID, s1)
                     | (None, s1) \<Rightarrow>
                         (case GetOutStream env s1 pid of
                            (None, s2) \<Rightarrow> (Inl ErrSendMsg, s2)
                          | (Some sh, s2) \<Rightarrow>
                              let nonce = randStr env (hist s2); s3 = log E_Rand s2
                              in (case pingSend env s3 pid nid addrs sh nonce of
                                    (Some err, s4) \<Rightarrow> (Inl err, s4)
                                  | (None, s4) \<Rightarrow>
                                      (Inr returnCh, s4\<lparr>pingChs := mput (pingChs s4) nonce returnCh\<rparr>)))))))"

fun sendFirst :: "env \<Rightarrow> Opcode \<Rightarrow> gdata \<Rightarrow> peerID list \<Rightarrow> node \<Rightarrow> bool \<times> node" where
  "sendFirst env op msg [] s = (False, s)"
| "sendFirst env op msg (p # ps) s =
     (if p = identity s then sendFirst env op msg ps s
      else (case GetOutStream env s p of
              (None, s1) \<Rightarrow> sendFirst env op msg ps s1
            | (Some sh, s1) \<Rightarrow>
                (case sendMessageWithRetry env s1 p (Some (Basic (Some sh))) op msg of
                   (Some _, s2) \<Rightarrow> sendFirst env op msg ps s2
                 | (None, s2) \<Rightarrow> (True, s2))))"

definition SendTranscodeResponse ::
  "env \<Rightarrow> node \<Rightarrow> string \<Rightarrow> string \<Rightarrow> (string \<rightharpoonup> string) \<Rightarrow> go_error option \<times> node" where
  "SendTranscodeResponse env s broadcaster strmID transcodedVideos =
     (if GetNodeID env s = broadcaster then (None, s)
      else (case ClosestLocalPeers env s strmID of
              Inl _ \<Rightarrow> (Some ErrTranscodeResponse, s)
            | Inr peers \<Rightarrow>
                (case sendFirst env TranscodeResponseID
                        (D_TranscodeResponse \<lparr>tr_StrmID = strmID, tr_Result = transcodedVideos\<rparr>) peers s of
                   (True, s1) \<Rightarrow> (None, s1)
                 | (False, s1) \<Rightarrow> (Some ErrTranscodeResponse, s1))))"

definition ReceivedTranscodeResponse :: "node \<Rightarrow> string \<Rightarrow> nat \<Rightarrow> node" where
  "ReceivedTranscodeResponse s strmID gotResult =
     s\<lparr>transResponseCallbacks := mput (transResponseCallbacks s) strmID gotResult\<rparr>"

definition GetLocalStreams :: "env \<Rightarrow> node \<Rightarrow> string list" where
  "GetLocalStreams env s =
     MapRange env (hist s) (mkeys (broadcasters s)) @ MapRange env (hist s) (mkeys (subscribers s))"

section \<open>Facts\<close>

lemma chans_upd [simp]:
  "chans (ends g s) = chans s" "chans (spawn g s) = chans s" "msgChans (ends g s) = msgChans s"
  "msgChans (spawn g s) = msgChans s" "msgChans (set_recv c b s) = msgChans s"
  "msgChans (take_val c s) = msgChans s"
  by (simp_all add: ends_def spawn_def set_recv_def take_val_def)

lemma set_recv_fields [simp]:
  "hist (set_recv c b s) = hist s" "outStreams (set_recv c b s) = outStreams s" "gos (set_recv c b s) = gos s"
  "identity (set_recv c b s) = identity s" "relayers (set_recv c b s) = relayers s"
  by (simp_all add: set_recv_def)

lemma new_chan_spec:
  assumes "new_chan s = (c, s')"
  shows "c = fresh (chans s)" "hist s' = hist s" "outStreams s' = outStreams s" "pingChs s' = pingChs s"
    "identity s' = identity s" "gos s' = gos s" "msgChans s' = msgChans s" "streams_ok env s' = streams_ok env s"
  using assms by (auto simp: new_chan_def snew_def Let_def streams_ok_def)

section \<open>Properties\<close>

text \<open>
  The life of a successful playlist request, step by step: an answer that arrives while the
  request waits is taken by the request's goroutine, passed on to the goroutine of
  \<^verbatim>\<open>GetMasterPlaylist\<close> and decoded; the client receives exactly that playlist on its
  channel, which is then closed, and the request leaves nothing in the map of pending requests.
\<close>

lemma playlist_answer_reaches_client:
  assumes "mget (msgChans s) (msgChansKey GetMasterPlaylistReqID (md_ManifestID mpld)) = Some c"
    and "\<not> md_NotFound mpld" and "mplDecode env (md_MPL mpld) = Inr mpl"
    and "distinct [c, rc, out]" and "\<forall>x \<in> {c, rc, out}. sget (chans s) x = \<lparr>ch_recv = True, ch_val = None, ch_closed = False\<rparr>"
  shows "\<exists>s1 s2 s3 s4 s5. handleMasterPlaylistDataMsg env s mpld = Returns (None, s1)
     \<and> reqResponse c rc (msgChansKey GetMasterPlaylistReqID (md_ManifestID mpld)) msg ps s1 = Some s2
     \<and> reqReturn c rc (msgChansKey GetMasterPlaylistReqID (md_ManifestID mpld))
          \<lparr>Op = MasterPlaylistDataID, Data = D_MasterPlaylistData mpld\<rparr> s2 = Returns s3
     \<and> mplArrived env rc out s3 = Some (Returns s4)
     \<and> sendClose out (V_Mpl (Some mpl)) s4 = Returns s5
     \<and> sget (chans s5) out = \<lparr>ch_recv = False, ch_val = Some (V_Mpl (Some mpl)), ch_closed = True\<rparr>
     \<and> mget (msgChans s5) (msgChansKey GetMasterPlaylistReqID (md_ManifestID mpld)) = None
     \<and> ch_closed (sget (chans s5) c)"
  using assms
  by (simp add: handleMasterPlaylistDataMsg_def chan_send_def Let_def reqResponse_def take_val_def
      reqReturn_def reqEnd_def chan_close_def mplArrived_def sendClose_def)

text \<open>
  The outcome of a round over the peers \<open>ps\<close> from \<open>s\<close>: the request waits with the peers after the
  one it asked, or has withdrawn.
\<close>

definition asked_once :: "env \<Rightarrow> ptr \<Rightarrow> ptr \<Rightarrow> string \<Rightarrow> Msg \<Rightarrow> node \<Rightarrow> peerID list \<Rightarrow> node \<Rightarrow> bool" where
  "asked_once env c rc key msg s ps s' \<longleftrightarrow> sget (chans s') rc = sget (chans s) rc
     \<and> ((\<exists>pre p rest. ps = pre @ p # rest \<and> p \<noteq> identity s \<and> GO_ReqWait c rc key msg rest \<in> set (gos s')
           \<and> ch_recv (sget (chans s') c)
           \<and> (sent_to env (hist s') = sent_to env (hist s)
              \<or> sent_to env (hist s') = (p, \<lparr>Op = Op msg, Data = Data msg\<rparr>) # sent_to env (hist s)))
        \<or> sent_to env (hist s') = sent_to env (hist s) \<and> mget (msgChans s') key = None
           \<and> ch_closed (sget (chans s') c))"

lemma asked_once_skip:
  assumes "asked_once env c rc key msg t ps s'"
    and "chans t = chans s" "sent_to env (hist t) = sent_to env (hist s)" "identity t = identity s"
  shows "asked_once env c rc key msg s (p # ps) s'"
  using assms unfolding asked_once_def by (metis append_Cons)

lemma asked_once_now:
  assumes "sget (chans s') rc = sget (chans s) rc" "p \<noteq> identity s"
    and "GO_ReqWait c rc key msg ps \<in> set (gos s')" "ch_recv (sget (chans s') c)"
    and "sent_to env (hist s') = sent_to env (hist s)
       \<or> sent_to env (hist s') = (p, \<lparr>Op = Op msg, Data = Data msg\<rparr>) # sent_to env (hist s)"
  shows "asked_once env c rc key msg s (p # ps) s'"
  unfolding asked_once_def
  by (intro conjI disjI1 exI [of _ "[]"] exI [of _ p] exI [of _ ps] assms) simp

lemma askPeers_once:
  assumes "rc \<noteq> c"
  shows "streams_ok env s \<Longrightarrow> askPeers env c rc key msg ps s = Returns s' \<Longrightarrow> asked_once env c rc key msg s ps s'"
proof (induction ps arbitrary: s)
  case Nil
  then show ?case
    using assms by (auto simp: asked_once_def reqEnd_def chan_close_def Let_def split: if_split_asm)
next
  case (Cons p ps)
  show ?case
  proof (cases "p = identity s")
    case True
    with Cons.IH [OF Cons.prems(1)] Cons.prems(2) asked_once_skip [of env c rc key msg s ps s' s] show ?thesis by simp
  next
    case False
    obtain st s1 where g: "GetOutStream env s p = (st, s1)" by fastforce
    note g1 = GetOutStream_ok [OF g Cons.prems(1)] GetOutStream_silent [OF g]
      io_frameD(1,17) [OF GetOutStream_frame [OF g]]
    show ?thesis
    proof (cases st)
      case None
      with False g Cons.prems(2) have "s' = spawn (GO_ReqWait c rc key msg ps) (set_recv c True s1)" by simp
      with False g1 assms show ?thesis by (intro asked_once_now) (simp_all add: set_recv_def)
    next
      case (Some sh)
      have rem: "\<forall>x. Some sh = Some x \<longrightarrow> RemotePeer env x = p"
        using GetOutStream_remote g Some Cons.prems(1) by blast
      obtain e s2 where sd: "sendMessageWithRetry env s1 p (Some (Basic (Some sh))) (Op msg) (Data msg) = (e, s2)"
        by fastforce
      note s2 = retry_sent [OF sd g1(1) rem] io_frameD(1,17) [OF retry_frame [OF sd]] retry_ok [OF sd g1(1)]
      show ?thesis
      proof (cases e)
        case None
        with False g Some sd Cons.prems(2)
        have "s' = spawn (GO_ReqWait c rc key msg ps) (set_recv c True s2)" by simp
        with False g1 s2 None assms show ?thesis by (intro asked_once_now) (simp_all add: set_recv_def)
      next
        case err: (Some err)
        with False g Some sd Cons.prems(2) have "askPeers env c rc key msg ps s2 = Returns s'" by simp
        from asked_once_skip [OF Cons.IH [OF s2(4) this]] s2 g1 err show ?thesis by simp
      qed
    qed
  qed
qed

text \<open>
  C25. One round of a request: until it waits, it sends the request at most once, to a peer of the
  list other than this node, and waits with the peers that follow that one; when the list is used
  up without a send, the request gives up, withdraws from the map and closes its channel, but
  never the one its client waits at.
\<close>

theorem request_asks_one_peer:
  assumes "streams_ok env s" and "askPeers env c rc key msg ps s = Returns s'" and "rc \<noteq> c"
  shows "sget (chans s') rc = sget (chans s) rc
     \<and> ((\<exists>pre p rest. ps = pre @ p # rest \<and> p \<noteq> identity s \<and> GO_ReqWait c rc key msg rest \<in> set (gos s')
           \<and> ch_recv (sget (chans s') c)
           \<and> (sent_to env (hist s') = sent_to env (hist s)
              \<or> sent_to env (hist s') = (p, \<lparr>Op = Op msg, Data = Data msg\<rparr>) # sent_to env (hist s)))
        \<or> sent_to env (hist s') = sent_to env (hist s) \<and> mget (msgChans s') key = None
           \<and> ch_closed (sget (chans s') c))"
  using askPeers_once [OF assms(3,1,2)] unfolding asked_once_def .

text \<open>The second attempt of a ping carries a Go string, which no message may hold.\<close>

lemma send_string_fails: "\<exists>err. SendMessage env s (Basic (Some sh)) op (D_String t) = (Some err, s)"
  by (simp add: SendMessage_def BasicSendMessage_def encodeAndFlush_def MarshalJSON_def marshal_data_def)

lemma pingSend_None:
  assumes "pingSend env s pid nid addrs sh nonce = (None, s')"
  shows "SendMessage env s (Basic (Some sh)) PingID (D_Ping nonce) = (None, s')"
proof -
  obtain e s1 where m: "SendMessage env s (Basic (Some sh)) PingID (D_Ping nonce) = (e, s1)" by fastforce
  show ?thesis
  proof (cases e)
    case None
    with m assms show ?thesis by (simp add: pingSend_def)
  next
    case (Some err)
    have f: "SendMessage env t (Basic (Some sh')) PingID (D_String []) \<noteq> (None, t')" for t t' sh'
      using send_string_fails [of env t sh' PingID "[]"] by auto
    with m Some assms have False
      by (auto simp: pingSend_def split: prod.split_asm option.split_asm if_split_asm)
    then show ?thesis ..
  qed
qed

lemma Connect_io:
  assumes "Connect env s nid as = (e, s')"
  shows "outStreams s' = outStreams s" "sent_to env (hist s') = sent_to env (hist s)" "pingChs s' = pingChs s"
    "identity s' = identity s"
  using assms by (auto simp: Connect_def connectPeerInfo_def split: sum.split_asm option.split_asm)

text \<open>
  C36. \<^verbatim>\<open>Ping\<close>: when it returns a channel, a ping with a nonce of twenty hexadecimal
  digits has left the node exactly once, to the peer that the id names, and the channel is
  registered under that nonce.
\<close>

theorem ping_registers_its_nonce:
  assumes "streams_ok env s" and "Ping env s nid = (Inr ch, s')"
  shows "\<exists>pid nonce. IDHexDecode env nid = Inr pid \<and> length nonce = 20
     \<and> sent_to env (hist s') = (pid, \<lparr>Op = PingID, Data = D_Ping nonce\<rparr>) # sent_to env (hist s)
     \<and> pingChs s' = mput (pingChs s) nonce ch"
proof -
  obtain s0 where n: "new_chan s = (ch, s0)" and r: "Ping env s nid = (Inr ch, s')"
    using assms(2) by (cases "new_chan s") (auto simp: Ping_def Let_def split: sum.split_asm option.split_asm prod.split_asm)
  from r n obtain pid addrs s1 sh s2 s4 where
    d: "IDHexDecode env nid = Inr pid" and c: "reconnect env s0 pid nid addrs = (None, s1)" and
    g: "GetOutStream env s1 pid = (Some sh, s2)" and
    p: "pingSend env (log E_Rand s2) pid nid addrs sh (randStr env (hist s2)) = (None, s4)" and
    s': "s' = s4\<lparr>pingChs := mput (pingChs s4) (randStr env (hist s2)) ch\<rparr>"
    by (auto simp: Ping_def Let_def split: sum.split_asm option.split_asm prod.split_asm)
  have s1: "outStreams s1 = outStreams s" "sent_to env (hist s1) = sent_to env (hist s)" "pingChs s1 = pingChs s"
    using c new_chan_spec [OF n] Connect_io [of env "log (E_ClosePeer pid) s0"]
    by (auto simp: reconnect_def split: if_split_asm)
  have ok: "streams_ok env s1" using assms(1) streams_ok_cong [OF s1(1)] by simp
  note m = pingSend_None [OF p]
  have "RemotePeer env sh = pid" using GetOutStream_remote g ok by blast
  with SendMessage_delivers [OF m] GetOutStream_silent [OF g] s1(2)
  have "sent_to env (hist s4) = (pid, \<lparr>Op = PingID, Data = D_Ping (randStr env (hist s2))\<rparr>) # sent_to env (hist s)"
    by auto
  moreover have "pingChs s4 = pingChs s"
    using io_frameD(11) [OF SendMessage_frame [OF m]] io_frameD(11) [OF GetOutStream_frame [OF g]] s1(3) by simp
  ultimately show ?thesis
    using d s' length_randStr by (intro exI [of _ pid] exI [of _ "randStr env (hist s2)"]) simp
qed

text \<open>
  The retry of \<^verbatim>\<open>Ping\<close> cannot succeed, even if the connection was made again: its message
  has no wire form. Any failure of the first attempt is a failure of the ping.
\<close>

lemma ping_retry_never_succeeds:
  assumes "SendMessage env s (Basic (Some sh)) PingID (D_Ping nonce) = (Some err, s1)"
  shows "fst (pingSend env s pid nid addrs sh nonce) \<noteq> None"
  using assms pingSend_None [of env s pid nid addrs sh nonce] by (cases "pingSend env s pid nid addrs sh nonce") auto

text \<open>
  Two requests for the same manifest or node: the end of the first withdraws the entry of the
  second, although the second still waits, so that the answer to the second is an error.
\<close>

lemma overlapping_requests_lose_answer:
  assumes "mget (msgChans s) (msgChansKey GetMasterPlaylistReqID (md_ManifestID mpld)) = Some c2" and "c1 \<noteq> c2"
    and "ch_recv (sget (chans s) c2)"
    and "reqEnd c1 (msgChansKey GetMasterPlaylistReqID (md_ManifestID mpld)) s = Returns s'"
    and "mget (relayers s) (relayerMapKey (md_ManifestID mpld) GetMasterPlaylistReqID) = None"
  shows "ch_recv (sget (chans s') c2) \<and> handleMasterPlaylistDataMsg env s' mpld = Returns (Some ErrHandleMsg, s')"
  using assms
  by (auto simp: reqEnd_def chan_close_def Let_def handleMasterPlaylistDataMsg_def split: if_split_asm)

text \<open>
  When a request was never answered its goroutine ends, but the channel at which the goroutine of
  \<^verbatim>\<open>GetMasterPlaylist\<close> waits is neither sent to nor closed: that goroutine and the client behind
  it wait for ever.
\<close>

lemma unanswered_request_never_ends:
  assumes "reqEnd c key s = Returns s'" and "rc \<noteq> c" and "ch_val (sget (chans s) rc) = None"
  shows "mplArrived env rc out s' = None \<and> sget (chans s') rc = sget (chans s) rc"
  using assms by (auto simp: reqEnd_def chan_close_def Let_def mplArrived_def split: if_split_asm)

section \<open>Witnesses\<close>

definition demo_request :: node where
  "demo_request = demo_node\<lparr>msgChans := [(msgChansKey GetMasterPlaylistReqID ''m'', 0)],
     chans := \<lparr>cells = (\<lambda>_. \<lparr>ch_recv = True, ch_val = None, ch_closed = False\<rparr>), fresh = 3\<rparr>\<rparr>"

lemma demo_request_facts:
  "mget (msgChans demo_request) (msgChansKey GetMasterPlaylistReqID ''m'') = Some 0"
  "sget (chans demo_request) c = \<lparr>ch_recv = True, ch_val = None, ch_closed = False\<rparr>"
  by (simp_all add: demo_request_def sget_def)

lemma request_asks_one_peer_witness:
  "\<exists>s'. askPeers demo_env 0 1 ''k'' \<lparr>Op = PingID, Data = D_Ping ''n''\<rparr> [pMe, pA] demo_request = Returns s'
     \<and> sget (chans s') 1 = sget (chans demo_request) 1"
proof -
  have ok: "streams_ok demo_env demo_request" by (simp add: demo_request_def streams_ok_def)
  have "identity demo_request = pMe" "outStreams demo_request = []" by (simp_all add: demo_request_def)
  then obtain s' where r: "askPeers demo_env 0 1 ''k'' \<lparr>Op = PingID, Data = D_Ping ''n''\<rparr> [pMe, pA] demo_request = Returns s'"
    by (simp add: send_simps)
  from request_asks_one_peer [OF ok r] r show ?thesis by simp
qed

lemma ping_registers_its_nonce_witness:
  "\<exists>nonce (s' :: node). length nonce = 20 \<and> sent_to demo_env (hist s') = [(pA, \<lparr>Op = PingID, Data = D_Ping nonce\<rparr>)]"
proof -
  obtain ch s' where r: "Ping demo_env demo_node pA = (Inr ch, s')"
    by (simp add: Ping_def new_chan_def snew_def reconnect_def pingSend_def send_simps)
  from ping_registers_its_nonce [OF demo_node_ok r] show ?thesis by auto
qed

end
