(* ===== verification/Dispatch.thy ===== *)
theory Dispatch
  imports Requests
begin

text \<open>
  The protocol of an incoming stream: reading a message (\<^verbatim>\<open>basic_in_stream.go\<close>),
  \<^verbatim>\<open>streamHandler\<close> with its duplicate filter and its switch over the opcodes, and the loop
  of \<^verbatim>\<open>SetupProtocol\<close> that ends the stream at the first serious error.
\<close>

text \<open>What the stream yields: a transport error, or the bytes of one JSON value.\<close>

datatype rx = RxErr go_error | RxJson bytes

definition ReceiveMessage :: "env \<Rightarrow> rx \<Rightarrow> go_error + Msg" where
  "ReceiveMessage env x =
     (case x of
        RxErr e \<Rightarrow> Inl e
      | RxJson b \<Rightarrow> (case UnmarshalJSON env b of Inl t \<Rightarrow> Inl (ErrText t) | Inr m \<Rightarrow> Inr m))"

text \<open>A failing type assertion without the \<^verbatim>\<open>ok\<close> form panics.\<close>

definition msgSentCacheKey :: "env \<Rightarrow> node \<Rightarrow> peerID \<Rightarrow> Opcode \<Rightarrow> gdata \<Rightarrow> string outcome" where
  "msgSentCacheKey env s p opcode msg =
     (if opcode = GetMasterPlaylistReqID then
        (case msg of
           D_GetMasterPlaylistReq m \<Rightarrow>
             Returns (IDHexEncode env p @ ''|'' @ decimal (unat opcode) @ ''|'' @ mr_ManifestID m)
         | _ \<Rightarrow> Panics)
      else if opcode = MasterPlaylistDataID then
        (case msg of
           D_MasterPlaylistData m \<Rightarrow>
             Returns (IDHexEncode env p @ ''|'' @ decimal (unat opcode) @ ''|'' @ md_ManifestID m)
         | _ \<Rightarrow> Panics)
      else Returns (randStr env (hist s)))"

definition count_msg :: "Opcode \<Rightarrow> node \<Rightarrow> node" where
  "count_msg op s = s\<lparr>msgCounts := (msgCounts s)(op := msgCounts s op + 1)\<rparr>"

text \<open>The switch over the opcode; \<^verbatim>\<open>ErrProtocol\<close> where the type assertion fails.\<close>

definition dispatch :: "env \<Rightarrow> node \<Rightarrow> peerID \<Rightarrow> Msg \<Rightarrow> (go_error option \<times> node) outcome" where
  "dispatch env s remote m =
     (let op = Op m in
      if op = SubReqID then
        (case Data m of
           D_SubReq sr \<Rightarrow> Returns (handleSubReq env (count_msg op s) sr remote)
         | _ \<Rightarrow> Returns (Some ErrProtocol, s))
      else if op = CancelSubID then
        (case Data m of
           D_CancelSub cr \<Rightarrow> Returns (handleCancelSubReq env (count_msg op s) cr remote)
         | _ \<Rightarrow> Returns (Some ErrProtocol, s))
      else if op = StreamDataID then
        (case Data m of
           D_StreamData sd \<Rightarrow>
             map_outcome (\<lambda>(err, s1). (if err = Some ErrProtocol then None else err, count_msg op s1))
               (handleStreamData env s remote sd)
         | _ \<Rightarrow> Returns (Some ErrProtocol, s))
      else if op = FinishStreamID then
        (case Data m of
           D_FinishStream fs \<Rightarrow> handleFinishStream env (count_msg op s) fs
         | _ \<Rightarrow> Returns (Some ErrProtocol, s))
      else if op = TranscodeResponseID then
        (case Data m of
           D_TranscodeResponse tr \<Rightarrow> Returns (handleTranscodeResponse env (count_msg op s) remote tr)
         | _ \<Rightarrow> Returns (Some ErrProtocol, s))
      else if op = TranscodeSubID then
        (case Data m of
           D_TranscodeSub ts \<Rightarrow> Returns (handleTranscodeSub env (count_msg op s) remote ts)
         | _ \<Rightarrow> Returns (Some ErrProtocol, s))
      else if op = GetMasterPlaylistReqID then
        (case Data m of
           D_GetMasterPlaylistReq r \<Rightarrow> Returns (handleGetMasterPlaylistReq env (count_msg op s) remote r)
         | _ \<Rightarrow> Returns (Some ErrProtocol, s))
      else if op = MasterPlaylistDataID then
        (case Data m of
           D_MasterPlaylistData d \<Rightarrow> handleMasterPlaylistDataMsg env (count_msg op s) d
         | _ \<Rightarrow> Returns (Some ErrProtocol, s))
      else if op = NodeStatusReqID then
        (case Data m of
           D_NodeStatusReq r \<Rightarrow> Returns (handleNodeStatusReqMsg env (count_msg op s) remote r)
         | _ \<Rightarrow> Returns (Some ErrProtocol, s))
      else if op = NodeStatusDataID then
        (case Data m of
           D_NodeStatusData d \<Rightarrow> handleNodeStatusDataMsg env (count_msg op s) d
         | _ \<Rightarrow> Returns (Some ErrProtocol, s))
      else if op = PingID then
        (case Data m of
           D_Ping pd \<Rightarrow> Returns (handlePing env s remote pd)
         | _ \<Rightarrow> Returns (Some ErrProtocol, s))
      else if op = PongID then
        (case Data m of
           D_Pong pd \<Rightarrow> handlePong s remote pd
         | _ \<Rightarrow> Returns (Some ErrProtocol, s))
      else Returns (Some ErrUnknownMsg, s))"

definition streamHandler :: "env \<Rightarrow> node \<Rightarrow> peerID \<Rightarrow> rx \<Rightarrow> (go_error option \<times> node) outcome" where
  "streamHandler env s remote x =
     (case ReceiveMessage env x of
        Inl e \<Rightarrow> Returns (Some e, s)
      | Inr m \<Rightarrow>
          let s0 = log (E_Recv remote) s in
          if Op m = GetMasterPlaylistReqID \<or> Op m = MasterPlaylistDataID then
            (case msgSentCacheKey env s0 remote (Op m) (Data m) of
               Panics \<Rightarrow> Panics
             | Blocks \<Rightarrow> Blocks
             | Returns key \<Rightarrow>
                 if CacheHas env (hist s0) key then Returns (None, s0)
                 else dispatch env (log (E_CacheAdd key) s0) remote m)
          else dispatch env s0 remote m)"

text \<open>
  The loop of \<^verbatim>\<open>SetupProtocol\<close> over what the stream yields: \<^verbatim>\<open>ErrHandleMsg\<close> is
  ignored, any other error drops the cached stream to the peer, resets the incoming one and ends
  the loop. The result tells whether the stream is still served and what was not read.
\<close>

fun protocolLoop :: "env \<Rightarrow> peerID \<Rightarrow> rx list \<Rightarrow> node \<Rightarrow> (bool \<times> rx list \<times> node) outcome" where
  "protocolLoop env remote [] s = Returns (True, [], s)"
| "protocolLoop env remote (x # xs) s =
     (case streamHandler env s remote x of
        Panics \<Rightarrow> Panics
      | Blocks \<Rightarrow> Blocks
      | Returns (err, s1) \<Rightarrow>
          (case err of
             None \<Rightarrow> protocolLoop env remote xs s1
           | Some e \<Rightarrow>
               if e \<noteq> ErrHandleMsg
               then Returns (False, xs, log (E_ResetIncoming remote) (RemoveStream s1 remote))
               else protocolLoop env remote xs s1))"

section \<open>Properties\<close>

lemma ReceiveMessage_well_typed: "ReceiveMessage env x = Inr m \<Longrightarrow> well_typed m"
  by (auto simp: ReceiveMessage_def dest: UnmarshalJSON_well_typed split: rx.splits sum.splits)

lemma well_typed_cases:
  assumes "well_typed m"
  obtains (SubReq) d where "Data m = D_SubReq d" "Op m = SubReqID"
  | (CancelSub) d where "Data m = D_CancelSub d" "Op m = CancelSubID"
  | (StreamData) d where "Data m = D_StreamData d" "Op m = StreamDataID"
  | (FinishStream) d where "Data m = D_FinishStream d" "Op m = FinishStreamID"
  | (TranscodeResponse) d where "Data m = D_TranscodeResponse d" "Op m = TranscodeResponseID"
  | (TranscodeSub) d where "Data m = D_TranscodeSub d" "Op m = TranscodeSubID"
  | (GetMasterPlaylistReq) d where "Data m = D_GetMasterPlaylistReq d" "Op m = GetMasterPlaylistReqID"
  | (MasterPlaylistData) d where "Data m = D_MasterPlaylistData d" "Op m = MasterPlaylistDataID"
  | (NodeStatusReq) d where "Data m = D_NodeStatusReq d" "Op m = NodeStatusReqID"
  | (NodeStatusData) d where "Data m = D_NodeStatusData d" "Op m = NodeStatusDataID"
  | (Ping) d where "Data m = D_Ping d" "Op m = PingID"
  | (Pong) d where "Data m = D_Pong d" "Op m = PongID"
  using assms by (cases "Data m") (auto simp: well_typed_def)

text \<open>
  The routing the switch is meant to do, by the Go type of the message alone. Ping and pong are not
  counted; stream data is counted after it was handled, and its protocol errors are ignored.
\<close>

fun route :: "env \<Rightarrow> node \<Rightarrow> peerID \<Rightarrow> gdata \<Rightarrow> (go_error option \<times> node) outcome" where
  "route env s q (D_SubReq m) = Returns (handleSubReq env (count_msg SubReqID s) m q)"
| "route env s q (D_CancelSub m) = Returns (handleCancelSubReq env (count_msg CancelSubID s) m q)"
| "route env s q (D_StreamData m) =
     map_outcome (\<lambda>(err, s1). (if err = Some ErrProtocol then None else err, count_msg StreamDataID s1))
       (handleStreamData env s q m)"
| "route env s q (D_FinishStream m) = handleFinishStream env (count_msg FinishStreamID s) m"
| "route env s q (D_TranscodeResponse m) =
     Returns (handleTranscodeResponse env (count_msg TranscodeResponseID s) q m)"
| "route env s q (D_TranscodeSub m) = Returns (handleTranscodeSub env (count_msg TranscodeSubID s) q m)"
| "route env s q (D_GetMasterPlaylistReq m) =
     Returns (handleGetMasterPlaylistReq env (count_msg GetMasterPlaylistReqID s) q m)"
| "route env s q (D_MasterPlaylistData m) =
     handleMasterPlaylistDataMsg env (count_msg MasterPlaylistDataID s) m"
| "route env s q (D_NodeStatusReq m) =
     Returns (handleNodeStatusReqMsg env (count_msg NodeStatusReqID s) q m)"
| "route env s q (D_NodeStatusData m) = handleNodeStatusDataMsg env (count_msg NodeStatusDataID s) m"
| "route env s q (D_Ping m) = Returns (handlePing env s q m)"
| "route env s q (D_Pong m) = handlePong s q m"
| "route env s q _ = Returns (Some ErrUnknownMsg, s)"

lemma dispatch_route:
  assumes "well_typed m"
  shows "dispatch env s q m = route env s q (Data m)"
  using assms by (cases rule: well_typed_cases) (simp_all add: dispatch_def Let_def opcode_defs)

text \<open>
  C29. A message that came off a stream is always handed to the handler of its own type: whatever
  bytes a peer sends, no type assertion of the switch or of the duplicate filter fails, so neither
  \<^verbatim>\<open>ErrProtocol\<close> nor \<^verbatim>\<open>ErrUnknownMsg\<close> is returned by the switch itself, and
  the filter does not panic.
\<close>

theorem received_message_routed:
  assumes "ReceiveMessage env x = Inr m"
  shows "dispatch env s q m = route env s q (Data m)
     \<and> (\<exists>key. msgSentCacheKey env s q (Op m) (Data m) = Returns key)"
proof
  show "dispatch env s q m = route env s q (Data m)"
    by (rule dispatch_route [OF ReceiveMessage_well_typed [OF assms]])
  show "\<exists>key. msgSentCacheKey env s q (Op m) (Data m) = Returns key"
    using ReceiveMessage_well_typed [OF assms]
    by (cases rule: well_typed_cases) (simp_all add: msgSentCacheKey_def opcode_defs)
qed

fun manifest_of :: "gdata \<Rightarrow> string" where
  "manifest_of (D_GetMasterPlaylistReq m) = mr_ManifestID m"
| "manifest_of (D_MasterPlaylistData m) = md_ManifestID m"
| "manifest_of _ = []"

lemma msgSentCacheKey_eq:
  assumes "well_typed m" "Op m = GetMasterPlaylistReqID \<or> Op m = MasterPlaylistDataID"
  shows "msgSentCacheKey env s p (Op m) (Data m) =
     Returns (IDHexEncode env p @ CHR ''|'' # decimal (unat (Op m)) @ CHR ''|'' # manifest_of (Data m))"
  using assms(1) by (cases rule: well_typed_cases)
    (use assms(2) in \<open>simp_all add: msgSentCacheKey_def opcode_defs\<close>)

text \<open>
  C33. The key of the duplicate filter stands for exactly the peer, the opcode and the manifest id:
  two playlist messages share a key only if all three agree, and then they always do, whatever the
  rest of the messages says. (So an answer "not found" hides the playlist that follows it from the
  same peer within the two seconds of the cache.)
\<close>

theorem duplicate_key_identifies:
  assumes "hex_injective env" and "CHR ''|'' \<notin> set (IDHexEncode env p)" and "CHR ''|'' \<notin> set (IDHexEncode env p')"
    and "well_typed m" and "Op m = GetMasterPlaylistReqID \<or> Op m = MasterPlaylistDataID"
    and "well_typed m'" and "Op m' = GetMasterPlaylistReqID \<or> Op m' = MasterPlaylistDataID"
  shows "msgSentCacheKey env s p (Op m) (Data m) = msgSentCacheKey env s' p' (Op m') (Data m')
     \<longleftrightarrow> p = p' \<and> Op m = Op m' \<and> manifest_of (Data m) = manifest_of (Data m')"
  using assms
  by (simp add: msgSentCacheKey_eq key_split bar_not_decimal decimal_inj hex_injectiveD word_unat_eq_iff)

text \<open>
  C32. The loop of \<^verbatim>\<open>SetupProtocol\<close> serves a stream up to the first error other than
  \<^verbatim>\<open>ErrHandleMsg\<close>: everything before it was handled, what follows is not read, the incoming
  stream is reset and the cached outgoing stream to that peer is dropped. Without such an error
  everything is read.
\<close>

theorem protocol_loop_result:
  assumes "protocolLoop env q xs s = Returns (alive, rest, s')"
  shows "if alive then rest = []
     else \<exists>pre x s1 s2 e. xs = pre @ x # rest \<and> protocolLoop env q pre s = Returns (True, [], s1)
        \<and> streamHandler env s1 q x = Returns (Some e, s2) \<and> e \<noteq> ErrHandleMsg
        \<and> s' = log (E_ResetIncoming q) (RemoveStream s2 q) \<and> mget (outStreams s') q = None"
  using assms
proof (induction xs arbitrary: s)
  case Nil
  then show ?case by simp
next
  case (Cons x xs)
  from Cons.prems obtain err s1 where h: "streamHandler env s q x = Returns (err, s1)"
    by (auto split: outcome.split_asm)
  show ?case
  proof (cases "\<exists>e. err = Some e \<and> e \<noteq> ErrHandleMsg")
    case True
    then obtain e where e: "err = Some e" "e \<noteq> ErrHandleMsg" by blast
    with h Cons.prems have r: "alive = False" "rest = xs"
      "s' = log (E_ResetIncoming q) (RemoveStream s1 q)" by simp_all
    then have "mget (outStreams s') q = None" by (simp add: RemoveStream_def)
    with r h e have "x # xs = [] @ x # rest \<and> protocolLoop env q [] s = Returns (True, [], s)
        \<and> streamHandler env s q x = Returns (Some e, s1) \<and> e \<noteq> ErrHandleMsg
        \<and> s' = log (E_ResetIncoming q) (RemoveStream s1 q) \<and> mget (outStreams s') q = None" by simp
    with r(1) show ?thesis by (simp only: if_False) blast
  next
    case False
    then have go: "protocolLoop env q (x # ys) s = protocolLoop env q ys s1" for ys
      using h by (auto split: option.split)
    note IH = Cons.IH [OF Cons.prems [unfolded go]]
    show ?thesis
    proof (cases alive)
      case True
      with IH show ?thesis by simp
    next
      case dead: False
      with IH obtain pre y t1 t2 e where ih: "xs = pre @ y # rest" "protocolLoop env q pre s1 = Returns (True, [], t1)"
        "streamHandler env t1 q y = Returns (Some e, t2)" "e \<noteq> ErrHandleMsg"
        "s' = log (E_ResetIncoming q) (RemoveStream t2 q)" "mget (outStreams s') q = None"
        by (simp only: if_False) blast
      have "x # xs = (x # pre) @ y # rest" using ih(1) by simp
      moreover have "protocolLoop env q (x # pre) s = Returns (True, [], t1)" unfolding go by (rule ih(2))
      ultimately show ?thesis using dead ih(3-6) by (simp only: if_False) blast
    qed
  qed
qed

section \<open>Witnesses\<close>

definition demo_rx :: rx where "demo_rx = RxJson (char_of (10::nat) # ''n'')"

lemma demo_rx_msg: "ReceiveMessage demo_env demo_rx = Inr \<lparr>Op = PingID, Data = D_Ping ''n''\<rparr>"
  by (simp add: ReceiveMessage_def demo_rx_def UnmarshalJSON_def demo_jsonDecode_def unmarshal_data_def
      decode_as_def opcode_defs)

lemma received_message_routed_witness:
  "dispatch demo_env demo_node pA \<lparr>Op = PingID, Data = D_Ping ''n''\<rparr> = Returns (handlePing demo_env demo_node pA ''n'')"
  using received_message_routed [OF demo_rx_msg, of demo_node pA] by simp

lemma duplicate_key_identifies_witness:
  "msgSentCacheKey demo_env demo_node pA GetMasterPlaylistReqID (D_GetMasterPlaylistReq \<lparr>mr_ManifestID = ''m''\<rparr>)
   \<noteq> msgSentCacheKey demo_env demo_node pB GetMasterPlaylistReqID (D_GetMasterPlaylistReq \<lparr>mr_ManifestID = ''m''\<rparr>)"
  using duplicate_key_identifies [of demo_env pA pB
      "\<lparr>Op = GetMasterPlaylistReqID, Data = D_GetMasterPlaylistReq \<lparr>mr_ManifestID = ''m''\<rparr>\<rparr>"
      "\<lparr>Op = GetMasterPlaylistReqID, Data = D_GetMasterPlaylistReq \<lparr>mr_ManifestID = ''m''\<rparr>\<rparr>" demo_node demo_node]
  by (simp add: well_typed_def)

text \<open>A ping is served, then a transport error ends the stream before the second ping.\<close>

lemma protocol_loop_result_witness:
  "\<exists>s'. protocolLoop demo_env pA [demo_rx, RxErr ErrNotFound, demo_rx] demo_node = Returns (False, [demo_rx], s')
     \<and> mget (outStreams s') pA = None"
proof -
  obtain e s1 where h: "handlePing demo_env (log (E_Recv pA) demo_node) pA ''n'' = (e, s1)" by fastforce
  have "e = None" using h by (auto simp: handlePing_def as_handle_error_def send_simps split: option.split_asm)
  with h demo_rx_msg have "streamHandler demo_env demo_node pA demo_rx = Returns (None, s1)"
    by (simp add: streamHandler_def dispatch_def Let_def opcode_defs)
  then have p: "protocolLoop demo_env pA [demo_rx, RxErr ErrNotFound, demo_rx] demo_node
      = Returns (False, [demo_rx], log (E_ResetIncoming pA) (RemoveStream s1 pA))"
    by (simp add: streamHandler_def [of _ _ _ "RxErr _"] ReceiveMessage_def)
  with protocol_loop_result [OF p] show ?thesis by auto
qed

end
