(* ===== verification/PeerCache.thy ===== *)
theory PeerCache
  imports Dispatch
begin

text \<open>
  \<^verbatim>\<open>peerCache.go\<close>: the peers a node knows are written to a file, one line
  \<^verbatim>\<open>id|addr,addr,...\<close> for each peer with an address, and read back when the node starts.
  The file is \<open>None\<close> when it cannot be read.
\<close>

section \<open>Reading\<close>

record PeerInfo =
  pi_ID :: peerID
  pi_Addrs :: "multiaddr list"

text \<open>The addresses that cannot be parsed are left out; so is a line without exactly one bar.\<close>

fun load_addrs :: "env \<Rightarrow> string list \<Rightarrow> multiaddr list" where
  "load_addrs env [] = []"
| "load_addrs env (addr # addrs) =
     (case NewMultiaddr env addr of
        Inl _ \<Rightarrow> load_addrs env addrs
      | Inr maAddr \<Rightarrow> maAddr # load_addrs env addrs)"

definition load_line :: "env \<Rightarrow> string \<Rightarrow> PeerInfo list" where
  "load_line env line =
     (case split_on (CHR ''|'') line of
        [l0, l1] \<Rightarrow>
          (case IDHexDecode env l0 of
             Inl _ \<Rightarrow> []
           | Inr pid \<Rightarrow> [\<lparr>pi_ID = pid, pi_Addrs = load_addrs env (split_on (CHR '','') l1)\<rparr>])
      | _ \<Rightarrow> [])"

definition LoadPeers :: "env \<Rightarrow> bytes option \<Rightarrow> PeerInfo list" where
  "LoadPeers env file =
     (case file of
        None \<Rightarrow> []
      | Some bytes \<Rightarrow> concat (map (load_line env) (split_on (CHR ''\<newline>'') bytes)))"

section \<open>Writing\<close>

text \<open>\<^verbatim>\<open>Peerstore.PeerInfo\<close>: the id with the addresses of the peerstore.\<close>

definition GetPeerInfo :: "env \<Rightarrow> history \<Rightarrow> peerID \<Rightarrow> PeerInfo" where
  "GetPeerInfo env h p =
     \<lparr>pi_ID = p, pi_Addrs = (case PeerAddrs env h p of None \<Rightarrow> [] | Some addrs \<Rightarrow> addrs)\<rparr>"

definition peer_line :: "env \<Rightarrow> PeerInfo \<Rightarrow> string" where
  "peer_line env pInfo =
     IDHexEncode env (pi_ID pInfo) @ CHR ''|'' # join_with (CHR '','') (map (maString env) (pi_Addrs pInfo))"

fun recordLoop :: "env \<Rightarrow> history \<Rightarrow> peerID list \<Rightarrow> string \<Rightarrow> string" where
  "recordLoop env h [] str = str"
| "recordLoop env h (p # ps) str =
     (let pInfo = GetPeerInfo env h p
      in recordLoop env h ps
           (if length (pi_Addrs pInfo) > 0 then str @ CHR ''\<newline>'' # peer_line env pInfo else str))"

text \<open>What a tick writes, if it writes.\<close>

definition recordTick :: "env \<Rightarrow> history \<Rightarrow> bytes option" where
  "recordTick env h =
     (let peers = Peers env h in
      if length peers = 0 then None
      else let str = recordLoop env h peers [] in if length str > 0 then Some str else None)"

text \<open>
  The loop of \<^verbatim>\<open>Record\<close> over the events its select meets: a tick, a tick at which
  writing fails and leaves the file in some state, or the end of the context, after which nothing
  happens any more.
\<close>

datatype record_event = Tick history | TickFails history "bytes option" | Done

fun Record :: "env \<Rightarrow> record_event list \<Rightarrow> bytes option \<Rightarrow> bytes option" where
  "Record env [] file = file"
| "Record env (Done # evs) file = file"
| "Record env (Tick h # evs) file =
     Record env evs (case recordTick env h of None \<Rightarrow> file | Some str \<Rightarrow> Some str)"
| "Record env (TickFails h left # evs) file =
     Record env evs (case recordTick env h of None \<Rightarrow> file | Some str \<Rightarrow> left)"

section \<open>Lines\<close>

lemma split_on_append_sep: "split_on c (xs @ c # ys) = split_on c xs @ split_on c ys"
proof (induction xs)
  case (Cons x xs)
  then show ?case
    using split_on_nonempty [of c xs] by (cases "split_on c xs") auto
qed simp

lemma load_line_Nil [simp]: "load_line env [] = []"
  by (simp add: load_line_def)

lemma LoadPeers_append:
  "LoadPeers env (Some (xs @ CHR ''\<newline>'' # ys)) = LoadPeers env (Some xs) @ LoadPeers env (Some ys)"
  by (simp add: LoadPeers_def split_on_append_sep)

lemma LoadPeers_line:
  "CHR ''\<newline>'' \<notin> set l \<Longrightarrow> LoadPeers env (Some l) = load_line env l"
  by (simp add: LoadPeers_def split_on_none)

text \<open>
  The documented formats: the hexadecimal form of an id decodes to the id and holds no separator;
  nor does the text of an address, which parses to the address.
\<close>

definition id_format :: "env \<Rightarrow> peerID \<Rightarrow> bool" where
  "id_format env p \<longleftrightarrow>
     IDHexDecode env (IDHexEncode env p) = Inr p \<and>
     CHR ''|'' \<notin> set (IDHexEncode env p) \<and> CHR ''\<newline>'' \<notin> set (IDHexEncode env p)"

definition addr_format :: "env \<Rightarrow> multiaddr \<Rightarrow> bool" where
  "addr_format env m \<longleftrightarrow>
     NewMultiaddr env (maString env m) = Inr m \<and>
     CHR ''|'' \<notin> set (maString env m) \<and> CHR '','' \<notin> set (maString env m) \<and>
     CHR ''\<newline>'' \<notin> set (maString env m)"

definition info_format :: "env \<Rightarrow> PeerInfo \<Rightarrow> bool" where
  "info_format env i \<longleftrightarrow>
     id_format env (pi_ID i) \<and> (\<forall>m \<in> set (pi_Addrs i). addr_format env m)"

lemma load_addrs_render:
  "\<forall>m \<in> set ms. addr_format env m \<Longrightarrow> load_addrs env (map (maString env) ms) = ms"
  by (induction ms) (auto simp: addr_format_def)

lemma join_addrs_free:
  assumes "\<forall>m \<in> set ms. addr_format env m" "c = CHR ''|'' \<or> c = CHR ''\<newline>''"
  shows "c \<notin> set (join_with (CHR '','') (map (maString env) ms))"
proof
  assume "c \<in> set (join_with (CHR '','') (map (maString env) ms))"
  then have "c = CHR '','' \<or> (\<exists>x \<in> set (map (maString env) ms). c \<in> set x)" by (rule join_chars)
  with assms show False by (auto simp: addr_format_def)
qed

lemma peer_line_newline:
  assumes "info_format env i"
  shows "CHR ''\<newline>'' \<notin> set (peer_line env i)"
  using assms join_addrs_free [of "pi_Addrs i" env "CHR ''\<newline>''"]
  by (simp add: peer_line_def id_format_def info_format_def)

lemma load_peer_line:
  assumes "info_format env i" "pi_Addrs i \<noteq> []"
  shows "load_line env (peer_line env i) = [i]"
proof -
  have addrs: "\<forall>m \<in> set (pi_Addrs i). addr_format env m"
    using assms(1) by (simp add: info_format_def)
  let ?as = "map (maString env) (pi_Addrs i)"
  have bar: "CHR ''|'' \<notin> set (IDHexEncode env (pi_ID i))"
    and dec: "IDHexDecode env (IDHexEncode env (pi_ID i)) = Inr (pi_ID i)"
    using assms(1) by (simp_all add: id_format_def info_format_def)
  have "split_on (CHR ''|'') (peer_line env i) = [IDHexEncode env (pi_ID i), join_with (CHR '','') ?as]"
    using bar join_addrs_free [OF addrs, of "CHR ''|''"]
    by (simp add: peer_line_def split_on_sep split_on_none)
  moreover have "split_on (CHR '','') (join_with (CHR '','') ?as) = ?as"
    using assms(2) addrs by (intro split_on_join) (auto simp: addr_format_def)
  ultimately show ?thesis
    using dec load_addrs_render [OF addrs] by (simp add: load_line_def)
qed

definition known_peers :: "env \<Rightarrow> history \<Rightarrow> peerID list \<Rightarrow> PeerInfo list" where
  "known_peers env h ps = filter (\<lambda>i. pi_Addrs i \<noteq> []) (map (GetPeerInfo env h) ps)"

lemma LoadPeers_recordLoop:
  assumes "\<forall>i \<in> set (known_peers env h ps). info_format env i"
  shows "LoadPeers env (Some (recordLoop env h ps str)) = LoadPeers env (Some str) @ known_peers env h ps"
  using assms
proof (induction ps arbitrary: str)
  case (Cons p ps)
  let ?i = "GetPeerInfo env h p"
  show ?case
  proof (cases "pi_Addrs ?i = []")
    case True
    then show ?thesis using Cons by (simp add: known_peers_def)
  next
    case False
    then have ok: "info_format env ?i"
      using Cons.prems by (simp add: known_peers_def)
    have "LoadPeers env (Some (peer_line env ?i)) = [?i]"
      using LoadPeers_line [OF peer_line_newline] load_peer_line False ok by simp
    then show ?thesis
      using Cons False by (simp add: known_peers_def LoadPeers_append)
  qed
qed (simp add: known_peers_def)

lemma recordLoop_keeps: "str \<noteq> [] \<Longrightarrow> recordLoop env h ps str \<noteq> []"
  by (induction ps arbitrary: str) (simp_all add: Let_def)

lemma recordLoop_Nil: "recordLoop env h ps [] = [] \<longleftrightarrow> known_peers env h ps = []"
  by (induction ps) (auto simp: known_peers_def Let_def recordLoop_keeps)

lemma LoadPeers_Nil [simp]: "LoadPeers env (Some []) = []"
  by (simp add: LoadPeers_def)

text \<open>
  C39. What a tick writes, \<^verbatim>\<open>LoadPeers\<close> reads back: exactly the known peers that have
  an address, in the order of the peerstore, with their addresses. A tick that writes nothing has
  no such peer to write.
\<close>

theorem peer_cache_roundtrip:
  assumes "\<forall>i \<in> set (known_peers env h (Peers env h)). info_format env i"
  shows "case recordTick env h of
           Some str \<Rightarrow> LoadPeers env (Some str) = known_peers env h (Peers env h)
         | None \<Rightarrow> known_peers env h (Peers env h) = []"
  using LoadPeers_recordLoop [OF assms, of "[]"] recordLoop_Nil [of env h "Peers env h"]
  by (auto simp: recordTick_def Let_def known_peers_def)

lemma peer_cache_roundtrip_witness:
  "recordTick demo_env [] = Some (CHR ''\<newline>'' # pA @ ''|1'') \<and>
   LoadPeers demo_env (Some (CHR ''\<newline>'' # pA @ ''|1'')) = [\<lparr>pi_ID = pA, pi_Addrs = [Multiaddr 1]\<rparr>]"
proof -
  have one: "decimal 1 = ''1''" "undecimal ''1'' = 1" by code_simp+
  have known: "known_peers demo_env [] (Peers demo_env []) = [\<lparr>pi_ID = pA, pi_Addrs = [Multiaddr 1]\<rparr>]"
    by (simp add: known_peers_def GetPeerInfo_def)
  have "CHR ''\<newline>'' \<notin> set pA" by (simp add: pA_def)
  then have "info_format demo_env \<lparr>pi_ID = pA, pi_Addrs = [Multiaddr 1]\<rparr>"
    using one by (simp add: info_format_def id_format_def addr_format_def)
  then have "case recordTick demo_env [] of
               Some str \<Rightarrow> LoadPeers demo_env (Some str) = known_peers demo_env [] (Peers demo_env [])
             | None \<Rightarrow> known_peers demo_env [] (Peers demo_env []) = []"
    by (intro peer_cache_roundtrip) (simp only: known list.set ball_simps)
  moreover have "recordTick demo_env [] = Some (CHR ''\<newline>'' # pA @ ''|1'')"
    using one by (simp add: recordTick_def GetPeerInfo_def peer_line_def Let_def)
  ultimately show ?thesis using known by (simp only: option.case)
qed

text \<open>
  Reading is local to the lines: a line that is cut or garbled costs its own peer at most, and
  the peers of all other lines are loaded as if it were not there.
\<close>

theorem peer_cache_lines_local:
  assumes "CHR ''\<newline>'' \<notin> set l"
  shows "LoadPeers env (Some (xs @ CHR ''\<newline>'' # l @ CHR ''\<newline>'' # ys)) =
         LoadPeers env (Some xs) @ load_line env l @ LoadPeers env (Some ys) \<and>
         length (load_line env l) \<le> 1"
proof -
  have "length (load_line env l) \<le> 1"
    by (auto simp: load_line_def split: list.split sum.split)
  then show ?thesis
    using assms by (simp add: LoadPeers_append LoadPeers_line)
qed

lemma peer_cache_lines_local_witness:
  "LoadPeers demo_env (Some (''x'' @ CHR ''\<newline>'' # ''y|z|'' @ CHR ''\<newline>'' # ''B|2,'')) =
   [\<lparr>pi_ID = ''B'', pi_Addrs = [Multiaddr 2]\<rparr>]"
proof -
  have "undecimal ''2'' = 2" by code_simp
  then show ?thesis
    using peer_cache_lines_local [of "''y|z|''" demo_env "''x''" "''B|2,''"]
    by (simp add: LoadPeers_def load_line_def)
qed

end
