(* ===== verification/NetworkNode.thy ===== *)
theory NetworkNode
  imports PeerCache
begin

text \<open>
  The rest of \<^verbatim>\<open>network_node.go\<close> and \<^verbatim>\<open>basic_notifiee.go\<close>: how a node is made, the
  callbacks of libp2p when a connection opens or closes, the access to the peerstore; then the
  master playlists over the DHT and the \<^verbatim>\<open>String\<close> methods.
\<close>

section \<open>The notifiee\<close>

text \<open>A notifiee may have a monitor and a handler; a connection is its local and remote peer.\<close>

record BasicNotifiee =
  bn_monitor :: bool
  bn_disconnectHandler :: "(peerID \<Rightarrow> node \<Rightarrow> node) option"

definition NewBasicNotifiee :: "bool \<Rightarrow> BasicNotifiee" where
  "NewBasicNotifiee mon = \<lparr>bn_monitor = mon, bn_disconnectHandler = None\<rparr>"

definition HandleDisconnect :: "BasicNotifiee \<Rightarrow> (peerID \<Rightarrow> node \<Rightarrow> node) \<Rightarrow> BasicNotifiee" where
  "HandleDisconnect bn h = bn\<lparr>bn_disconnectHandler := Some h\<rparr>"

definition NotifieeConnected :: "BasicNotifiee \<Rightarrow> peerID \<Rightarrow> peerID \<Rightarrow> node \<Rightarrow> node" where
  "NotifieeConnected bn local remote s =
     (if bn_monitor bn then log (E_LogConn local remote) s else s)"

definition Disconnected :: "BasicNotifiee \<Rightarrow> peerID \<Rightarrow> peerID \<Rightarrow> node \<Rightarrow> node" where
  "Disconnected bn local remote s =
     (let s1 = (if bn_monitor bn then log (E_RemoveConn local remote) s else s)
      in case bn_disconnectHandler bn of None \<Rightarrow> s1 | Some h \<Rightarrow> h remote s1)"

section \<open>Making a node\<close>

text \<open>
  \<^verbatim>\<open>NewNode\<close> asks libp2p for the id of the public key and for a network; the host and the
  DHT built on them do not fail. The part of the node that this gives is \<open>new_node\<close> without an
  address, and the notifiee with a handler that drops the stream of the peer.
\<close>

definition NewNode ::
  "('key \<Rightarrow> go_error + peerID) \<Rightarrow> (peerID \<Rightarrow> go_error option) \<Rightarrow> 'key \<Rightarrow> BasicNotifiee
   \<Rightarrow> go_error + node \<times> BasicNotifiee" where
  "NewNode IDFromPublicKey NewNetwork pub f =
     (case IDFromPublicKey pub of
        Inl err \<Rightarrow> Inl err
      | Inr pid \<Rightarrow>
          (case NewNetwork pid of
             Some err \<Rightarrow> Inl err
           | None \<Rightarrow> Inr (new_node pid None, HandleDisconnect f (\<lambda>p s. RemoveStream s p))))"

definition SetSignFun :: "node \<Rightarrow> (bytes \<Rightarrow> go_error + bytes) option \<Rightarrow> node" where
  "SetSignFun s sign = s\<lparr>signFun := sign\<rparr>"

definition SetVerifyTranscoderSig :: "node \<Rightarrow> (bytes \<Rightarrow> bytes \<Rightarrow> string \<Rightarrow> bool) option \<Rightarrow> node" where
  "SetVerifyTranscoderSig s verify = s\<lparr>verifyFun := verify\<rparr>"

lemma NewNode_handler:
  "NewNode idf nwf pub f = Inr (n, bn) \<Longrightarrow> bn_disconnectHandler bn = Some (\<lambda>p s. RemoveStream s p)"
  by (auto simp: NewNode_def HandleDisconnect_def split: sum.split_asm option.split_asm)

section \<open>Peers\<close>

definition ID :: "node \<Rightarrow> peerID" where
  "ID s = identity s"

definition GetPeers :: "env \<Rightarrow> node \<Rightarrow> peerID list" where
  "GetPeers env s = Peers env (hist s)"

definition NodeConnect :: "env \<Rightarrow> node \<Rightarrow> PeerInfo \<Rightarrow> go_error option \<times> node" where
  "NodeConnect env s pi =
     (let err = HostConnect env (hist s) (pi_ID pi) (pi_Addrs pi)
      in (err, log (E_Connect (pi_ID pi) (pi_Addrs pi) (err = None)) s))"

definition AddPeer :: "node \<Rightarrow> PeerInfo \<Rightarrow> node" where
  "AddPeer s pi = log (E_AddPeer (pi_ID pi) (pi_Addrs pi)) s"

definition RemovePeer :: "node \<Rightarrow> peerID \<Rightarrow> node" where
  "RemovePeer s pid = log (E_RemovePeer pid) s"

lemma connectPeerInfo_calls:
  "connectPeerInfo env s (pi_ID info) (pi_Addrs info) =
     (case NodeConnect env s info of
        (None, s1) \<Rightarrow> (None, AddPeer s1 info)
      | (Some err, s1) \<Rightarrow> (Some err, RemovePeer s1 (pi_ID info)))"
  by (simp add: connectPeerInfo_def NodeConnect_def AddPeer_def RemovePeer_def split: option.split)

text \<open>
  After a connection closed, the notifiee that \<^verbatim>\<open>NewNode\<close> installs has dropped the
  cached stream of that peer and of no other, and the next use of the peer dials again; nothing
  is sent on the lost stream, and it is not reset.
\<close>

theorem disconnect_forgets_stream:
  assumes "NewNode idf nwf pub f = Inr (n, bn)"
    and "Disconnected bn me p s = s'"
    and "GetOutStream env s' p = (so, s2)"
  shows "mget (outStreams s') p = None \<and>
         (\<forall>q. q \<noteq> p \<longrightarrow> mget (outStreams s') q = mget (outStreams s) q) \<and>
         sent_to env (hist s') = sent_to env (hist s) \<and>
         hist s2 = E_NewStream p so # hist s'"
proof -
  note NewNode_handler [OF assms(1)]
  with assms(2) have s': "s' = RemoveStream (if bn_monitor bn then log (E_RemoveConn me p) s else s) p"
    by (simp add: Disconnected_def)
  then have "mget (outStreams s') p = None" by (simp add: RemoveStream_def)
  moreover from this assms(3) have "hist s2 = E_NewStream p so # hist s'"
    by (auto simp: GetOutStream_def RefreshOutStream_def Let_def split: sum.split_asm)
  ultimately show ?thesis using s' by (simp add: RemoveStream_def)
qed

lemma disconnect_forgets_stream_witness:
  "\<exists>n bn s'. NewNode Inr (\<lambda>_. None) pMe (NewBasicNotifiee True) = Inr (n, bn) \<and>
     Disconnected bn pMe pA (demo_node\<lparr>outStreams := [(pA, 7), (pB, 2)]\<rparr>) = s' \<and>
     mget (outStreams s') pA = None \<and> mget (outStreams s') pB = Some 2"
proof -
  obtain n bn where n: "NewNode Inr (\<lambda>_. None) pMe (NewBasicNotifiee True) = Inr (n, bn)"
    by (simp add: NewNode_def)
  define s where "s = demo_node\<lparr>outStreams := [(pA, 7), (pB, 2)]\<rparr>"
  define s' where "s' = Disconnected bn pMe pA s"
  obtain so s2 where g: "GetOutStream demo_env s' pA = (so, s2)" by fastforce
  from disconnect_forgets_stream [OF n s'_def [symmetric] g]
  have "mget (outStreams s') pA = None \<and> mget (outStreams s') pB = mget (outStreams s) pB"
    using peers_distinct by metis
  moreover have "mget (outStreams s) pB = Some 2" by (simp add: s_def mget_def)
  ultimately show ?thesis using n s'_def s_def by auto
qed

section \<open>Playlists over the DHT\<close>

text \<open>
  Kept in the code though no longer called. The client's channel is neither closed nor written
  when the value cannot be had or decoded.
\<close>

definition getMasterPlaylistWithDHT :: "node \<Rightarrow> string \<Rightarrow> (go_error + ptr) \<times> node" where
  "getMasterPlaylistWithDHT s strmID =
     (case new_chan s of
        (c, s1) \<Rightarrow> (Inr c, spawn (GO_DHTGet c strmID) (s1\<lparr>mplChans := mput (mplChans s1) strmID c\<rparr>)))"

definition dhtGet :: "env \<Rightarrow> ptr \<Rightarrow> string \<Rightarrow> node \<Rightarrow> node" where
  "dhtGet env c strmID s =
     (let s1 = ends (GO_DHTGet c strmID) s in
      case DHTGet env (hist s1) (''/v/'' @ strmID) of
        Inl _ \<Rightarrow> s1
      | Inr pl \<Rightarrow> (case mplDecode env pl of Inl _ \<Rightarrow> s1 | Inr mpl \<Rightarrow> spawn (GO_DHTSend c mpl) s1))"

definition dhtSend :: "ptr \<Rightarrow> playlist \<Rightarrow> node \<Rightarrow> node outcome" where
  "dhtSend c mpl s = map_outcome (ends (GO_DHTSend c mpl)) (chan_send s c (V_Mpl (Some mpl)))"

definition updateMasterPlaylistWithDHT :: "env \<Rightarrow> node \<Rightarrow> string \<Rightarrow> playlist \<Rightarrow> go_error option \<times> node" where
  "updateMasterPlaylistWithDHT env s strmID mpl =
     (let err = DHTPut env (hist s) (''/v/'' @ strmID) (mplEncode env mpl)
      in (err, log (E_DHTPut (''/v/'' @ strmID) (mplEncode env mpl) (err = None)) s))"

section \<open>Printing\<close>

definition show_bool :: "bool \<Rightarrow> string" where
  "show_bool b = (if b then ''true'' else ''false'')"

text \<open>The length of an unbuffered channel is always zero.\<close>

definition BroadcasterString :: "BasicBroadcaster \<Rightarrow> string" where
  "BroadcasterString b =
     ''StreamID: '' @ b_StrmID b @ '', working: '' @ show_bool (b_working b) @ '', q: 0, listeners: '' @
     decimal (length (b_listeners b))"

definition SubscriberString :: "BasicSubscriber \<Rightarrow> string" where
  "SubscriberString s = ''StreamID: '' @ s_StrmID s @ '', working: '' @ show_bool (s_working s)"

definition RelayerString :: "env \<Rightarrow> BasicRelayer \<Rightarrow> string" where
  "RelayerString env br =
     ''UpstreamPeer: '' @ IDHexEncode env (r_UpstreamPeer br) @ '', listeners:'' @
     decimal (length (r_listeners br)) @ '', count:'' @ decimal (unat (r_dataCount br))"

end
