(* ===== verification/Contents.thy ===== *)
theory Contents
  imports NetworkNode
begin

text \<open>
  What travels through the network: segments of streams, playlists and transcoding results, as the
  messages carry them; what a node holds ready to send; and what a client publishes at a node.
\<close>

section \<open>Contents of messages\<close>

datatype content =
    Segment string uint64 bytes \<comment> \<open>stream, number, data\<close>
  | PlaylistText string string \<comment> \<open>manifest, text\<close>
  | TranscodeResult string "string \<rightharpoonup> string" \<comment> \<open>stream, result\<close>

fun carried :: "gdata \<Rightarrow> content set" where
  "carried (D_StreamData d) = {Segment (sd_StrmID d) (sd_SeqNo d) (sd_Data d)}"
| "carried (D_MasterPlaylistData d) =
     (if md_NotFound d then {} else {PlaylistText (md_ManifestID d) (md_MPL d)})"
| "carried (D_TranscodeResponse d) = {TranscodeResult (tr_StrmID d) (tr_Result d)}"
| "carried _ = {}"

text \<open>
  What a receiver may read out of a message: nothing, if the data have no opcode and are never
  marshalled; anything, if they belong to another opcode.
\<close>

definition conveyed :: "Opcode \<Rightarrow> gdata \<Rightarrow> content set" where
  "conveyed op d =
     (case data_opcode d of None \<Rightarrow> {} | Some op' \<Rightarrow> if op' = op then carried d else UNIV)"

lemma conveyed_typed [simp]: "data_opcode d = Some op \<Longrightarrow> conveyed op d = carried d"
  by (simp add: conveyed_def)

lemma conveyed_none [simp]: "data_opcode d = None \<Longrightarrow> conveyed op d = {}"
  by (simp add: conveyed_def)

lemma carried_conveyed: "conveyed op d \<subseteq> X \<Longrightarrow> carried d \<subseteq> X"
  by (cases d) (auto simp: conveyed_def split: if_splits)

section \<open>What a node holds ready to send\<close>

definition held_by :: "BasicBroadcaster \<Rightarrow> content set" where
  "held_by b = {Segment (b_StrmID b) (sd_SeqNo m) (sd_Data m) | m. m \<in> set (b_q b) \<or> Some m \<in> set (b_lastMsgs b)}"

definition stock :: "env \<Rightarrow> content set \<Rightarrow> node \<Rightarrow> bool" where
  "stock env X s \<longleftrightarrow>
     (\<forall>p. held_by (get_b s p) \<subseteq> X) \<and>
     (\<forall>k m. mget (mplMap s) k = Some m \<longrightarrow> PlaylistText k (mplString env m) \<in> X)"

lemma stock_UNIV [simp]: "stock env UNIV s"
  by (simp add: stock_def)

lemma stock_io: "io_frame s s' \<Longrightarrow> stock env X s' = stock env X s"
  by (simp add: stock_def io_frameD get_b_def)

lemma stock_log [simp]: "stock env X (log e s) = stock env X s"
  by (rule stock_io) simp

lemma held_by_simps [simp]:
  "held_by (b\<lparr>b_listeners := l\<rparr>) = held_by b" "held_by (b\<lparr>b_working := w\<rparr>) = held_by b"
  "held_by (b\<lparr>b_cancelWorker := c\<rparr>) = held_by b"
  by (simp_all add: held_by_def)

lemma stock_segment:
  "stock env X s \<Longrightarrow> m \<in> set (b_q (get_b s p)) \<or> Some m \<in> set (b_lastMsgs (get_b s p)) \<Longrightarrow>
     Segment (b_StrmID (get_b s p)) (sd_SeqNo m) (sd_Data m) \<in> X"
  unfolding stock_def held_by_def by blast

lemma carried_stream_msg [simp]:
  "carried (D_StreamData (stream_msg b m)) = {Segment (b_StrmID b) (sd_SeqNo m) (sd_Data m)}"
  by (simp add: stream_msg_def)

section \<open>The inputs of a node\<close>

text \<open>The calls and messages that bring new contents to a node; everything else is \<open>A_Other\<close>.\<close>

datatype action =
    A_Receive peerID rx
  | A_Broadcast ptr uint64 bytes
  | A_UpdatePlaylist string "playlist option"
  | A_SendResult string "string \<rightharpoonup> string"
  | A_Other

text \<open>What the client publishes, and what a peer sends.\<close>

fun published :: "env \<Rightarrow> node \<Rightarrow> action \<Rightarrow> content set" where
  "published env s (A_Broadcast p n d) = {Segment (b_StrmID (get_b s p)) n d}"
| "published env s (A_UpdatePlaylist k (Some m)) = {PlaylistText k (mplString env m)}"
| "published env s (A_SendResult k r) = {TranscodeResult k r}"
| "published env s _ = {}"

fun received :: "env \<Rightarrow> action \<Rightarrow> content set" where
  "received env (A_Receive q x) = (case ReceiveMessage env x of Inl e \<Rightarrow> {} | Inr m \<Rightarrow> carried (Data m))"
| "received env _ = {}"

end
