(* ===== verification/Evolution.thy ===== *)
theory Evolution
  imports Contents
begin

text \<open>
  What any code of the node may do to its state: a relation \<open>prim\<close> of single disciplined changes
  (an entry of a map is put only for an allocated struct, a struct keeps its id, the window keeps
  its size, a channel is closed only by its owner, ...), its closure \<open>evo\<close>, and one lemma per
  operation that the operation is such a sequence of changes. An invariant of the node is then
  proved once per kind of change (theory \<open>Invariants\<close>).

  The channels of the node have owners. A duty \<open>(c, k, b)\<close> is the exclusive right to send to and
  close the channel \<open>c\<close>, which carries the answers to the request with the key \<open>k\<close> (the empty
  string when it carries none) and may be registered in \<^verbatim>\<open>msgChans\<close> if \<open>b\<close>. Duties rest with goroutines and with the entries of \<^verbatim>\<open>pingChs\<close>; while code
  runs it holds duties itself: \<open>evo env X H s H' s'\<close> starts with the duties \<open>H\<close> and ends with
  \<open>H'\<close>.
\<close>

section \<open>Duties\<close>

type_synonym duty = "ptr \<times> string \<times> bool"

fun duty :: "goroutine \<Rightarrow> duty list" where
  "duty (GO_ReqStart c rc k n m) = [(c, k, True), (rc, k, False)]"
| "duty (GO_ReqLoop c rc k m ps) = [(c, k, True), (rc, k, False)]"
| "duty (GO_ReqWait c rc k m ps) = [(c, k, True), (rc, k, False)]"
| "duty (GO_ReqReturn c rc k m) = [(c, k, True), (rc, k, False)]"
| "duty (GO_MplWait c out) = [(out, [], False)]"
| "duty (GO_StatusWait c out) = [(out, [], False)]"
| "duty (GO_SendClose out v) = [(out, [], False)]"
| "duty (GO_DHTGet c k) = [(c, [], False)]"
| "duty (GO_DHTSend c m) = [(c, [], False)]"
| "duty g = []"

fun is_worker :: "goroutine \<Rightarrow> bool" where
  "is_worker (GO_Broadcast p c) = True"
| "is_worker g = False"

text \<open>
  What a request is answered with: the playlist of the manifest, or the status of the node, that was
  asked for.
\<close>

definition answers :: "string \<Rightarrow> Msg \<Rightarrow> bool" where
  "answers k m \<longleftrightarrow>
     (\<forall>id. k = msgChansKey GetMasterPlaylistReqID id \<longrightarrow>
        (\<exists>d. Data m = D_MasterPlaylistData d \<and> md_ManifestID d = id)) \<and>
     (\<forall>id. k = msgChansKey NodeStatusReqID id \<longrightarrow> (\<exists>d. Data m = D_NodeStatusData d \<and> nd_NodeID d = id))"

lemma answers_playlist:
  "Data m = D_MasterPlaylistData d \<Longrightarrow> answers (msgChansKey GetMasterPlaylistReqID (md_ManifestID d)) m"
  by (auto simp: answers_def msgChansKey_inj opcode_defs)

lemma answers_status: "Data m = D_NodeStatusData d \<Longrightarrow> answers (msgChansKey NodeStatusReqID (nd_NodeID d)) m"
  by (auto simp: answers_def msgChansKey_inj opcode_defs)

text \<open>
  What the state and the duties held tell of the key of a channel; which goroutines may be started
  and what may be sent.
\<close>

definition known :: "duty list \<Rightarrow> node \<Rightarrow> ptr \<Rightarrow> string \<Rightarrow> bool" where
  "known H s c k \<longleftrightarrow>
     (\<exists>b. (c, k, b) \<in> set H) \<or> (\<exists>b. \<exists>g \<in> set (gos s). (c, k, b) \<in> set (duty g)) \<or>
     mget (msgChans s) k = Some c"

definition fits :: "node \<Rightarrow> ptr \<Rightarrow> StreamDataMsg \<Rightarrow> bool" where
  "fits s p d \<longleftrightarrow>
     mget (subscribers s) (sd_StrmID d) = Some p \<or>
     (\<exists>b k. mget (b_listeners (get_b s b)) k = Some (Local p) \<and> b_StrmID (get_b s b) = sd_StrmID d)"

fun spawn_ok :: "content set \<Rightarrow> duty list \<Rightarrow> node \<Rightarrow> goroutine \<Rightarrow> bool" where
  "spawn_ok X H s (GO_MplWait c out) = (\<exists>id. known H s c (msgChansKey GetMasterPlaylistReqID id))"
| "spawn_ok X H s (GO_StatusWait c out) = (\<exists>id. known H s c (msgChansKey NodeStatusReqID id))"
| "spawn_ok X H s (GO_ReqStart c rc k n m) = (conveyed (Op m) (Data m) \<subseteq> X)"
| "spawn_ok X H s (GO_ReqLoop c rc k m ps) = (conveyed (Op m) (Data m) \<subseteq> X)"
| "spawn_ok X H s (GO_ReqWait c rc k m ps) = (conveyed (Op m) (Data m) \<subseteq> X)"
| "spawn_ok X H s (GO_ReqReturn c rc k m) = (ch_val (sget (chans s) c) = Some (V_Msg m))"
| "spawn_ok X H s (GO_Insert p d) = (carried (D_StreamData d) \<subseteq> X \<and> fits s p d)"
| "spawn_ok X H s (GO_InsertWait p d) = (GO_Insert p d \<in> set (gos s))"
| "spawn_ok X H s (GO_Retransmit p c ts) =
     ((\<exists>k. mget (subscribers s) k = Some p) \<or> GO_RetransmitWait p c ts \<in> set (gos s))"
| "spawn_ok X H s (GO_RetransmitWait p c ts) = (GO_Retransmit p c ts \<in> set (gos s))"
| "spawn_ok X H s (GO_SendClose out v) = (\<forall>m. v \<noteq> V_Msg m)"
| "spawn_ok X H s g = True"

definition send_ok :: "content set \<Rightarrow> duty list \<Rightarrow> node \<Rightarrow> ptr \<Rightarrow> chval \<Rightarrow> bool" where
  "send_ok X H s c v \<longleftrightarrow>
     (\<forall>m. v = V_Msg m \<longrightarrow>
        (\<exists>k. known H s c k \<and> answers k m \<and> carried (Data m) \<subseteq> X) \<or> (\<exists>c' k. GO_ReqReturn c' c k m \<in> set (gos s)) \<or>
        GO_SendClose c v \<in> set (gos s))"

lemma send_ok_simps [simp]: "send_ok X H s c V_Unit" "send_ok X H s c (V_Mpl p)" "send_ok X H s c (V_Status st)"
  by (simp_all add: send_ok_def)

lemma send_ok_answer:
  "mget (msgChans s) k = Some c \<Longrightarrow> answers k m \<Longrightarrow> carried (Data m) \<subseteq> X \<Longrightarrow> send_ok X H s c (V_Msg m)"
  by (auto simp: send_ok_def known_def)

fun log_ok :: "env \<Rightarrow> content set \<Rightarrow> node \<Rightarrow> effect \<Rightarrow> bool" where
  "log_ok env X s (E_Flush sh m ok) = ((\<exists>b. MarshalJSON env m = Inr b) \<and> conveyed (Op m) (Data m) \<subseteq> X)"
| "log_ok env X s (E_GotData p n d eof) =
     (\<not> eof \<longrightarrow> (\<exists>sd. GO_InsertWait p sd \<in> set (gos s) \<and> sd_SeqNo sd = n \<and> sd_Data sd = d))"
| "log_ok env X s (E_Callback cb r) = (\<exists>k. TranscodeResult k r \<in> X)"
| "log_ok env X s e = True"

section \<open>Disciplined changes\<close>

definition dials :: "env \<Rightarrow> bool" where
  "dials env \<longleftrightarrow> (\<forall>h p. \<exists>sh. NewStream env h p = Inr sh)"

lemma get_misc_upd [simp]:
  "get_r (s\<lparr>signFun := f1\<rparr>) p = get_r s p" "get_b (s\<lparr>signFun := f1\<rparr>) p = get_b s p"
  "get_s (s\<lparr>signFun := f1\<rparr>) p = get_s s p" "get_r (s\<lparr>verifyFun := f2\<rparr>) p = get_r s p"
  "get_b (s\<lparr>verifyFun := f2\<rparr>) p = get_b s p" "get_s (s\<lparr>verifyFun := f2\<rparr>) p = get_s s p"
  "get_r (s\<lparr>mplChans := m\<rparr>) p = get_r s p" "get_b (s\<lparr>mplChans := m\<rparr>) p = get_b s p"
  "get_s (s\<lparr>mplChans := m\<rparr>) p = get_s s p"
  by (simp_all add: get_r_def get_b_def get_s_def)

text \<open>A local listener of a broadcaster is a subscriber of its stream.\<close>

definition locals_from :: "node \<Rightarrow> ptr \<Rightarrow> BasicBroadcaster \<Rightarrow> bool" where
  "locals_from s p b \<longleftrightarrow>
     (\<forall>k q. mget (b_listeners b) k = Some (Local q) \<longrightarrow>
        (\<exists>k. mget (b_listeners (get_b s p)) k = Some (Local q)) \<or>
        q < fresh (sstore s) \<and> mget (broadcasters s) (s_StrmID (get_s s q)) = Some p)"

lemma locals_from_same [simp]: "b_listeners b = b_listeners (get_b s p) \<Longrightarrow> locals_from s p b"
  by (auto simp: locals_from_def)

lemma locals_from_del [simp]: "locals_from s p (b\<lparr>b_listeners := mdel (b_listeners (get_b s p)) k\<rparr>)"
  by (auto simp: locals_from_def split: if_splits)

lemma locals_from_put:
  "(\<And>q. l = Local q \<Longrightarrow> q < fresh (sstore s) \<and> mget (broadcasters s) (s_StrmID (get_s s q)) = Some p) \<Longrightarrow>
     locals_from s p (b\<lparr>b_listeners := mput (b_listeners (get_b s p)) k l\<rparr>)"
  by (auto simp: locals_from_def split: if_splits)

text \<open>A new listener is a stream from the cache, stored under the key of the peer it is cached for.\<close>

definition aimed :: "env \<Rightarrow> node \<Rightarrow> (strmh \<Rightarrow> 'l) \<Rightarrow> (string, 'l) gomap \<Rightarrow> (string, 'l) gomap \<Rightarrow> bool" where
  "aimed env s f m m' \<longleftrightarrow>
     (\<forall>k sh. mget m' k = Some (f sh) \<longrightarrow>
        mget m k = Some (f sh) \<or> (\<exists>q. k = IDHexEncode env q \<and> mget (outStreams s) q = Some sh))"

lemma aimed_simps [simp]: "aimed env s f m m" "aimed env s f m (mdel m k)" "aimed env s f m []"
  by (auto simp: aimed_def split: if_splits)

lemma aimed_put:
  "(\<And>sh. l = f sh \<Longrightarrow> mget (outStreams s) q = Some sh) \<Longrightarrow> aimed env s f m (mput m (IDHexEncode env q) l)"
  by (auto simp: aimed_def split: if_splits)

lemma aimed_put_other: "(\<And>sh. l \<noteq> f sh) \<Longrightarrow> aimed env s f m (mput m k l)"
  by (auto simp: aimed_def split: if_splits)

abbreviation basic_stream :: "strmh \<Rightarrow> OutStream" where
  "basic_stream sh \<equiv> Basic (Some sh)"

inductive prim :: "env \<Rightarrow> content set \<Rightarrow> duty list \<Rightarrow> node \<Rightarrow> duty list \<Rightarrow> node \<Rightarrow> bool" for env X where
  p_log: "log_ok env X s e \<Longrightarrow> prim env X H s H (log e s)"
| p_streams: "(mwf (outStreams s) \<longrightarrow> mwf os) \<Longrightarrow>
    (\<And>q sh. mget os q = Some sh \<Longrightarrow> mget (outStreams s) q = Some sh \<or> (\<exists>h. NewStream env h q = Inr sh)) \<Longrightarrow>
    prim env X H s H (s\<lparr>outStreams := os\<rparr>)"
| p_spawn: "\<not> is_worker g \<Longrightarrow> spawn_ok X (duty g @ H) s g \<Longrightarrow> prim env X (duty g @ H) s H (spawn g s)"
| p_end: "g \<in> set (gos s) \<Longrightarrow> prim env X H s (duty g @ H) (ends g s)"
| p_end_free: "duty g = [] \<Longrightarrow> prim env X H s H (ends g s)"
| p_drop: "prim env X ((c, k, False) # H) s H s"
| p_swap: "prim env X (d1 # d2 # H) s (d2 # d1 # H) s"
  \<comment> \<open>relayers\<close>
| p_put_r: "(mwf (r_listeners (get_r s p)) \<longrightarrow> mwf (r_listeners r)) \<Longrightarrow>
    (dials env \<longrightarrow> no_nil_listener (get_r s p) \<longrightarrow> no_nil_listener r) \<Longrightarrow>
    aimed env s Some (r_listeners (get_r s p)) (r_listeners r) \<Longrightarrow> prim env X H s H (put_r s p r)"
| p_new_relayer: "r_listeners r = [] \<Longrightarrow> m = mput (relayers s) k (fresh (rstore s)) \<Longrightarrow>
    prim env X H s H ((snd (new_r s r))\<lparr>relayers := m\<rparr>)"
| p_del_relayer: "m = mdel (relayers s) k \<Longrightarrow> prim env X H s H (s\<lparr>relayers := m\<rparr>)"
  \<comment> \<open>broadcasters\<close>
| p_put_b: "(mwf (b_listeners (get_b s p)) \<longrightarrow> mwf (b_listeners b)) \<Longrightarrow> b_StrmID b = b_StrmID (get_b s p) \<Longrightarrow>
    length (b_lastMsgs b) = length (b_lastMsgs (get_b s p)) \<Longrightarrow> b_working b = b_working (get_b s p) \<Longrightarrow>
    held_by b \<subseteq> held_by (get_b s p) \<union> X \<Longrightarrow> locals_from s p b \<Longrightarrow>
    aimed env s basic_stream (b_listeners (get_b s p)) (b_listeners b) \<Longrightarrow> prim env X H s H (put_b s p b)"
| p_new_b: "b_listeners b = [] \<Longrightarrow> length (b_lastMsgs b) = DefaultBroadcasterBufferSize \<Longrightarrow>
    \<not> b_working b \<Longrightarrow> held_by b = {} \<Longrightarrow> prim env X H s H (snd (new_b s b))"
| p_broadcasters: "(mwf (broadcasters s) \<longrightarrow> mwf m) \<Longrightarrow>
    (\<And>k p. mget m k = Some p \<Longrightarrow>
      mget (broadcasters s) k = Some p \<or> p < fresh (bstore s) \<and> b_StrmID (get_b s p) = k) \<Longrightarrow>
    prim env X H s H (s\<lparr>broadcasters := m\<rparr>)"
| p_work_b: "\<not> b_working (get_b s p) \<Longrightarrow> p < fresh (bstore s) \<Longrightarrow> b = (get_b s p)\<lparr>b_working := True\<rparr> \<Longrightarrow>
    prim env X H s H (put_b (spawn (GO_Broadcast p c) s) p b)"
  \<comment> \<open>subscribers\<close>
| p_put_s: "s_StrmID u = s_StrmID (get_s s p) \<Longrightarrow> prim env X H s H (put_s s p u)"
| p_new_s: "prim env X H s H (snd (new_s s u))"
| p_subscribers: "(mwf (subscribers s) \<longrightarrow> mwf m) \<Longrightarrow>
    (\<And>k p. mget m k = Some p \<Longrightarrow>
      mget (subscribers s) k = Some p \<or> p < fresh (sstore s) \<and> s_StrmID (get_s s p) = k) \<Longrightarrow>
    prim env X H s H (s\<lparr>subscribers := m\<rparr>)"
  \<comment> \<open>contexts, counters, functions, the other maps\<close>
| p_ctxs: "prim env X H s H (s\<lparr>ctxs := cs\<rparr>)"
| p_msgCounts: "prim env X H s H (s\<lparr>msgCounts := f\<rparr>)"
| p_signFun: "prim env X H s H (s\<lparr>signFun := sf\<rparr>)"
| p_verifyFun: "prim env X H s H (s\<lparr>verifyFun := vf\<rparr>)"
| p_mplMap: "(mwf (mplMap s) \<longrightarrow> mwf m) \<Longrightarrow>
    (\<And>k v. mget m k = Some v \<Longrightarrow> mget (mplMap s) k = Some v \<or> PlaylistText k (mplString env v) \<in> X) \<Longrightarrow> prim env X H s H (s\<lparr>mplMap := m\<rparr>)"
| p_mplChans: "(mwf (mplChans s) \<longrightarrow> mwf m) \<Longrightarrow> prim env X H s H (s\<lparr>mplChans := m\<rparr>)"
| p_callbacks: "(mwf (transResponseCallbacks s) \<longrightarrow> mwf m) \<Longrightarrow>
    prim env X H s H (s\<lparr>transResponseCallbacks := m\<rparr>)"
  \<comment> \<open>channels\<close>
| p_new_chan: "new_chan s = (c, s') \<Longrightarrow> prim env X H s ((c, k, False) # H) s'"
| p_chan: "cs = sput (chans s) c ch \<Longrightarrow> ch_closed ch = ch_closed (sget (chans s) c) \<Longrightarrow>
    (\<And>v. ch_val ch = Some v \<Longrightarrow> ch_val (sget (chans s) c) = Some v \<or> send_ok X H s c v) \<Longrightarrow>
    prim env X H s H (s\<lparr>chans := cs\<rparr>)"
| p_reg_msg: "m = mput (msgChans s) k c \<Longrightarrow>
    prim env X ((c, k, False) # H) s ((c, k, True) # H) (s\<lparr>msgChans := m\<rparr>)"
| p_close_msg: "m = mdel (msgChans s) k \<Longrightarrow>
    cs = sput (chans s) c ((sget (chans s) c)\<lparr>ch_closed := True\<rparr>) \<Longrightarrow>
    prim env X ((c, k, True) # H) s H (s\<lparr>msgChans := m, chans := cs\<rparr>)"
| p_close: "cs = sput (chans s) c ((sget (chans s) c)\<lparr>ch_closed := True\<rparr>) \<Longrightarrow>
    prim env X ((c, k, False) # H) s H (s\<lparr>chans := cs\<rparr>)"
| p_reg_ping: "m = mput (pingChs s) k c \<Longrightarrow> prim env X ((c, [], False) # H) s H (s\<lparr>pingChs := m\<rparr>)"
| p_close_ping: "mget (pingChs s) k = Some c \<Longrightarrow> m = mdel (pingChs s) k \<Longrightarrow>
    cs = sput (chans s) c ((sget (chans s) c)\<lparr>ch_closed := True\<rparr>) \<Longrightarrow>
    prim env X H s H (s\<lparr>chans := cs, pingChs := m\<rparr>)"

inductive evo :: "env \<Rightarrow> content set \<Rightarrow> duty list \<Rightarrow> node \<Rightarrow> duty list \<Rightarrow> node \<Rightarrow> bool" for env X H0 s0 where
  refl: "evo env X H0 s0 H0 s0"
| step: "evo env X H0 s0 H s \<Longrightarrow> prim env X H s H' s' \<Longrightarrow> evo env X H0 s0 H' s'"

lemma evo_trans: "evo env X H1 s1 H2 s2 \<Longrightarrow> evo env X H0 s0 H1 s1 \<Longrightarrow> evo env X H0 s0 H2 s2"
  by (induction rule: evo.induct) (auto intro: evo.step)

lemma evo_prim: "prim env X H s H' s' \<Longrightarrow> evo env X H0 s0 H s \<Longrightarrow> evo env X H0 s0 H' s'"
  by (rule evo.step)

lemmas evo_intros = prim.intros [THEN evo_prim]

text \<open>
  The rules that the operations are decomposed with, from the last change to the first. The rules
  for duties are applied by name.
\<close>

lemmas evo_rules =
  evo.refl
  p_log [THEN evo_prim] p_streams [THEN evo_prim] p_end_free [THEN evo_prim] p_put_r [THEN evo_prim]
  p_del_relayer [THEN evo_prim] p_put_b [THEN evo_prim] p_new_b [THEN evo_prim]
  p_broadcasters [THEN evo_prim] p_put_s [THEN evo_prim] p_new_s [THEN evo_prim]
  p_subscribers [THEN evo_prim] p_ctxs [THEN evo_prim] p_msgCounts [THEN evo_prim]
  p_signFun [THEN evo_prim] p_verifyFun [THEN evo_prim] p_mplMap [THEN evo_prim]
  p_mplChans [THEN evo_prim] p_callbacks [THEN evo_prim] p_chan [THEN evo_prim]

lemma evo_spawn_free [intro]:
  "\<not> is_worker g \<Longrightarrow> duty g = [] \<Longrightarrow> spawn_ok X H s g \<Longrightarrow> evo env X H0 s0 H s \<Longrightarrow> evo env X H0 s0 H (spawn g s)"
  using p_spawn [of g X H s env] by (auto intro: evo.step)

section \<open>Streams\<close>

lemma evo_Refresh:
  "RefreshOutStream env s p = (r, s') \<Longrightarrow> evo env X H0 s0 H s \<Longrightarrow> evo env X H0 s0 H s'"
  by (auto simp: RefreshOutStream_def Let_def split: option.split_asm sum.split_asm if_split_asm
      intro!: evo_rules)

lemma evo_GetOut: "GetOutStream env s p = (r, s') \<Longrightarrow> evo env X H0 s0 H s \<Longrightarrow> evo env X H0 s0 H s'"
  by (auto simp: GetOutStream_def split: option.split_asm dest: evo_Refresh)

lemma evo_encodeAndFlush:
  "encodeAndFlush env s so m = (e, s') \<Longrightarrow> conveyed (Op m) (Data m) \<subseteq> X \<Longrightarrow> evo env X H0 s0 H s \<Longrightarrow> evo env X H0 s0 H s'"
  by (auto simp: encodeAndFlush_def Let_def split: option.split_asm sum.split_asm intro!: evo_rules)

text \<open>A local stream is fed with segments of its own stream only.\<close>

fun target_ok :: "node \<Rightarrow> OutStream option \<Rightarrow> gdata \<Rightarrow> bool" where
  "target_ok s (Some (Local p)) (D_StreamData d) = fits s p d"
| "target_ok s _ _ = True"

lemma target_ok_Basic [simp]: "target_ok s (Some (Basic bs)) d"
  by (cases d) auto

lemma target_ok_other [simp]: "(\<And>sd. d \<noteq> D_StreamData sd) \<Longrightarrow> target_ok s st d"
  by (cases d; cases "(s, st, d)" rule: target_ok.cases) auto

lemma evo_SendMessage:
  "SendMessage env s st op d = (e, s') \<Longrightarrow> conveyed op d \<subseteq> X \<Longrightarrow> target_ok s (Some st) d \<Longrightarrow>
     evo env X H0 s0 H s \<Longrightarrow> evo env X H0 s0 H s'"
  by (auto simp: SendMessage_def BasicSendMessage_def LocalSendMessage_def InsertData_def
      split: OutStream.split_asm option.split_asm gdata.split_asm if_split_asm
      elim!: evo_encodeAndFlush intro!: evo_rules evo_spawn_free)

lemma evo_retry:
  "sendMessageWithRetry env s p st op d = (e, s') \<Longrightarrow> conveyed op d \<subseteq> X \<Longrightarrow> target_ok s st d \<Longrightarrow>
     evo env X H0 s0 H s \<Longrightarrow> evo env X H0 s0 H s'"
  by (auto simp: sendMessageWithRetry_def split: option.split_asm prod.split_asm
      elim!: evo_SendMessage evo_Refresh)

lemma evo_retry_snd:
  "conveyed op d \<subseteq> X \<Longrightarrow> target_ok s st d \<Longrightarrow> evo env X H0 s0 H s \<Longrightarrow> evo env X H0 s0 H (snd (sendMessageWithRetry env s p st op d))"
  using evo_retry by (metis prod.collapse)

lemma evo_Connect: "Connect env s n as = (r, s') \<Longrightarrow> evo env X H0 s0 H s \<Longrightarrow> evo env X H0 s0 H s'"
  by (auto simp: Connect_def connectPeerInfo_def split: sum.split_asm option.split_asm
      intro!: evo_rules)

lemma evo_forward:
  "forward env r op d ps s = (res, s') \<Longrightarrow> conveyed op d \<subseteq> X \<Longrightarrow> evo env X H0 s0 H s \<Longrightarrow> evo env X H0 s0 H s'"
  unfolding forward_def
proof (induction ps arbitrary: s)
  case (Cons p ps)
  then show ?case
    by (auto split: if_split_asm prod.split_asm option.split_asm dest: evo_GetOut evo_retry)
qed simp

lemma evo_RemoveStream: "evo env X H0 s0 H s \<Longrightarrow> evo env X H0 s0 H (RemoveStream s p)"
  by (auto simp: RemoveStream_def split: if_split_asm intro!: evo_rules)

lemma GetOut_dials: "GetOutStream env s p = (r, s') \<Longrightarrow> dials env \<Longrightarrow> \<exists>sh. r = Some sh"
  by (auto simp: GetOutStream_def RefreshOutStream_def Let_def dials_def
      split: option.split_asm sum.split_asm if_split_asm) (metis Inr_not_Inl)+

lemma GetOut_cached: "GetOutStream env s p = (Some sh, s') \<Longrightarrow> mget (outStreams s') p = Some sh"
  by (auto simp: GetOutStream_def RefreshOutStream_def Let_def split: option.split_asm sum.split_asm)

section \<open>Relayers\<close>

lemma evo_relayLoop:
  "relayLoop (sendMessageWithRetry env) rmt now op d cnt p ks s = Returns s' \<Longrightarrow> conveyed op d \<subseteq> X \<Longrightarrow>
     evo env X H0 s0 H s \<Longrightarrow> evo env X H0 s0 H s'"
proof (induction ks arbitrary: s)
  case (Cons k ks)
  show ?case
  proof (cases "mget (r_listeners (get_r s p)) k")
    case None
    then show ?thesis using Cons by simp
  next
    case (Some lo)
    with Cons.prems(1) obtain l where l: "lo = Some l" by (cases lo) auto
    obtain e s1 where sd: "sendMessageWithRetry env s (rmt l) (Some (Basic (Some l))) op d = (e, s1)"
      by fastforce
    have 1: "evo env X H0 s0 H s1" by (rule evo_retry [OF sd Cons.prems(2) _ Cons.prems(3)]) (simp)
    show ?thesis
      using Cons.prems(1,2) Some l sd
      by (auto simp: Let_def no_nil_listener_def split: if_split_asm intro!: Cons.IH evo_rules 1)
  qed
qed simp

lemma evo_relay:
  "relay env op d cnt s p = Returns (e, s') \<Longrightarrow> conveyed op d \<subseteq> X \<Longrightarrow> evo env X H0 s0 H s \<Longrightarrow> evo env X H0 s0 H s'"
  by (auto simp: relay_def dest: evo_relayLoop)

lemmas relay_defs = RelayStreamData_def RelayFinishStream_def RelayMasterPlaylistData_def RelayNodeStatusData_def

lemma evo_AddListener: "evo env X H0 s0 H s \<Longrightarrow> evo env X H0 s0 H (AddListener env s p q)"
  by (auto simp: AddListener_def Let_def no_nil_listener_def split: option.split prod.split
      dest: GetOut_dials GetOut_cached intro!: evo_rules aimed_put elim: evo_GetOut)

lemma evo_NewRelayer: "NewRelayer s k op = (p, s') \<Longrightarrow> evo env X H0 s0 H s \<Longrightarrow> evo env X H0 s0 H s'"
  by (auto simp: NewRelayer_eq intro!: evo_spawn_free p_new_relayer [THEN evo_prim])

lemma evo_createRelayer:
  "evo env X H0 s0 H s \<Longrightarrow> evo env X H0 s0 H (createRelayer env s k op up lg q)"
  by (auto simp: createRelayer_def set_upstream_def Let_def no_nil_listener_def split: prod.split option.split
      intro!: evo_AddListener evo_rules elim: evo_NewRelayer)

lemma evo_relayGCTick: "relayGCTick env p k s = (b, s') \<Longrightarrow> evo env X H0 s0 H s \<Longrightarrow> evo env X H0 s0 H s'"
  by (auto simp: relayGCTick_def split: if_split_asm intro!: evo_rules)

section \<open>Broadcasters\<close>

lemma new_b_eq: "new_b s b = (fresh (bstore s), snd (new_b s b))"
  by (simp add: new_b_def snew_def Let_def)

lemma new_b_fields [simp]:
  "broadcasters (snd (new_b s b)) = broadcasters s" "fresh (bstore (snd (new_b s b))) = Suc (fresh (bstore s))"
  "get_b (snd (new_b s b)) q = (if q = fresh (bstore s) then b else get_b s q)"
  by (simp_all add: new_b_def snew_def Let_def get_b_def sget_def)

lemma evo_GetBroadcaster: "GetBroadcaster s k = (p, s') \<Longrightarrow> evo env X H0 s0 H s \<Longrightarrow> evo env X H0 s0 H s'"
  by (subst (asm) GetBroadcaster_def, subst (asm) new_b_eq)
    (auto simp: held_by_def split: option.split_asm if_split_asm intro!: evo_rules)

lemma evo_with_cancel: "with_cancel s = (c, s') \<Longrightarrow> evo env X H0 s0 H s \<Longrightarrow> evo env X H0 s0 H s'"
  by (auto simp: with_cancel_def Let_def split: prod.split_asm intro!: evo_rules)

lemma with_cancel_bstore: "with_cancel s = (c, s') \<Longrightarrow> bstore s' = bstore s"
  by (auto simp: with_cancel_def Let_def split: prod.split_asm)

lemma evo_startBroadcastWorker:
  assumes "evo env X H0 s0 H s" "p < fresh (bstore s)"
  shows "evo env X H0 s0 H (startBroadcastWorker s p)"
proof (cases "b_working (get_b s p)")
  case True
  then show ?thesis using assms by (simp add: startBroadcastWorker_def)
next
  case False
  obtain c s1 where w: "with_cancel s = (c, s1)" by fastforce
  have b: "get_b s1 p = get_b s p" by (rule get_b_with_cancel [OF w])
  have 1: "evo env X H0 s0 H s1" by (rule evo_with_cancel [OF w assms(1)])
  define s2 where "s2 = put_b s1 p ((get_b s p)\<lparr>b_cancelWorker := Some c\<rparr>)"
  have 2: "evo env X H0 s0 H s2"
    unfolding s2_def by (intro evo_rules 1) (simp_all add: b)
  have "evo env X H0 s0 H (put_b (spawn (GO_Broadcast p c) s2) p ((get_b s2 p)\<lparr>b_working := True\<rparr>))"
    using False assms(2) with_cancel_bstore [OF w]
    by (intro p_work_b [THEN evo_prim] 2) (simp_all add: s2_def)
  moreover have "startBroadcastWorker s p = put_b (spawn (GO_Broadcast p c) s2) p ((get_b s2 p)\<lparr>b_working := True\<rparr>)"
    using False w by (simp add: startBroadcastWorker_def Let_def b s2_def)
  ultimately show ?thesis by simp
qed

lemma put_b_put_b [simp]: "put_b (put_b s p x) p y = put_b s p y"
  by (simp add: put_b_def sput_def)

lemma held_by_Broadcast:
  "held_by (b\<lparr>b_lastMsgs := tl (b_lastMsgs b @ [Some m]), b_q := b_q b @ [m]\<rparr>) \<subseteq>
     held_by b \<union> {Segment (b_StrmID b) (sd_SeqNo m) (sd_Data m)}"
  by (cases "b_lastMsgs b") (auto simp: held_by_def)

lemma evo_Broadcast:
  assumes "evo env X H0 s0 H s" "p < fresh (bstore s)" "Segment (b_StrmID (get_b s p)) n d \<in> X"
  shows "evo env X H0 s0 H (Broadcast s p n d)"
proof -
  let ?s1 = "startBroadcastWorker s p" and ?m = "\<lparr>sd_SeqNo = n, sd_StrmID = [], sd_Data = d\<rparr>"
  have "Broadcast s p n d = put_b ?s1 p
      ((get_b ?s1 p)\<lparr>b_lastMsgs := tl (b_lastMsgs (get_b ?s1 p) @ [Some ?m]), b_q := b_q (get_b ?s1 p) @ [?m]\<rparr>)"
    by (simp add: Broadcast_def Let_def)
  moreover have "b_StrmID (get_b ?s1 p) = b_StrmID (get_b s p)" by (simp add: startBroadcastWorker_b)
  ultimately show ?thesis
    using held_by_Broadcast [of "get_b ?s1 p" ?m] assms(3)
    by (simp, intro evo_rules evo_startBroadcastWorker assms) auto
qed

lemma evo_AddListeningPeer: "evo env X H0 s0 H s \<Longrightarrow> evo env X H0 s0 H (AddListeningPeer env s p q)"
  by (auto simp: AddListeningPeer_def Let_def split: option.split prod.split
      dest: GetOut_cached intro!: evo_rules locals_from_put aimed_put elim: evo_GetOut)

lemma evo_AddListeningStream:
  "evo env X H0 s0 H s \<Longrightarrow> q < fresh (sstore s) \<Longrightarrow> mget (broadcasters s) (s_StrmID (get_s s q)) = Some p \<Longrightarrow>
     evo env X H0 s0 H (AddListeningStream s p k (Local q))"
  by (auto simp: AddListeningStream_def split: option.split intro!: evo_rules locals_from_put aimed_put_other)

lemma target_listener:
  "mget (b_listeners (get_b s p)) k = Some l \<Longrightarrow> target_ok s (Some l) (D_StreamData (stream_msg (get_b s p) m))"
  by (cases l) (auto simp: fits_def stream_msg_def)

lemma evo_sendDataMsg:
  assumes "\<And>m. mo = Some m \<Longrightarrow> Segment (b_StrmID (get_b s p)) (sd_SeqNo m) (sd_Data m) \<in> X"
    and "\<And>m. mo = Some m \<Longrightarrow> target_ok s (Some l) (D_StreamData (stream_msg (get_b s p) m))"
    and "evo env X H0 s0 H s"
  shows "evo env X H0 s0 H (sendDataMsgWith (sendMessageWithRetry env) rmt s p k l mo)"
  using assms by (auto simp: sendDataMsgWith_def stream_msg_def split: option.split prod.split intro!: evo_rules elim!: evo_retry)

lemma sendDataMsg_StrmID:
  "b_StrmID (get_b (sendDataMsgWith (sendMessageWithRetry env) rmt s p k l mo) q) = b_StrmID (get_b s q)"
  by (auto simp: sendDataMsgWith_def io_frame_structs [OF retry_frame] split: option.split prod.split)

lemma evo_broadcastLoop:
  "Segment (b_StrmID (get_b s p)) (sd_SeqNo m) (sd_Data m) \<in> X \<Longrightarrow> evo env X H0 s0 H s \<Longrightarrow>
     evo env X H0 s0 H (broadcastLoop (sendMessageWithRetry env) rmt p m ks s)"
proof (induction ks arbitrary: s)
  case (Cons k ks)
  show ?case
  proof (cases "mget (b_listeners (get_b s p)) k")
    case (Some l)
    have "evo env X H0 s0 H (sendDataMsgWith (sendMessageWithRetry env) rmt s p k l (Some m))"
      using Cons.prems target_listener [OF Some] by (intro evo_sendDataMsg) auto
    then show ?thesis using Cons Some by (simp add: sendDataMsg_StrmID)
  qed (use Cons in simp)
qed simp

lemma evo_broadcastSegment:
  assumes "broadcastSegment env p s = Some s'" "stock env X s" "evo env X H0 s0 H s"
  shows "evo env X H0 s0 H s'"
proof -
  from assms(1) obtain m ms where q: "b_q (get_b s p) = m # ms" by (auto simp: broadcastSegment_def split: list.split_asm)
  have "held_by ((get_b s p)\<lparr>b_q := ms\<rparr>) \<subseteq> held_by (get_b s p) \<union> X" using q by (auto simp: held_by_def)
  then show ?thesis
    using assms(1,3) q stock_segment [OF assms(2), of m p]
    by (auto simp: broadcastSegment_def Let_def intro!: evo_broadcastLoop evo_rules)
qed

lemma evo_broadcastDone: "broadcastDone p c s = Some s' \<Longrightarrow> evo env X H0 s0 H s \<Longrightarrow> evo env X H0 s0 H s'"
  using p_end_free [of "GO_Broadcast p c" env X H s, THEN evo_prim, of H0 s0]
  by (auto simp: broadcastDone_def ends_def split: if_split_asm)

lemma evo_cancel_opt: "evo env X H0 s0 H s \<Longrightarrow> evo env X H0 s0 H (cancel_opt co s)"
  by (auto simp: cancel_opt_def cancel_def split: option.split intro!: evo_rules)

lemma evo_finishLoop: "evo env X H0 s0 H s \<Longrightarrow> evo env X H0 s0 H (finishLoop env p ks s)"
proof (induction ks arbitrary: s)
  case (Cons k ks)
  then show ?case by (auto split: option.split intro!: Cons.IH evo_retry_snd)
qed simp

lemma evo_Finish: "Finish env s p = (r, s') \<Longrightarrow> evo env X H0 s0 H s \<Longrightarrow> evo env X H0 s0 H s'"
  by (auto simp: Finish_def Let_def split: if_split_asm intro!: evo_rules evo_finishLoop evo_cancel_opt)

section \<open>Subscribers\<close>

lemma new_s_eq: "new_s s u = (fresh (sstore s), snd (new_s s u))"
  by (simp add: new_s_def snew_def Let_def)

lemma new_s_fields [simp]:
  "subscribers (snd (new_s s u)) = subscribers s" "fresh (sstore (snd (new_s s u))) = Suc (fresh (sstore s))"
  "get_s (snd (new_s s u)) q = (if q = fresh (sstore s) then u else get_s s q)"
  by (simp_all add: new_s_def snew_def Let_def get_s_def sget_def)

lemma evo_GetSubscriber: "GetSubscriber s k = (p, s') \<Longrightarrow> evo env X H0 s0 H s \<Longrightarrow> evo env X H0 s0 H s'"
  by (subst (asm) GetSubscriber_def, subst (asm) new_s_eq)
    (auto split: option.split_asm if_split_asm intro!: evo_rules)

lemma get_s_with_cancel: "with_cancel s = (c, s') \<Longrightarrow> get_s s' p = get_s s p"
  by (auto simp: with_cancel_def Let_def get_s_def split: prod.split_asm)

lemma evo_beginWork: "beginWork s p = (c, s') \<Longrightarrow> evo env X H0 s0 H s \<Longrightarrow> evo env X H0 s0 H s'"
  by (auto simp: beginWork_def Let_def get_s_with_cancel split: prod.split_asm
      intro!: evo_rules elim: evo_with_cancel)

lemma evo_startWorker: "evo env X H0 s0 H s \<Longrightarrow> evo env X H0 s0 H (startWorker s p c ws)"
  by (auto simp: startWorker_def)

lemma evo_subLoop: "subLoop env p op d qs s = (e, s') \<Longrightarrow> conveyed op d \<subseteq> X \<Longrightarrow> evo env X H0 s0 H s \<Longrightarrow> evo env X H0 s0 H s'"
proof (induction qs arbitrary: s)
  case (Cons q qs)
  then show ?case
    by (auto simp: Let_def split: if_split_asm prod.split_asm option.split_asm dest: evo_GetOut
        intro!: evo_startWorker evo_rules elim!: evo_beginWork evo_retry elim: evo_GetOut)
qed simp

lemma evo_sendSub:
  "sendSub env s p op d = (e, s') \<Longrightarrow> conveyed op d \<subseteq> X \<Longrightarrow> p < fresh (sstore s) \<Longrightarrow>
     evo env X H0 s0 H s \<Longrightarrow> evo env X H0 s0 H s'"
  by (auto simp: sendSub_def Let_def split: option.split_asm if_split_asm sum.split_asm prod.split_asm
      intro!: evo_startWorker evo_AddListeningStream elim!: evo_beginWork evo_retry evo_subLoop
      elim: evo_GetOut)

lemma evo_sendSub_snd:
  "conveyed op d \<subseteq> X \<Longrightarrow> p < fresh (sstore s) \<Longrightarrow> evo env X H0 s0 H s \<Longrightarrow>
     evo env X H0 s0 H (snd (sendSub env s p op d))"
  using evo_sendSub by (metis prod.collapse)

lemma with_cancel_fields: "with_cancel s = (c, s') \<Longrightarrow> gos s' = gos s \<and> subscribers s' = subscribers s"
  by (auto simp: with_cancel_def Let_def split: prod.split_asm)

lemma evo_TranscoderSubscribe:
  "TranscoderSubscribe env s p = Returns (e, s') \<Longrightarrow> mget (subscribers s) k = Some p \<Longrightarrow>
     evo env X H0 s0 H s \<Longrightarrow> evo env X H0 s0 H s'"
  by (auto simp: TranscoderSubscribe_def Let_def get_s_with_cancel with_cancel_fields
      split: option.split_asm sum.split_asm prod.split_asm
      intro!: evo_rules evo_spawn_free exI [of _ k] elim!: evo_with_cancel)

lemma GetSubscriber_registered: "GetSubscriber s k = (p, s') \<Longrightarrow> mget (subscribers s') k = Some p"
  by (auto simp: GetSubscriber_def split: option.split_asm prod.split_asm)

lemma evo_TranscodeSub: "TranscodeSub env s k = Returns (e, s') \<Longrightarrow> evo env X H0 s0 H s \<Longrightarrow> evo env X H0 s0 H s'"
  by (auto simp: TranscodeSub_def split: prod.split_asm dest: GetSubscriber_registered
      elim!: evo_TranscoderSubscribe evo_GetSubscriber)

lemma locals_from_cancel [simp]: "locals_from (cancel_opt co s) p b = locals_from s p b"
  by (simp add: locals_from_def cancel_opt_def cancel_def split: option.split)

lemma evo_Unsubscribe: "evo env X H0 s0 H s \<Longrightarrow> evo env X H0 s0 H (Unsubscribe s p)"
  by (auto simp: Unsubscribe_def Let_def split: option.split if_split_asm intro!: evo_rules evo_cancel_opt)

text \<open>A goroutine goes on as another one: the new one starts before the old one is gone.\<close>

lemma spawn_ends: "g' \<in> set (gos s) \<Longrightarrow> spawn g (ends g' s) = ends g' (spawn g s)"
  by (simp add: spawn_def ends_def remove1_append)

lemma evo_insertStart:
  "GO_Insert p sd \<in> set (gos s) \<Longrightarrow> evo env X H0 s0 H s \<Longrightarrow> evo env X H0 s0 H (insertStart p sd s)"
  by (auto simp: insertStart_def spawn_ends intro!: evo_rules evo_spawn_free)

lemma evo_insertTimeout: "evo env X H0 s0 H s \<Longrightarrow> evo env X H0 s0 H (insertTimeout p sd s)"
  by (auto simp: insertTimeout_def intro!: evo_rules)

lemma workerData_log: "workerData p m s =
    ends (GO_InsertWait p m) (cancel_opt (s_subResponded (get_s s p)) (log (E_GotData p (sd_SeqNo m) (sd_Data m) False) s))"
  by (simp add: workerData_def Let_def ends_def log_def cancel_opt_def cancel_def get_s_def split: option.split)

lemma evo_workerData:
  "GO_InsertWait p m \<in> set (gos s) \<Longrightarrow> evo env X H0 s0 H s \<Longrightarrow> evo env X H0 s0 H (workerData p m s)"
  unfolding workerData_log by (intro evo_rules evo_cancel_opt) auto

lemma evo_workerDone: "evo env X H0 s0 H s \<Longrightarrow> evo env X H0 s0 H (workerDone env p c ws s)"
  by (auto simp: workerDone_def Let_def split: option.split
      intro!: evo_rules evo_cancel_opt evo_retry_snd)

lemma cancel_opt_gos [simp]: "gos (cancel_opt co s) = gos s"
  by (simp add: cancel_opt_def split: option.split)

lemma io_frame_gos_subset: "io_frame s s' \<Longrightarrow> set (gos s) \<subseteq> set (gos s')"
  by (auto simp: io_frame_def)

lemmas io_gos = GetOutStream_frame [THEN io_frame_gos_subset] retry_frame [THEN io_frame_gos_subset]

lemma subLoop_gos: "subLoop env p op d qs s = (e, s') \<Longrightarrow> set (gos s) \<subseteq> set (gos s')"
proof (induction qs arbitrary: s)
  case (Cons q qs)
  show ?case
  proof
    fix g assume "g \<in> set (gos s)"
    then show "g \<in> set (gos s')"
      using Cons.prems Cons.IH
      by (auto simp: startWorker_def beginWork_spec Let_def split: if_split_asm prod.split_asm option.split_asm
          dest!: io_gos)
  qed
qed simp

lemma sendSub_gos: "sendSub env s p op d = (e, s') \<Longrightarrow> set (gos s) \<subseteq> set (gos s')"
  by (auto simp: sendSub_def startWorker_def beginWork_spec AddListeningStream_def Let_def
      split: if_split_asm prod.split_asm option.split_asm sum.split_asm dest!: io_gos subLoop_gos)

lemma evo_retransmitSend:
  assumes "GO_Retransmit p c ts \<in> set (gos s)" "p < fresh (sstore s)" "evo env X H0 s0 H s"
  shows "evo env X H0 s0 H (retransmitSend env p c ts s)"
proof -
  let ?s1 = "put_s s p ((get_s s p)\<lparr>s_subAttempts := s_subAttempts (get_s s p) + 1\<rparr>)"
  obtain e s2 where sub: "sendSub env ?s1 p TranscodeSubID (D_TranscodeSub ts) = (e, s2)" by fastforce
  have 2: "evo env X H0 s0 H s2"
    by (rule evo_sendSub [OF sub]) (use assms(2,3) in \<open>auto intro!: evo_rules\<close>)
  have g: "GO_Retransmit p c ts \<in> set (gos s2)" using sendSub_gos [OF sub] assms(1) by auto
  show ?thesis
    using sub 2 g by (auto simp: retransmitSend_def spawn_ends intro!: evo_rules evo_spawn_free)
qed

lemma evo_retransmit:
  assumes "GO_RetransmitWait p c ts \<in> set (gos s)" "evo env X H0 s0 H s"
  shows "evo env X H0 s0 H (retransmitTimer p c ts s)" "evo env X H0 s0 H (retransmitStop p c ts s)"
  using assms
  by (auto simp: retransmitTimer_def retransmitStop_def spawn_ends intro!: evo_rules evo_spawn_free)

lemma evo_SubscriberConnected: "evo env X H0 s0 H s \<Longrightarrow> evo env X H0 s0 H (SubscriberConnected env s p q)"
  by (auto simp: SubscriberConnected_def split: sum.split)

lemma evo_directConn: "evo env X H0 s0 H s \<Longrightarrow> evo env X H0 s0 H (directConn env p q s)"
  by (auto simp: directConn_def Let_def split: option.split prod.split
      intro!: evo_rules evo_cancel_opt elim!: evo_GetOut intro: evo_retry_snd)

section \<open>Handlers\<close>

lemma evo_sendLastMsgs:
  "(\<And>m. Some m \<in> set ms \<Longrightarrow> Segment (b_StrmID (get_b s b)) (sd_SeqNo m) (sd_Data m) \<in> X) \<Longrightarrow>
     evo env X H0 s0 H s \<Longrightarrow> evo env X H0 s0 H (sendLastMsgs env b q ms s)"
proof (induction ms arbitrary: s)
  case (Cons m ms)
  then show ?case
    by (cases m) (auto simp: sendDataMsg_def sendDataMsg_StrmID io_frame_structs [OF GetOutStream_frame]
        split: prod.split intro!: Cons.IH evo_rules evo_sendDataMsg elim: evo_GetOut)
qed simp

lemma AddListeningPeer_held:
  "held_by (get_b (AddListeningPeer env s b q) b) = held_by (get_b s b)"
  "b_lastMsgs (get_b (AddListeningPeer env s b q) b) = b_lastMsgs (get_b s b)"
  "b_StrmID (get_b (AddListeningPeer env s b q) b) = b_StrmID (get_b s b)"
  by (auto simp: AddListeningPeer_def Let_def io_frame_structs [OF GetOutStream_frame] split: option.split prod.split)

lemma evo_handleSub: 
  "handleSub env s op k d q = (e, s') \<Longrightarrow> conveyed op d \<subseteq> X \<Longrightarrow> stock env X s \<Longrightarrow>
     evo env X H0 s0 H s \<Longrightarrow> evo env X H0 s0 H s'"
  by (auto simp: handleSub_def Let_def
      split: option.split_asm sum.split_asm if_split_asm prod.split_asm forwarded.split_asm
      intro!: evo_sendLastMsgs evo_AddListeningPeer evo_AddListener evo_createRelayer evo_retry_snd
      elim!: evo_forward evo_GetOut simp: AddListeningPeer_held dest: stock_segment)

lemma evo_handleSubReq: 
  "handleSubReq env s d q = (e, s') \<Longrightarrow> stock env X s \<Longrightarrow> evo env X H0 s0 H s \<Longrightarrow> evo env X H0 s0 H s'"
  by (auto simp: handleSubReq_def elim: evo_handleSub)

lemma evo_handleCancelSubReq:
  "handleCancelSubReq env s d q = (e, s') \<Longrightarrow> evo env X H0 s0 H s \<Longrightarrow> evo env X H0 s0 H s'"
  by (auto simp: handleCancelSubReq_def Let_def no_nil_listener_def
      split: option.split_asm if_split_asm prod.split_asm
      intro!: evo_rules evo_retry_snd elim!: evo_GetOut)

lemma evo_InsertData: 
  "InsertData s p d = (e, s') \<Longrightarrow> carried (D_StreamData d) \<subseteq> X \<Longrightarrow> fits s p d \<Longrightarrow> evo env X H0 s0 H s \<Longrightarrow> evo env X H0 s0 H s'"
  by (auto simp: InsertData_def)

lemma evo_handleStreamData:
  "handleStreamData env s q d = Returns (e, s') \<Longrightarrow> carried (D_StreamData d) \<subseteq> X \<Longrightarrow>
     evo env X H0 s0 H s \<Longrightarrow> evo env X H0 s0 H s'"
  by (auto simp: handleStreamData_def Let_def relay_defs InsertData_def getSubscriber_def fits_def
      split: option.split_asm if_split_asm intro!: evo_spawn_free elim!: evo_relay)

lemma evo_handleFinishStream:
  "handleFinishStream env s d = Returns (e, s') \<Longrightarrow> evo env X H0 s0 H s \<Longrightarrow> evo env X H0 s0 H s'"
  by (auto simp: handleFinishStream_def Let_def relay_defs split: option.split_asm if_split_asm
      intro!: evo_rules evo_Unsubscribe elim!: evo_relay)

lemma evo_handleTranscodeResponse:
  "handleTranscodeResponse env s q d = (e, s') \<Longrightarrow> carried (D_TranscodeResponse d) \<subseteq> X \<Longrightarrow>
     evo env X H0 s0 H s \<Longrightarrow> evo env X H0 s0 H s'"
  by (auto simp: handleTranscodeResponse_def
      split: option.split_asm sum.split_asm if_split_asm prod.split_asm forwarded.split_asm
      intro!: evo_rules elim: evo_forward)

lemma stock_Connect: "Connect env s n as = (e, s') \<Longrightarrow> stock env X s' = stock env X s"
  by (auto simp: Connect_def connectPeerInfo_def split: sum.split_asm option.split_asm)

lemma evo_handleTranscodeSub:
  "handleTranscodeSub env s q d = (e, s') \<Longrightarrow> stock env X s \<Longrightarrow> evo env X H0 s0 H s \<Longrightarrow> evo env X H0 s0 H s'"
  by (auto simp: handleTranscodeSub_def Let_def
      split: option.split_asm sum.split_asm if_split_asm prod.split_asm
      simp: stock_Connect elim!: evo_handleSub evo_handleSubReq evo_Connect)

lemma evo_reply: "reply env s p op d = (e, s') \<Longrightarrow> conveyed op d \<subseteq> X \<Longrightarrow> evo env X H0 s0 H s \<Longrightarrow> evo env X H0 s0 H s'"
  by (auto simp: reply_def split: prod.split_asm elim!: evo_retry evo_GetOut)

lemma as_handle_error_snd: "as_handle_error r = (e, s') \<Longrightarrow> s' = snd r"
  by (auto simp: as_handle_error_def split: prod.split_asm option.split_asm)

lemma evo_as_reply: 
  "as_handle_error (reply env s p op d) = (e, s') \<Longrightarrow> conveyed op d \<subseteq> X \<Longrightarrow> evo env X H0 s0 H s \<Longrightarrow> evo env X H0 s0 H s'"
  by (drule as_handle_error_snd) (metis evo_reply prod.collapse)

lemma evo_handleGetMasterPlaylistReq:
  "handleGetMasterPlaylistReq env s q d = (e, s') \<Longrightarrow> stock env X s \<Longrightarrow> evo env X H0 s0 H s \<Longrightarrow> evo env X H0 s0 H s'"
  by (auto simp: handleGetMasterPlaylistReq_def Let_def
      split: option.split_asm sum.split_asm if_split_asm prod.split_asm forwarded.split_asm
      simp: mplNotFound_def stock_def
      intro!: evo_AddListener evo_createRelayer elim!: evo_as_reply evo_reply evo_forward)

lemma evo_handleNodeStatusReqMsg:
  "handleNodeStatusReqMsg env s q d = (e, s') \<Longrightarrow> evo env X H0 s0 H s \<Longrightarrow> evo env X H0 s0 H s'"
  by (auto simp: handleNodeStatusReqMsg_def Let_def
      split: option.split_asm sum.split_asm if_split_asm prod.split_asm forwarded.split_asm
      simp: statusNotFound_def
      intro!: evo_AddListener evo_createRelayer elim!: evo_as_reply evo_reply evo_forward)

lemma evo_chan_send:
  "chan_send s c v = Returns s' \<Longrightarrow> send_ok X H s c v \<Longrightarrow> evo env X H0 s0 H s \<Longrightarrow> evo env X H0 s0 H s'"
  by (auto simp: chan_send_def Let_def split: if_split_asm intro!: evo_rules)

lemma evo_handleMasterPlaylistDataMsg:
  "handleMasterPlaylistDataMsg env s d = Returns (e, s') \<Longrightarrow> carried (D_MasterPlaylistData d) \<subseteq> X \<Longrightarrow>
     evo env X H0 s0 H s \<Longrightarrow> evo env X H0 s0 H s'"
  by (auto simp: handleMasterPlaylistDataMsg_def relay_defs split: option.split_asm outcome.split_asm
      intro!: send_ok_answer [OF _ answers_playlist] elim!: evo_relay evo_chan_send)

lemma evo_handleNodeStatusDataMsg:
  "handleNodeStatusDataMsg env s d = Returns (e, s') \<Longrightarrow> evo env X H0 s0 H s \<Longrightarrow> evo env X H0 s0 H s'"
  by (auto simp: handleNodeStatusDataMsg_def relay_defs split: option.split_asm
      intro!: send_ok_answer [OF _ answers_status] elim!: evo_relay evo_chan_send)

lemma evo_handlePing: "handlePing env s q d = (e, s') \<Longrightarrow> evo env X H0 s0 H s \<Longrightarrow> evo env X H0 s0 H s'"
  by (auto simp: handlePing_def as_handle_error_def split: prod.split_asm option.split_asm
      elim!: evo_SendMessage evo_GetOut)

section \<open>Channels\<close>

lemma evo_handlePong: "handlePong s q n = Returns (e, s') \<Longrightarrow> evo env X H0 s0 H s \<Longrightarrow> evo env X H0 s0 H s'"
proof (cases "mget (pingChs s) n")
  case (Some c)
  assume h: "handlePong s q n = Returns (e, s')" and s: "evo env X H0 s0 H s"
  from h Some obtain s1 s2 where 1: "chan_send s c V_Unit = Returns s1"
    and 2: "chan_close s1 c = Returns s2" and s': "s' = s2\<lparr>pingChs := mdel (pingChs s2) n\<rparr>"
    by (auto simp: handlePong_def split: outcome.split_asm)
  have e1: "evo env X H0 s0 H s1" by (rule evo_chan_send [OF 1 _ s]) simp
  have p1: "pingChs s1 = pingChs s" using 1 by (auto simp: chan_send_def Let_def split: if_split_asm)
  have s2: "s2 = s1\<lparr>chans := sput (chans s1) c ((sget (chans s1) c)\<lparr>ch_closed := True\<rparr>)\<rparr>"
    using 2 by (auto simp: chan_close_def Let_def split: if_split_asm)
  show ?thesis
    unfolding s' s2 by (rule p_close_ping [THEN evo_prim, OF _ _ _ e1]) (simp_all add: p1 Some)
qed (auto simp: handlePong_def)

lemma evo_set_recv: "evo env X H0 s0 H s \<Longrightarrow> evo env X H0 s0 H (set_recv c b s)"
  by (auto simp: set_recv_def intro!: evo_rules)

lemma evo_take_val: "evo env X H0 s0 H s \<Longrightarrow> evo env X H0 s0 H (take_val c s)"
  by (auto simp: take_val_def intro!: evo_rules)

lemma evo_new_chan: "new_chan s = (c, s') \<Longrightarrow> evo env X H0 s0 H s \<Longrightarrow> evo env X H0 s0 ((c, k, False) # H) s'"
  by (rule p_new_chan [THEN evo_prim])

lemma evo_drop: "evo env X H0 s0 ((c, k, False) # H) s \<Longrightarrow> evo env X H0 s0 H s"
  by (rule p_drop [THEN evo_prim])

text \<open>A goroutine with duties takes them over when it starts and returns them when it ends.\<close>

lemma evo_spawn: "\<not> is_worker g \<Longrightarrow> duty g = ds \<Longrightarrow> spawn_ok X (duty g @ H) s g \<Longrightarrow>
    evo env X H0 s0 (ds @ H) s \<Longrightarrow> evo env X H0 s0 H (spawn g s)"
  by (auto intro: p_spawn [THEN evo_prim])

lemma evo_end: "g \<in> set (gos s) \<Longrightarrow> duty g = ds \<Longrightarrow> evo env X H0 s0 H s \<Longrightarrow> evo env X H0 s0 (ds @ H) (ends g s)"
  by (auto intro: p_end [THEN evo_prim])

lemmas evo_ends =
  evo_end [OF _ duty.simps(1), simplified] evo_end [OF _ duty.simps(2), simplified]
  evo_end [OF _ duty.simps(3), simplified] evo_end [OF _ duty.simps(4), simplified]
  evo_end [OF _ duty.simps(5), simplified] evo_end [OF _ duty.simps(6), simplified]
  evo_end [OF _ duty.simps(7), simplified] evo_end [OF _ duty.simps(8), simplified]
  evo_end [OF _ duty.simps(9), simplified]

lemma take_val_gos [simp]: "gos (take_val c s) = gos s"
  by (simp add: take_val_def)

lemma chan_send_gos: "chan_send s c v = Returns s' \<Longrightarrow> gos s' = gos s"
  by (auto simp: chan_send_def Let_def split: if_split_asm)

lemma evo_reqEnd:
  "reqEnd c k s = Returns s' \<Longrightarrow> evo env X H0 s0 ((c, k, True) # H) s \<Longrightarrow> evo env X H0 s0 H s'"
  by (auto simp: reqEnd_def chan_close_def Let_def split: if_split_asm intro!: p_close_msg [THEN evo_prim])

lemma evo_chan_close:
  "chan_close s c = Returns s' \<Longrightarrow> evo env X H0 s0 ((c, k, False) # H) s \<Longrightarrow> evo env X H0 s0 H s'"
  by (auto simp: chan_close_def Let_def split: if_split_asm intro!: p_close [THEN evo_prim])

lemma evo_swap: "evo env X H0 s0 (d1 # d2 # H) s \<Longrightarrow> evo env X H0 s0 (d2 # d1 # H) s"
  by (rule p_swap [THEN evo_prim])

section \<open>Requests\<close>

lemma evo_getResponseWithRelay:
  "getResponseWithRelay s m k n = (rc, s') \<Longrightarrow> conveyed (Op m) (Data m) \<subseteq> X \<Longrightarrow> evo env X H0 s0 H s \<Longrightarrow> evo env X H0 s0 H s'"
  by (auto simp: getResponseWithRelay_def split: prod.split_asm
      intro!: evo_spawn p_reg_msg [THEN evo_prim] elim!: evo_new_chan)

text \<open>The goroutine of a request, as long as it runs, tells the key of the channel returned.\<close>

lemma getResponseWithRelay_known: "getResponseWithRelay s m k n = (rc, s') \<Longrightarrow> known H s' rc k"
  by (auto simp: getResponseWithRelay_def known_def spawn_def split: prod.split_asm intro!: bexI)

lemma known_set_recv [simp]: "known H (set_recv c b s) c' k = known H s c' k"
  by (simp add: known_def set_recv_def)

text \<open>The loop of a request holds the duties of its goroutine until it waits or gives up.\<close>

lemma evo_askPeers:
  "askPeers env c rc k m ps s = Returns s' \<Longrightarrow> conveyed (Op m) (Data m) \<subseteq> X \<Longrightarrow>
     evo env X H0 s0 ((c, k, True) # (rc, k, False) # H) s \<Longrightarrow>
     evo env X H0 s0 H s'"
proof (induction ps arbitrary: s)
  case Nil
  then show ?case by (auto intro: evo_drop dest: evo_reqEnd)
next
  case (Cons p ps)
  then show ?case
    by (auto split: if_split_asm prod.split_asm option.split_asm intro!: evo_spawn evo_set_recv
        intro: Cons.IH elim!: evo_retry evo_GetOut)
qed

lemma evo_reqLoop:
  "reqLoop env c rc k m ps s = Returns s' \<Longrightarrow> GO_ReqLoop c rc k m ps \<in> set (gos s) \<Longrightarrow> conveyed (Op m) (Data m) \<subseteq> X \<Longrightarrow>
     evo env X H0 s0 H s \<Longrightarrow> evo env X H0 s0 H s'"
  unfolding reqLoop_def by (auto elim!: evo_askPeers intro!: evo_ends)

lemma evo_reqStart:
  "reqStart env c rc k n m s = Returns s' \<Longrightarrow> GO_ReqStart c rc k n m \<in> set (gos s) \<Longrightarrow> conveyed (Op m) (Data m) \<subseteq> X \<Longrightarrow>
     evo env X H0 s0 H s \<Longrightarrow> evo env X H0 s0 H s'"
  by (auto simp: reqStart_def Let_def split: sum.split_asm intro!: evo_spawn evo_ends
      intro: evo_drop [OF evo_swap] elim!: evo_reqEnd)

lemma evo_reqTimer:
  "reqTimer c rc k m ps s = Some s' \<Longrightarrow> GO_ReqWait c rc k m ps \<in> set (gos s) \<Longrightarrow> conveyed (Op m) (Data m) \<subseteq> X \<Longrightarrow>
     evo env X H0 s0 H s \<Longrightarrow> evo env X H0 s0 H s'"
  by (auto simp: reqTimer_def split: if_split_asm intro!: evo_spawn evo_ends evo_set_recv)

lemma take_val_commute: "spawn g (ends g' (take_val c s)) = take_val c (spawn g (ends g' s))"
  by (simp add: take_val_def spawn_def ends_def)

lemma evo_reqResponse:
  "reqResponse c rc k m ps s = Some s' \<Longrightarrow> GO_ReqWait c rc k m ps \<in> set (gos s) \<Longrightarrow>
     evo env X H0 s0 H s \<Longrightarrow> evo env X H0 s0 H s'"
  by (auto simp: reqResponse_def take_val_commute split: option.split_asm chval.split_asm
      intro!: evo_spawn evo_ends evo_take_val)

lemma evo_reqReturn:
  assumes "reqReturn c rc k m s = Returns s'" "GO_ReqReturn c rc k m \<in> set (gos s)" "evo env X H0 s0 H s"
  shows "evo env X H0 s0 H s'"
proof -
  from assms(1) obtain s1 where 1: "chan_send s rc (V_Msg m) = Returns s1"
    and 2: "reqEnd c k (ends (GO_ReqReturn c rc k m) s1) = Returns s'"
    by (auto simp: reqReturn_def split: outcome.split_asm)
  have "evo env X H0 s0 ((c, k, True) # (rc, k, False) # H) (ends (GO_ReqReturn c rc k m) s1)"
    using assms(2) chan_send_gos [OF 1]
    by (intro evo_ends evo_chan_send [OF 1 _ assms(3)]) (auto simp: send_ok_def)
  from evo_drop [OF evo_reqEnd [OF 2 this]] show ?thesis .
qed

lemma send_ok_close: "GO_SendClose c v \<in> set (gos s) \<Longrightarrow> send_ok X H s c v"
  by (auto simp: send_ok_def)

lemma evo_sendClose:
  "sendClose out v s = Returns s' \<Longrightarrow> GO_SendClose out v \<in> set (gos s) \<Longrightarrow>
     evo env X H0 s0 H s \<Longrightarrow> evo env X H0 s0 H s'"
  by (auto simp: sendClose_def chan_send_gos split: outcome.split_asm
      intro!: evo_ends elim!: evo_chan_close elim: evo_chan_send [OF _ send_ok_close])

section \<open>The client interface\<close>

lemma evo_getMasterPlaylistWithRelay:
  "getMasterPlaylistWithRelay env s k = (out, s') \<Longrightarrow> evo env X H0 s0 H s \<Longrightarrow> evo env X H0 s0 H s'"
  by (auto simp: getMasterPlaylistWithRelay_def split: prod.split_asm sum.split_asm
      intro!: evo_spawn evo_set_recv exI
      elim!: getResponseWithRelay_known evo_getResponseWithRelay intro: evo_drop evo_new_chan)

lemma evo_GetMasterPlaylist:
  "GetMasterPlaylist env s k = (r, s') \<Longrightarrow> evo env X H0 s0 H s \<Longrightarrow> evo env X H0 s0 H s'"
  by (auto simp: GetMasterPlaylist_def split: option.split_asm prod.split_asm sum.split_asm if_split_asm
      intro!: evo_spawn elim!: evo_new_chan evo_getMasterPlaylistWithRelay)

lemma evo_UpdateMasterPlaylist:
  "UpdateMasterPlaylist s k m = (r, s') \<Longrightarrow> (\<And>v. m = Some v \<Longrightarrow> PlaylistText k (mplString env v) \<in> X) \<Longrightarrow>
     evo env X H0 s0 H s \<Longrightarrow> evo env X H0 s0 H s'"
  by (auto simp: UpdateMasterPlaylist_def split: option.split_asm if_split_asm intro!: evo_rules)

lemma evo_getNodeStatusWithRelay:
  "getNodeStatusWithRelay s n = (out, s') \<Longrightarrow> evo env X H0 s0 H s \<Longrightarrow> evo env X H0 s0 H s'"
  by (auto simp: getNodeStatusWithRelay_def split: prod.split_asm
      intro!: evo_spawn evo_set_recv exI
      elim!: getResponseWithRelay_known evo_getResponseWithRelay evo_new_chan)

lemma evo_GetNodeStatus: "GetNodeStatus env s n = (out, s') \<Longrightarrow> evo env X H0 s0 H s \<Longrightarrow> evo env X H0 s0 H s'"
  by (auto simp: GetNodeStatus_def split: prod.split_asm if_split_asm
      intro!: evo_spawn elim!: evo_new_chan evo_getNodeStatusWithRelay)

lemma evo_mplArrived:
  "mplArrived env mc out s = Some (Returns s') \<Longrightarrow> GO_MplWait mc out \<in> set (gos s) \<Longrightarrow>
     evo env X H0 s0 H s \<Longrightarrow> evo env X H0 s0 H s'"
  by (auto simp: mplArrived_def Let_def split: option.split_asm chval.split_asm gdata.split_asm
      if_split_asm sum.split_asm intro!: evo_spawn evo_ends evo_take_val elim!: evo_chan_close)

lemma evo_statusArrived:
  "statusArrived env mc out s = Some (Returns s') \<Longrightarrow> GO_StatusWait mc out \<in> set (gos s) \<Longrightarrow>
     evo env X H0 s0 H s \<Longrightarrow> evo env X H0 s0 H s'"
  by (auto simp: statusArrived_def Let_def split: option.split_asm chval.split_asm gdata.split_asm
      if_split_asm sum.split_asm prod.split_asm intro!: evo_spawn evo_ends evo_take_val elim!: evo_chan_close)

lemma evo_reconnect: "reconnect env s p n as = (r, s') \<Longrightarrow> evo env X H0 s0 H s \<Longrightarrow> evo env X H0 s0 H s'"
  by (auto simp: reconnect_def split: if_split_asm intro!: evo_rules elim!: evo_Connect)

lemma evo_pingSend:
  "pingSend env s p n as sh nc = (r, s') \<Longrightarrow> evo env X H0 s0 H s \<Longrightarrow> evo env X H0 s0 H s'"
  by (auto simp: pingSend_def split: prod.split_asm option.split_asm if_split_asm
      intro!: p_log [THEN evo_prim] elim!: evo_SendMessage evo_GetOut evo_Connect)

lemma evo_Ping: "Ping env s n = (r, s') \<Longrightarrow> evo env X H0 s0 H s \<Longrightarrow> evo env X H0 s0 H s'"
  by (auto simp: Ping_def Let_def split: prod.split_asm sum.split_asm option.split_asm
      intro!: p_reg_ping [THEN evo_prim] p_log [THEN evo_prim]
      elim!: evo_pingSend evo_GetOut evo_reconnect
      intro: evo_drop evo_new_chan)

lemma evo_sendFirst: "sendFirst env op d ps s = (b, s') \<Longrightarrow> conveyed op d \<subseteq> X \<Longrightarrow> evo env X H0 s0 H s \<Longrightarrow> evo env X H0 s0 H s'"
proof (induction ps arbitrary: s)
  case (Cons p ps)
  then show ?case
    by (auto split: if_split_asm prod.split_asm option.split_asm elim!: evo_GetOut evo_retry intro: Cons.IH)
qed simp

lemma evo_SendTranscodeResponse:
  "SendTranscodeResponse env s b k r = (e, s') \<Longrightarrow> TranscodeResult k r \<in> X \<Longrightarrow> evo env X H0 s0 H s \<Longrightarrow> evo env X H0 s0 H s'"
  by (auto simp: SendTranscodeResponse_def split: if_split_asm sum.split_asm prod.split_asm bool.split_asm
      elim!: evo_sendFirst)

lemma evo_ReceivedTranscodeResponse:
  "evo env X H0 s0 H s \<Longrightarrow> evo env X H0 s0 H (ReceivedTranscodeResponse s k cb)"
  by (auto simp: ReceivedTranscodeResponse_def intro!: evo_rules)

section \<open>The other goroutines and callbacks\<close>

lemma evo_getMasterPlaylistWithDHT:
  "getMasterPlaylistWithDHT s k = (r, s') \<Longrightarrow> evo env X H0 s0 H s \<Longrightarrow> evo env X H0 s0 H s'"
  by (auto simp: getMasterPlaylistWithDHT_def split: prod.split_asm
      intro!: evo_spawn evo_rules elim!: evo_new_chan)

lemma evo_dhtGet:
  assumes "GO_DHTGet c k \<in> set (gos s)" "evo env X H0 s0 H s"
  shows "evo env X H0 s0 H (dhtGet env c k s)"
proof -
  have "evo env X H0 s0 ((c, [], False) # H) (ends (GO_DHTGet c k) s)"
    using assms by (intro evo_ends)
  then show ?thesis
    by (auto simp: dhtGet_def Let_def split: sum.split intro!: evo_spawn dest: evo_drop)
qed

lemma evo_dhtSend:
  assumes "dhtSend c m s = Returns s'" "GO_DHTSend c m \<in> set (gos s)" "evo env X H0 s0 H s"
  shows "evo env X H0 s0 H s'"
proof -
  from assms(1) obtain s1 where 1: "chan_send s c (V_Mpl (Some m)) = Returns s1"
    and 2: "s' = ends (GO_DHTSend c m) s1"
    by (auto simp: dhtSend_def)
  have "evo env X H0 s0 ((c, [], False) # H) s'"
    unfolding 2 using assms(2) chan_send_gos [OF 1] by (intro evo_ends evo_chan_send [OF 1 _ assms(3)]) simp_all
  then show ?thesis by (rule evo_drop)
qed

lemma evo_updateMasterPlaylistWithDHT:
  "updateMasterPlaylistWithDHT env s k m = (r, s') \<Longrightarrow> evo env X H0 s0 H s \<Longrightarrow> evo env X H0 s0 H s'"
  by (auto simp: updateMasterPlaylistWithDHT_def Let_def intro!: evo_rules)

section \<open>Dispatch\<close>

lemma evo_count_msg: "evo env X H0 s0 H s \<Longrightarrow> evo env X H0 s0 H (count_msg op s)"
  by (auto simp: count_msg_def intro!: evo_rules)

lemmas evo_handlers =
  evo_handleSubReq evo_handleCancelSubReq evo_handleStreamData evo_handleFinishStream
  evo_handleTranscodeResponse evo_handleTranscodeSub evo_handleGetMasterPlaylistReq
  evo_handleMasterPlaylistDataMsg evo_handleNodeStatusReqMsg evo_handleNodeStatusDataMsg
  evo_handlePing evo_handlePong

lemma stock_count [simp]: "stock env X (count_msg op s) = stock env X s"
  by (simp add: stock_def count_msg_def)

lemma evo_dispatch: 
  "dispatch env s q m = Returns (e, s') \<Longrightarrow> carried (Data m) \<subseteq> X \<Longrightarrow> stock env X s \<Longrightarrow>
     evo env X H0 s0 H s \<Longrightarrow> evo env X H0 s0 H s'"
  by (cases "Data m")
    (auto simp: dispatch_def Let_def split: if_split_asm intro: evo_count_msg elim!: evo_handlers)

lemma evo_streamHandler:
  "streamHandler env s q x = Returns (e, s') \<Longrightarrow> received env (A_Receive q x) \<subseteq> X \<Longrightarrow> stock env X s \<Longrightarrow>
     evo env X H0 s0 H s \<Longrightarrow> evo env X H0 s0 H s'"
  by (auto simp: streamHandler_def Let_def split: sum.split_asm if_split_asm outcome.split_asm
      intro!: p_log [THEN evo_prim] elim!: evo_dispatch)

lemma evo_protocolLoop:
  assumes "protocolLoop env q [x] s = Returns (b, ys, s')" "received env (A_Receive q x) \<subseteq> X" "stock env X s"
    and "evo env X H0 s0 H s"
  shows "evo env X H0 s0 H s'"
proof -
  from assms(1) obtain e s1 where h: "streamHandler env s q x = Returns (e, s1)" by (auto split: outcome.split_asm)
  from evo_streamHandler [OF h assms(2-4)] show ?thesis
    using assms(1) h
    by (auto split: outcome.split_asm option.split_asm if_split_asm intro!: p_log [THEN evo_prim] evo_RemoveStream)
qed

end
