(* ===== verification/Runs.thy ===== *)
theory Runs
  imports Evolution
begin

text \<open>
  The runs of a node: a step is a message that arrives, a call of the client, a step of a
  goroutine, a callback of libp2p or an event outside. Every step is a sequence of the disciplined
  changes of \<open>Evolution\<close>, so whatever those keep holds in every reachable state. The locale
  \<open>node_invariant\<close> states this once; its interpretations are the invariants of the node.
\<close>

section \<open>Steps\<close>

text \<open>
  The two setters \<^verbatim>\<open>SetBroadcaster\<close> and \<^verbatim>\<open>SetSubscriber\<close> are left out: only tests
  call them, and they may register a struct under an id that it does not have. The client of a
  broadcaster or subscriber holds a pointer that the node gave out.
\<close>

inductive step :: "env \<Rightarrow> action \<Rightarrow> node \<Rightarrow> node \<Rightarrow> bool" for env where
  \<comment> \<open>one item of an incoming stream\<close>
  s_receive: "protocolLoop env q [x] s = Returns (b, xs, s') \<Longrightarrow> step env (A_Receive q x) s s'"
  \<comment> \<open>calls of the client\<close>
| s_GetBroadcaster: "GetBroadcaster s k = (p, s') \<Longrightarrow> step env A_Other s s'"
| s_Broadcast: "p < fresh (bstore s) \<Longrightarrow> step env (A_Broadcast p n d) s (Broadcast s p n d)"
| s_Finish: "Finish env s p = (e, s') \<Longrightarrow> step env A_Other s s'"
| s_GetSubscriber: "GetSubscriber s k = (p, s') \<Longrightarrow> step env A_Other s s'"
| s_Subscribe: "p < fresh (sstore s) \<Longrightarrow> Subscribe env s p = (e, s') \<Longrightarrow> step env A_Other s s'"
| s_TranscodeSub: "TranscodeSub env s k = Returns (e, s') \<Longrightarrow> step env A_Other s s'"
| s_Unsubscribe: "step env A_Other s (Unsubscribe s p)"
| s_GetMasterPlaylist: "GetMasterPlaylist env s k = (r, s') \<Longrightarrow> step env A_Other s s'"
| s_UpdateMasterPlaylist: "UpdateMasterPlaylist s k m = (e, s') \<Longrightarrow> step env (A_UpdatePlaylist k m) s s'"
| s_GetNodeStatus: "GetNodeStatus env s k = (c, s') \<Longrightarrow> step env A_Other s s'"
| s_Ping: "Ping env s k = (r, s') \<Longrightarrow> step env A_Other s s'"
| s_SendTranscodeResponse: "SendTranscodeResponse env s k k' r = (e, s') \<Longrightarrow> step env (A_SendResult k' r) s s'"
| s_ReceivedTranscodeResponse: "step env A_Other s (ReceivedTranscodeResponse s k cb)"
| s_Connect: "Connect env s k as = (e, s') \<Longrightarrow> step env A_Other s s'"
| s_SetSignFun: "step env A_Other s (SetSignFun s f)"
| s_SetVerify: "step env A_Other s (SetVerifyTranscoderSig s v)"
| s_client_recv: "step env A_Other s (set_recv c b s)"
| s_client_take: "step env A_Other s (take_val c s)"
| s_getDHT: "getMasterPlaylistWithDHT s k = (r, s') \<Longrightarrow> step env A_Other s s'"
| s_putDHT: "updateMasterPlaylistWithDHT env s k m = (e, s') \<Longrightarrow> step env A_Other s s'"
  \<comment> \<open>goroutines\<close>
| s_broadcastSegment: "GO_Broadcast p c \<in> set (gos s) \<Longrightarrow> broadcastSegment env p s = Some s' \<Longrightarrow> step env A_Other s s'"
| s_broadcastDone: "GO_Broadcast p c \<in> set (gos s) \<Longrightarrow> broadcastDone p c s = Some s' \<Longrightarrow> step env A_Other s s'"
| s_relayGC: "GO_RelayGC p k \<in> set (gos s) \<Longrightarrow> relayGCTick env p k s = (ended, s') \<Longrightarrow>
    step env A_Other s (if ended then ends (GO_RelayGC p k) s' else s')"
| s_insertStart: "GO_Insert p d \<in> set (gos s) \<Longrightarrow> step env A_Other s (insertStart p d s)"
| s_insertTimeout: "GO_InsertWait p d \<in> set (gos s) \<Longrightarrow> step env A_Other s (insertTimeout p d s)"
| s_workerData: "GO_SubWorker p c ws \<in> set (gos s) \<Longrightarrow> GO_InsertWait p d \<in> set (gos s) \<Longrightarrow>
    step env A_Other s (workerData p d s)"
| s_workerDone: "GO_SubWorker p c ws \<in> set (gos s) \<Longrightarrow> cancelled s c \<Longrightarrow> step env A_Other s (workerDone env p c ws s)"
| s_retransmitSend: "GO_Retransmit p c ts \<in> set (gos s) \<Longrightarrow> step env A_Other s (retransmitSend env p c ts s)"
| s_retransmitTimer: "GO_RetransmitWait p c ts \<in> set (gos s) \<Longrightarrow> step env A_Other s (retransmitTimer p c ts s)"
| s_retransmitStop: "GO_RetransmitWait p c ts \<in> set (gos s) \<Longrightarrow> cancelled s c \<Longrightarrow>
    step env A_Other s (retransmitStop p c ts s)"
| s_directConn: "GO_DirectConn p q \<in> set (gos s) \<Longrightarrow> step env A_Other s (directConn env p q s)"
| s_reqStart: "GO_ReqStart c rc k n m \<in> set (gos s) \<Longrightarrow> reqStart env c rc k n m s = Returns s' \<Longrightarrow> step env A_Other s s'"
| s_reqLoop: "GO_ReqLoop c rc k m ps \<in> set (gos s) \<Longrightarrow> reqLoop env c rc k m ps s = Returns s' \<Longrightarrow> step env A_Other s s'"
| s_reqTimer: "GO_ReqWait c rc k m ps \<in> set (gos s) \<Longrightarrow> reqTimer c rc k m ps s = Some s' \<Longrightarrow> step env A_Other s s'"
| s_reqResponse: "GO_ReqWait c rc k m ps \<in> set (gos s) \<Longrightarrow> reqResponse c rc k m ps s = Some s' \<Longrightarrow> step env A_Other s s'"
| s_reqReturn: "GO_ReqReturn c rc k m \<in> set (gos s) \<Longrightarrow> reqReturn c rc k m s = Returns s' \<Longrightarrow> step env A_Other s s'"
| s_mplArrived: "GO_MplWait c out \<in> set (gos s) \<Longrightarrow> mplArrived env c out s = Some (Returns s') \<Longrightarrow> step env A_Other s s'"
| s_statusArrived: "GO_StatusWait c out \<in> set (gos s) \<Longrightarrow> statusArrived env c out s = Some (Returns s') \<Longrightarrow>
    step env A_Other s s'"
| s_sendClose: "GO_SendClose out v \<in> set (gos s) \<Longrightarrow> sendClose out v s = Returns s' \<Longrightarrow> step env A_Other s s'"
| s_dhtGet: "GO_DHTGet c k \<in> set (gos s) \<Longrightarrow> step env A_Other s (dhtGet env c k s)"
| s_dhtSend: "GO_DHTSend c m \<in> set (gos s) \<Longrightarrow> dhtSend c m s = Returns s' \<Longrightarrow> step env A_Other s s'"
  \<comment> \<open>callbacks of libp2p, and what happens outside\<close>
| s_SubscriberConnected: "step env A_Other s (SubscriberConnected env s p q)"
| s_Connected: "step env A_Other s (NotifieeConnected bn q q' s)"
| s_Disconnected: "bn_disconnectHandler bn = Some (\<lambda>p s. RemoveStream s p) \<Longrightarrow> step env A_Other s (Disconnected bn q q' s)"
| s_outside: "step env A_Other s (log (E_Env n) s)"

inductive reachable :: "env \<Rightarrow> node \<Rightarrow> bool" for env where
  start: "NewBasicVideoNetwork env me ip port = Inr s \<Longrightarrow> reachable env s"
| run: "reachable env s \<Longrightarrow> step env a s s' \<Longrightarrow> reachable env s'"

lemma evo_Disconnected:
  "bn_disconnectHandler bn = Some (\<lambda>p s. RemoveStream s p) \<Longrightarrow> evo env X H0 s0 H s \<Longrightarrow>
     evo env X H0 s0 H (Disconnected bn q q' s)"
  by (auto simp: Disconnected_def Let_def intro!: evo_rules evo_RemoveStream)

lemma evo_Subscribe:
  "Subscribe env s p = (e, s') \<Longrightarrow> p < fresh (sstore s) \<Longrightarrow> evo env X H0 s0 H s \<Longrightarrow> evo env X H0 s0 H s'"
  by (auto simp: Subscribe_def elim!: evo_sendSub)

lemma evo_SetSignFun: "evo env X H0 s0 H s \<Longrightarrow> evo env X H0 s0 H (SetSignFun s f)"
  unfolding SetSignFun_def by (intro evo_rules)

lemma evo_SetVerify: "evo env X H0 s0 H s \<Longrightarrow> evo env X H0 s0 H (SetVerifyTranscoderSig s v)"
  unfolding SetVerifyTranscoderSig_def by (intro evo_rules)

lemma evo_Connected: "evo env X H0 s0 H s \<Longrightarrow> evo env X H0 s0 H (NotifieeConnected bn q q' s)"
  unfolding NotifieeConnected_def by (auto intro: evo_rules)

lemma evo_GC: "relayGCTick env p k s = (ended, s') \<Longrightarrow> evo env X H0 s0 H s \<Longrightarrow>
    evo env X H0 s0 H (if ended then ends (GO_RelayGC p k) s' else s')"
  using evo_relayGCTick [of env p k s ended s' X H0 s0 H]
  by (auto intro: p_end_free [THEN evo_prim])

section \<open>Every step is disciplined\<close>

text \<open>The requests of a node that wait in its goroutines, and the subscriptions that are repeated.\<close>

fun requested :: "goroutine \<Rightarrow> content set" where
  "requested (GO_ReqStart c rc k n m) = conveyed (Op m) (Data m)"
| "requested (GO_ReqLoop c rc k m ps) = conveyed (Op m) (Data m)"
| "requested (GO_ReqWait c rc k m ps) = conveyed (Op m) (Data m)"
| "requested g = {}"

definition ready :: "env \<Rightarrow> content set \<Rightarrow> node \<Rightarrow> bool" where
  "ready env X s \<longleftrightarrow> stock env X s \<and> (\<forall>g \<in> set (gos s). requested g \<subseteq> X)"

lemma ready_UNIV [simp]: "ready env UNIV s"
  by (simp add: ready_def)

fun retransmits :: "goroutine \<Rightarrow> ptr \<Rightarrow> bool" where
  "retransmits (GO_Retransmit p c ts) q = (p = q)"
| "retransmits (GO_RetransmitWait p c ts) q = (p = q)"
| "retransmits g q = False"

definition refs_ok :: "node \<Rightarrow> bool" where
  "refs_ok s \<longleftrightarrow> (\<forall>g \<in> set (gos s). \<forall>p. retransmits g p \<longrightarrow> p < fresh (sstore s))"

lemma refs_okD: "refs_ok s \<Longrightarrow> g \<in> set (gos s) \<Longrightarrow> retransmits g p \<Longrightarrow> p < fresh (sstore s)"
  by (auto simp: refs_ok_def)

lemmas evo_calls =
  evo_GetBroadcaster evo_Finish evo_GetSubscriber evo_TranscodeSub
  evo_GetMasterPlaylist evo_GetNodeStatus evo_Ping
  evo_Connect evo_getMasterPlaylistWithDHT evo_updateMasterPlaylistWithDHT
  evo_broadcastDone evo_GC

lemmas evo_functions =
  evo_Unsubscribe evo_ReceivedTranscodeResponse evo_set_recv evo_take_val
  evo_insertTimeout evo_workerDone evo_directConn evo_dhtGet
  evo_SubscriberConnected evo_Connected evo_Disconnected evo_SetSignFun evo_SetVerify

lemmas evo_request_steps =
  evo_reqResponse evo_reqReturn evo_mplArrived evo_statusArrived evo_sendClose evo_dhtSend

text \<open>
  Every step of a node follows the discipline: it is a sequence of the changes that \<open>prim\<close>
  allows, and it ends with every channel that it created or took over in the hands of a goroutine
  or of the map of pings. It spreads only what the node was ready to send, what it received and
  what its client published.
\<close>

lemma step_evo:
  assumes "step env a s s'" "ready env X s" "received env a \<subseteq> X" "published env s a \<subseteq> X" "refs_ok s"
  shows "evo env X [] s [] s'"
  using assms(1)
proof (cases rule: step.cases)
  case (s_receive q x b xs)
  show ?thesis
    using evo_protocolLoop [OF s_receive(2) _ _ evo.refl] assms(2,3) s_receive(1) by (simp add: ready_def)
next
  case (s_Broadcast p n d)
  then show ?thesis using evo_Broadcast [OF evo.refl] assms(4) by simp
next
  case (s_Subscribe p e)
  then show ?thesis using evo_Subscribe [OF _ _ evo.refl] by simp
next
  case (s_UpdateMasterPlaylist k m e)
  show ?thesis
    by (rule evo_UpdateMasterPlaylist [OF s_UpdateMasterPlaylist(2) _ evo.refl])
      (use assms(4) s_UpdateMasterPlaylist(1) in simp)
next
  case (s_SendTranscodeResponse k k' r e)
  show ?thesis
    by (rule evo_SendTranscodeResponse [OF s_SendTranscodeResponse(2) _ evo.refl])
      (use assms(4) s_SendTranscodeResponse(1) in simp)
next
  case (s_broadcastSegment p c)
  then show ?thesis using evo_broadcastSegment [OF _ _ evo.refl] assms(2) by (simp add: ready_def)
next
  case (s_insertStart p d)
  then show ?thesis using evo_insertStart [OF _ evo.refl] by simp
next
  case (s_workerData p c ws d)
  then show ?thesis using evo_workerData [OF _ evo.refl] by simp
next
  case (s_retransmitSend p c ts)
  then show ?thesis using evo_retransmitSend [OF _ _ evo.refl] refs_okD [OF assms(5)] by simp
next
  case (s_retransmitTimer p c ts)
  then show ?thesis using evo_retransmit(1) [OF _ evo.refl] by simp
next
  case (s_retransmitStop p c ts)
  then show ?thesis using evo_retransmit(2) [OF _ evo.refl] by simp
next
  case (s_reqStart c rc k n m)
  then show ?thesis using evo_reqStart [OF _ _ _ evo.refl] assms(2) by (fastforce simp: ready_def)
next
  case (s_reqLoop c rc k m ps)
  then show ?thesis using evo_reqLoop [OF _ _ _ evo.refl] assms(2) by (fastforce simp: ready_def)
next
  case (s_reqTimer c rc k m ps)
  then show ?thesis using evo_reqTimer [OF _ _ _ evo.refl] assms(2) by (fastforce simp: ready_def)
next
  case (s_outside n)
  then show ?thesis by (auto intro!: evo_rules)
qed (hypsubst?, (assumption | rule evo.refl evo_functions | erule evo_calls | erule (1) evo_request_steps)+)+

section \<open>Pointers\<close>

lemma new_struct_fields [simp]:
  "outStreams (snd (new_b s b)) = outStreams s" "outStreams (snd (new_s s u)) = outStreams s"
  "outStreams (snd (new_r s r)) = outStreams s"
  by (simp_all add: new_b_def new_s_def new_r_def snew_def Let_def)

lemma new_chan_eq: "new_chan s = (c, s') \<Longrightarrow>
    c = fresh (chans s) \<and> s' = s\<lparr>chans := snd (snew (chans s) \<lparr>ch_recv = False, ch_val = None, ch_closed = False\<rparr>)\<rparr>"
  by (auto simp: new_chan_def snew_def Let_def)

text \<open>
  What the maps of the node point to has been allocated, a relayer is registered under one key
  only, and a broadcaster or subscriber under its own id.
\<close>

definition pointers_ok :: "node \<Rightarrow> bool" where
  "pointers_ok s \<longleftrightarrow>
     (\<forall>k p. mget (relayers s) k = Some p \<longrightarrow> p < fresh (rstore s)) \<and>
     (\<forall>k k' p. mget (relayers s) k = Some p \<longrightarrow> mget (relayers s) k' = Some p \<longrightarrow> k = k') \<and>
     (\<forall>k p. mget (broadcasters s) k = Some p \<longrightarrow> p < fresh (bstore s) \<and> b_StrmID (get_b s p) = k) \<and>
     (\<forall>k p. mget (subscribers s) k = Some p \<longrightarrow> p < fresh (sstore s) \<and> s_StrmID (get_s s p) = k)"

lemma new_struct_stores [simp]:
  "bstore (snd (new_s s u)) = bstore s" "rstore (snd (new_s s u)) = rstore s"
  "sstore (snd (new_b s b)) = sstore s" "rstore (snd (new_b s b)) = rstore s"
  "subscribers (snd (new_b s b)) = subscribers s" "relayers (snd (new_b s b)) = relayers s"
  "broadcasters (snd (new_s s u)) = broadcasters s" "relayers (snd (new_s s u)) = relayers s"
  "get_s (snd (new_b s b)) p = get_s s p" "get_r (snd (new_b s b)) p = get_r s p"
  "get_b (snd (new_s s u)) p = get_b s p" "get_r (snd (new_s s u)) p = get_r s p"
  "gos (snd (new_b s b)) = gos s" "gos (snd (new_s s u)) = gos s"
  by (simp_all add: new_b_def new_s_def snew_def Let_def get_s_def get_r_def get_b_def)

lemma ends_stores [simp]:
  "rstore (ends g s) = rstore s" "bstore (ends g s) = bstore s" "sstore (ends g s) = sstore s"
  by (simp_all add: ends_def)

lemma pointers_prim:
  assumes "prim env X H s H' s'" "pointers_ok s"
  shows "pointers_ok s'"
  using assms
  by (cases rule: prim.cases)
    (auto simp: pointers_ok_def new_r_simps new_r_fields less_Suc_eq dest!: new_chan_eq; blast)+

lemma refs_prim:
  assumes "prim env X H s H' s'" "pointers_ok s" "refs_ok s"
  shows "refs_ok s'"
  using assms(1)
proof (cases rule: prim.cases)
  case (p_spawn g)
  have "p < fresh (sstore s)" if "retransmits g p" for p
  proof (cases g)
    case (GO_Retransmit q c ts)
    then show ?thesis
      using that p_spawn assms(2) refs_okD [OF assms(3), of "GO_RetransmitWait q c ts"] by (auto simp: pointers_ok_def)
  next
    case (GO_RetransmitWait q c ts)
    then show ?thesis using that p_spawn refs_okD [OF assms(3), of "GO_Retransmit q c ts"] by auto
  qed (use that in auto)
  then show ?thesis using p_spawn assms(3) by (auto simp: refs_ok_def)
next
  case (p_end g)
  then show ?thesis using assms(3) set_remove1_subset [of g "gos s"] by (auto simp: refs_ok_def ends_def)
next
  case (p_end_free g)
  then show ?thesis using assms(3) set_remove1_subset [of g "gos s"] by (auto simp: refs_ok_def ends_def)
qed (use assms(3) in \<open>auto simp: refs_ok_def new_r_fields less_Suc_eq dest!: new_chan_eq\<close>)

section \<open>Invariants\<close>

text \<open>
  The contract of an invariant: a new node has it and every disciplined change keeps it. Then every
  operation keeps it and every reachable state has it.
\<close>

inductive_cases primE: "prim env X H s H' s'"

lemma NewBasicVideoNetwork_new: "NewBasicVideoNetwork env me ip port = Inr s \<Longrightarrow> \<exists>a. s = new_node me a"
  by (auto simp: NewBasicVideoNetwork_def split: if_split_asm sum.split_asm)

lemma demo_new_reachable: "reachable env (new_node me None)"
  by (rule reachable.start [of env me "[]" 0]) (simp add: NewBasicVideoNetwork_def)

lemma evo_pointers: "evo env X H0 s0 H s \<Longrightarrow> pointers_ok s0 \<Longrightarrow> refs_ok s0 \<Longrightarrow> pointers_ok s \<and> refs_ok s"
  by (induction rule: evo.induct) (auto intro: pointers_prim refs_prim)

lemma reachable_pointers: "reachable env s \<Longrightarrow> pointers_ok s \<and> refs_ok s"
proof (induction rule: reachable.induct)
  case (start me ip port s)
  then show ?case by (auto dest!: NewBasicVideoNetwork_new simp: pointers_ok_def refs_ok_def)
next
  case (run s a s')
  then show ?case using step_evo [OF run(2), of UNIV] evo_pointers by simp
qed

lemmas reachable_refs = reachable_pointers [THEN conjunct2]

locale node_invariant =
  fixes inv :: "env \<Rightarrow> duty list \<Rightarrow> node \<Rightarrow> bool"
  assumes new_node_inv: "inv env [] (new_node me a)"
    and prim_inv: "prim env X H s H' s' \<Longrightarrow> inv env H s \<Longrightarrow> inv env H' s'"
begin

lemma evo_inv: "evo env X H0 s0 H s \<Longrightarrow> inv env H0 s0 \<Longrightarrow> inv env H s"
  by (induction rule: evo.induct) (auto intro: prim_inv)

lemma reachable_inv: "reachable env s \<Longrightarrow> inv env [] s"
proof (induction rule: reachable.induct)
  case (start me ip port s)
  then show ?case using NewBasicVideoNetwork_new new_node_inv by blast
next
  case (run s a s')
  have "evo env UNIV [] s [] s'"
    using step_evo [OF run(2), of UNIV] reachable_refs [OF run(1)] by simp
  then show ?case using evo_inv run(3) by blast
qed

end

end
