(* ===== verification/Invariants.thy ===== *)
theory Invariants
  imports Runs
begin

text \<open>
  The invariants of the node: interpretations of \<open>node_invariant\<close> for its streams, maps,
  pointers, windows, workers, listeners and channels.
\<close>

section \<open>Streams\<close>

definition inv_streams :: "env \<Rightarrow> duty list \<Rightarrow> node \<Rightarrow> bool" where
  "inv_streams env H s \<longleftrightarrow> (streams_reach env \<longrightarrow> streams_ok env s)"

lemma prim_streams:
  assumes "prim env X H s H' s'" "mget (outStreams s') q = Some sh"
  shows "mget (outStreams s) q = Some sh \<or> (\<exists>h. NewStream env h q = Inr sh)"
  using assms by (cases rule: prim.cases) (auto dest!: new_chan_eq)

interpretation strm: node_invariant inv_streams
proof
  show "inv_streams env H' s'" if "prim env X H s H' s'" "inv_streams env H s" for env X H s H' s'
    using that prim_streams [OF that(1)]
    unfolding inv_streams_def streams_ok_def streams_reach_def by blast
qed (simp add: inv_streams_def streams_ok_def)

text \<open>What was written to a stream had been marshalled.\<close>

definition written_ok :: "env \<Rightarrow> node \<Rightarrow> bool" where
  "written_ok env s \<longleftrightarrow> (\<forall>sh m ok. E_Flush sh m ok \<in> set (hist s) \<longrightarrow> (\<exists>b. MarshalJSON env m = Inr b))"

interpretation wrtn: node_invariant "\<lambda>env H s. written_ok env s"
proof
  show "written_ok env s'" if "prim env X H s H' s'" "written_ok env s" for env X H s H' s'
    using that
    by (cases rule: prim.cases)
      (auto simp: written_ok_def new_r_fields new_b_def new_s_def snew_def Let_def dest!: new_chan_eq; blast)+
qed (simp add: written_ok_def)

lemma sent_flushed: "(sh, m) \<in> set (sent h) \<Longrightarrow> E_Flush sh m True \<in> set h"
  by (induction h rule: sent.induct) (auto split: if_split_asm)

lemma sent_marshalled: "written_ok env s \<Longrightarrow> (p, m) \<in> set (sent_to env (hist s)) \<Longrightarrow> \<exists>b. MarshalJSON env m = Inr b"
  using sent_flushed by (fastforce simp: written_ok_def sent_to_def)

section \<open>Maps\<close>

text \<open>Every map of the node, and of the structs it shares, has one entry per key.\<close>

definition maps_ok :: "node \<Rightarrow> bool" where
  "maps_ok s \<longleftrightarrow>
     mwf (outStreams s) \<and> mwf (broadcasters s) \<and> mwf (subscribers s) \<and> mwf (relayers s) \<and>
     mwf (mplMap s) \<and> mwf (mplChans s) \<and> mwf (msgChans s) \<and> mwf (pingChs s) \<and>
     mwf (transResponseCallbacks s) \<and>
     (\<forall>p. mwf (r_listeners (get_r s p))) \<and> (\<forall>p. mwf (b_listeners (get_b s p)))"

lemma new_struct_maps [simp]:
  "pingChs (snd (new_r s r)) = pingChs s" "mplChans (snd (new_r s r)) = mplChans s"
  "transResponseCallbacks (snd (new_r s r)) = transResponseCallbacks s"
  by (simp_all add: new_r_def snew_def Let_def)

interpretation maps: node_invariant "\<lambda>env H s. maps_ok s"
proof
  show "maps_ok s'" if "prim env X H s H' s'" "maps_ok s" for env X H s H' s'
    using that
    by (elim primE)
      (auto simp: maps_ok_def new_r_simps new_r_fields ends_def new_b_def new_s_def new_chan_def snew_def
        Let_def get_r_def get_b_def sget_def sput_def log_def spawn_def put_r_def put_b_def put_s_def new_r_def)
qed (simp add: maps_ok_def new_node_def zero_relayer_def zero_broadcaster_def get_r_def get_b_def empty_store_def sget_def)

section \<open>Pointers and ids\<close>

interpretation ptrs: node_invariant "\<lambda>env H s. pointers_ok s"
proof
  show "pointers_ok s'" if "prim env X H s H' s'" "pointers_ok s" for env X H s H' s'
    using pointers_prim that .
qed (simp add: pointers_ok_def)

section \<open>Windows\<close>

definition windows_ok :: "node \<Rightarrow> bool" where
  "windows_ok s \<longleftrightarrow>
     (\<forall>p < fresh (bstore s). length (b_lastMsgs (get_b s p)) = DefaultBroadcasterBufferSize)"

interpretation wins: node_invariant "\<lambda>env H s. windows_ok s"
proof
  show "windows_ok s'" if "prim env X H s H' s'" "windows_ok s" for env X H s H' s'
    using that
    by (cases rule: prim.cases) (auto simp: windows_ok_def new_r_fields dest!: new_chan_eq)
qed (simp add: windows_ok_def)

section \<open>Workers of broadcasters\<close>

text \<open>A broadcaster has at most one worker, and none before its first segment.\<close>

fun is_worker_of :: "ptr \<Rightarrow> goroutine \<Rightarrow> bool" where
  "is_worker_of p (GO_Broadcast q c) = (q = p)"
| "is_worker_of p g = False"

definition workers_of :: "node \<Rightarrow> ptr \<Rightarrow> nat" where
  "workers_of s p = length (filter (is_worker_of p) (gos s))"

definition workers_ok :: "node \<Rightarrow> bool" where
  "workers_ok s \<longleftrightarrow>
     (\<forall>p. workers_of s p \<le> (if p < fresh (bstore s) \<and> b_working (get_b s p) then 1 else 0))"

lemma is_worker_of_worker: "\<not> is_worker g \<Longrightarrow> \<not> is_worker_of p g"
  by (cases g) auto

lemma filter_remove1_le: "length (filter P (remove1 x xs)) \<le> length (filter P xs)"
  by (induction xs) auto

lemma workers_of_put_b: "workers_of (put_b s p b) q = workers_of s q"
  by (simp add: workers_of_def)

lemma workers_of_spawn:
  "workers_of (spawn g s) p = workers_of s p + (if is_worker_of p g then 1 else 0)"
  by (simp add: workers_of_def)

lemma workers_okI:
  assumes "workers_ok s" "\<And>p. workers_of s' p \<le> workers_of s p"
    and "\<And>p. p < fresh (bstore s) \<Longrightarrow> p < fresh (bstore s') \<and> b_working (get_b s' p) = b_working (get_b s p)"
  shows "workers_ok s'"
  unfolding workers_ok_def
proof
  fix p
  show "workers_of s' p \<le> (if p < fresh (bstore s') \<and> b_working (get_b s' p) then 1 else 0)"
    using assms(1) assms(2) [of p] assms(3) [of p] unfolding workers_ok_def
    by (auto dest: spec [of _ p] split: if_split_asm)
qed

interpretation wrks: node_invariant "\<lambda>env H s. workers_ok s"
proof
  show "workers_ok s'" if "prim env X H s H' s'" "workers_ok s" for env X H s H' s'
    using that(1)
  proof (cases rule: prim.cases)
    case (p_work_b p b c)
    have "workers_of s' q \<le> (if q < fresh (bstore s') \<and> b_working (get_b s' q) then 1 else 0)" for q
      using that(2) [unfolded workers_ok_def, rule_format, of q] p_work_b
      by (auto simp: workers_of_put_b workers_of_spawn split: if_split_asm)
    then show ?thesis by (simp add: workers_ok_def)
  next
    case (p_spawn g)
    then show ?thesis
      by (intro workers_okI [OF that(2)]) (auto simp: workers_of_spawn is_worker_of_worker)
  qed (rule workers_okI [OF that(2)]; auto simp: workers_of_def filter_remove1_le new_r_fields dest!: new_chan_eq)+
qed (simp add: workers_ok_def workers_of_def)

section \<open>Listeners of relayers\<close>

text \<open>Where dialling never fails, no relayer has a nil listener.\<close>

definition inv_listeners :: "env \<Rightarrow> duty list \<Rightarrow> node \<Rightarrow> bool" where
  "inv_listeners env H s \<longleftrightarrow> (dials env \<longrightarrow> (\<forall>p. no_nil_listener (get_r s p)))"

interpretation lstn: node_invariant inv_listeners
proof
  show "inv_listeners env H' s'" if "prim env X H s H' s'" "inv_listeners env H s" for env X H s H' s'
    using that
    by (cases rule: prim.cases)
      (auto simp: inv_listeners_def new_r_simps no_nil_listener_def dest!: new_chan_eq)
qed (simp add: inv_listeners_def no_nil_listener_def)

text \<open>The key of a listener names the peer that its stream leads to.\<close>

definition keyed :: "env \<Rightarrow> (strmh \<Rightarrow> 'l) \<Rightarrow> (string, 'l) gomap \<Rightarrow> bool" where
  "keyed env f m \<longleftrightarrow> (\<forall>k sh. mget m k = Some (f sh) \<longrightarrow> k = IDHexEncode env (RemotePeer env sh))"

definition listeners_ok :: "env \<Rightarrow> node \<Rightarrow> bool" where
  "listeners_ok env s \<longleftrightarrow>
     (\<forall>p. keyed env Some (r_listeners (get_r s p))) \<and> (\<forall>p. keyed env basic_stream (b_listeners (get_b s p)))"

lemma keyed_Nil [simp]: "keyed env f []"
  by (simp add: keyed_def)

lemma keyed_aimed: "aimed env s f m m' \<Longrightarrow> streams_ok env s \<Longrightarrow> keyed env f m \<Longrightarrow> keyed env f m'"
  unfolding keyed_def aimed_def streams_ok_def by metis

lemma prim_listeners:
  assumes "prim env X H s H' s'" "streams_ok env s" "listeners_ok env s"
  shows "listeners_ok env s'"
  using assms(1)
proof (cases rule: prim.cases)
  case (p_put_r p r)
  then show ?thesis using keyed_aimed [OF p_put_r(5) assms(2)] assms(3) by (auto simp: listeners_ok_def)
next
  case (p_put_b p b)
  then show ?thesis using keyed_aimed [OF p_put_b(9) assms(2)] assms(3) by (auto simp: listeners_ok_def)
qed (use assms(3) in \<open>auto simp: listeners_ok_def new_r_simps new_r_fields dest!: new_chan_eq\<close>)

interpretation lkey: node_invariant "\<lambda>env H s. streams_reach env \<longrightarrow> streams_ok env s \<and> listeners_ok env s"
proof
  show "streams_reach env \<longrightarrow> streams_ok env s' \<and> listeners_ok env s'"
    if "prim env X H s H' s'" "streams_reach env \<longrightarrow> streams_ok env s \<and> listeners_ok env s" for env X H s H' s'
    using that(2) prim_listeners [OF that(1)] strm.prim_inv [OF that(1)] by (auto simp: inv_streams_def)
qed (simp add: listeners_ok_def streams_ok_def)

section \<open>Channels\<close>

text \<open>
  No channel has two owners, an owned channel is open, and the channel that
  \<^verbatim>\<open>msgChans\<close> holds under a key belongs to a request for this key.
\<close>

definition owned :: "duty list \<Rightarrow> node \<Rightarrow> duty list" where
  "owned H s = H @ concat (map duty (gos s)) @ map (\<lambda>c. (c, [], False)) (map snd (pingChs s))"

definition chan_ok :: "duty list \<Rightarrow> channel store \<Rightarrow> (string, ptr) gomap \<Rightarrow> bool" where
  "chan_ok D cs ms \<longleftrightarrow>
     distinct (map fst D) \<and>
     (\<forall>d \<in> set D. fst d < fresh cs \<and> \<not> ch_closed (sget cs (fst d))) \<and>
     (\<forall>k c. mget ms k = Some c \<longrightarrow> (c, k, True) \<in> set D)"

definition channels_ok :: "duty list \<Rightarrow> node \<Rightarrow> bool" where
  "channels_ok H s \<longleftrightarrow> chan_ok (owned H s) (chans s) (msgChans s)"

lemma chan_ok_mset: "mset D' = mset D \<Longrightarrow> chan_ok D cs ms \<Longrightarrow> chan_ok D' cs ms"
proof -
  assume m: "mset D' = mset D"
  have "mset (map fst D') = mset (map fst D)" using m by simp
  from mset_eq_imp_distinct_iff [OF this] mset_eq_setD [OF m]
  show "chan_ok D cs ms \<Longrightarrow> chan_ok D' cs ms" by (simp add: chan_ok_def)
qed

text \<open>Dropping, creating, registering and closing a channel, on the list of duties.\<close>

lemma chan_ok_drop: "chan_ok ((c, k, False) # D) cs ms \<Longrightarrow> chan_ok D cs ms"
  by (fastforce simp: chan_ok_def)

lemma chan_ok_new:
  assumes "chan_ok D cs ms" "\<not> ch_closed ch"
  shows "chan_ok ((fresh cs, k, False) # D) (snd (snew cs ch)) ms"
  using assms by (fastforce simp: chan_ok_def snew_def sget_def)

lemma chan_ok_upd:
  "chan_ok D cs ms \<Longrightarrow> ch_closed ch = ch_closed (sget cs c) \<Longrightarrow> chan_ok D (sput cs c ch) ms"
  by (auto simp: chan_ok_def)

lemma chan_ok_reg:
  assumes "chan_ok ((c, k, False) # D) cs ms"
  shows "chan_ok ((c, k, True) # D) cs (mput ms k c)"
  using assms unfolding chan_ok_def by (auto split: if_split_asm)

lemma chan_ok_close_msg:
  assumes "chan_ok ((c, k, True) # D) cs ms" "ch_closed ch"
  shows "chan_ok D (sput cs c ch) (mdel ms k)"
proof -
  have c: "fst d \<noteq> c" if "d \<in> set D" for d
    using assms(1) that by (auto simp: chan_ok_def)
  then show ?thesis
    using assms(1) unfolding chan_ok_def by (auto split: if_split_asm)
qed

lemma chan_ok_close:
  assumes "chan_ok ((c, k, False) # D) cs ms"
  shows "chan_ok D (sput cs c ch) ms"
proof -
  have c: "fst d \<noteq> c" if "d \<in> set D" for d
    using assms(1) that by (auto simp: chan_ok_def)
  then show ?thesis
    using assms(1) unfolding chan_ok_def by (auto split: if_split_asm)
qed

lemma mset_duties_remove1:
  "g \<in> set gs \<Longrightarrow> mset (concat (map duty gs)) = mset (duty g) + mset (concat (map duty (remove1 g gs)))"
  by (induction gs) auto

lemma mset_duties_free: "duty g = [] \<Longrightarrow> mset (concat (map duty (remove1 g gs))) = mset (concat (map duty gs))"
  by (induction gs) auto

text \<open>The pings: what a put replaces or a delete removes.\<close>

lemma pings_put: "mset (map snd (mput m k c)) \<subseteq># add_mset c (mset (map snd m))"
proof (induction m)
  case (Cons e m)
  then show ?case by (cases e) (auto simp: mput_def intro: subset_mset.order_trans)
qed simp

lemma pings_del: "mget m k = Some c \<Longrightarrow> add_mset c (mset (map snd (mdel m k))) \<subseteq># mset (map snd m)"
proof (induction m)
  case (Cons e m)
  show ?case
  proof (cases "fst e = k")
    case True
    have "mset (map snd (mdel m k)) \<subseteq># mset (map snd m)"
      by (simp add: mdel_def AList.delete_eq image_mset_subseteq_mono)
    with True Cons.prems show ?thesis by (cases e) (simp add: mdel_def)
  next
    case False
    with Cons show ?thesis by (cases e) (simp add: mdel_def add_mset_commute)
  qed
qed simp

lemma chan_ok_drops: "chan_ok (map (\<lambda>v. (v, [], False)) X @ D) cs ms \<Longrightarrow> chan_ok D cs ms"
  by (induction X) (auto dest: chan_ok_drop)

lemma chan_ok_subset:
  assumes "mset Y \<subseteq># mset X" "chan_ok (D @ map (\<lambda>v. (v, [], False)) X) cs ms"
  shows "chan_ok (D @ map (\<lambda>v. (v, [], False)) Y) cs ms"
proof -
  obtain Z where Z: "mset X = mset Y + mset Z"
    using assms(1) by (metis ex_mset mset_subset_eq_exists_conv)
  have "chan_ok (map (\<lambda>v. (v, [], False)) Z @ D @ map (\<lambda>v. (v, [], False)) Y) cs ms"
    using assms(2) by (rule chan_ok_mset [rotated]) (simp add: Z)
  then show ?thesis by (rule chan_ok_drops)
qed

lemma channels_cong:
  "gos s' = gos s \<Longrightarrow> pingChs s' = pingChs s \<Longrightarrow> chans s' = chans s \<Longrightarrow> msgChans s' = msgChans s \<Longrightarrow>
     channels_ok H s \<Longrightarrow> channels_ok H s'"
  by (simp add: channels_ok_def owned_def)

lemma new_struct_chans [simp]:
  "chans (snd (new_r s r)) = chans s" "chans (snd (new_b s b)) = chans s" "chans (snd (new_s s u)) = chans s"
  "msgChans (snd (new_b s b)) = msgChans s" "msgChans (snd (new_s s u)) = msgChans s"
  "pingChs (snd (new_b s b)) = pingChs s" "pingChs (snd (new_s s u)) = pingChs s"
  "chans (put_r s p r) = chans s" "chans (put_b s p b) = chans s" "chans (put_s s p u) = chans s"
  "pingChs (put_r s p r) = pingChs s" "pingChs (put_b s p b) = pingChs s" "pingChs (put_s s p u) = pingChs s"
  "msgChans (put_s s p u) = msgChans s" "pingChs (spawn g s) = pingChs s" "pingChs (ends g s) = pingChs s"
  by (simp_all add: new_r_def new_b_def new_s_def snew_def Let_def put_r_def put_b_def put_s_def spawn_def ends_def)

lemmas channels_defs = channels_ok_def owned_def

interpretation chns: node_invariant "\<lambda>env. channels_ok"
proof
  show "channels_ok H' s'" if "prim env X H s H' s'" "channels_ok H s" for env X H s H' s'
    using that(1)
  proof (cases rule: prim.cases)
    case (p_spawn g)
    show ?thesis
      using that(2) p_spawn by (auto simp: channels_defs elim!: chan_ok_mset [rotated])
  next
    case (p_end g)
    show ?thesis
      using that(2) p_end mset_duties_remove1 [of g "gos s"]
      by (auto simp: channels_defs elim!: chan_ok_mset [rotated])
  next
    case (p_end_free g)
    show ?thesis
      using that(2) p_end_free mset_duties_free [of g "gos s"]
      by (auto simp: channels_defs elim!: chan_ok_mset [rotated])
  next
    case (p_drop c)
    then show ?thesis using that(2) by (auto simp: channels_defs dest: chan_ok_drop)
  next
    case (p_swap d1 d2 H1)
    show ?thesis
      using that(2) p_swap by (auto simp: channels_defs elim!: chan_ok_mset [rotated])
  next
    case (p_work_b p b c)
    then show ?thesis using that(2) by (simp add: channels_defs)
  next
    case (p_new_chan c)
    then show ?thesis
      using that(2) chan_ok_new [of "owned H s" "chans s" "msgChans s"]
      by (auto simp: channels_defs dest!: new_chan_eq)
  next
    case (p_chan cs c ch)
    then show ?thesis using that(2) by (auto simp: channels_defs intro: chan_ok_upd)
  next
    case (p_reg_msg m k c H1)
    then show ?thesis using that(2) by (auto simp: channels_defs intro: chan_ok_reg)
  next
    case (p_close_msg m k cs c)
    then show ?thesis using that(2) by (auto simp: channels_defs intro: chan_ok_close_msg)
  next
    case (p_close cs c)
    then show ?thesis using that(2) by (auto simp: channels_defs intro: chan_ok_close)
  next
    case (p_reg_ping m k c)
    have "chan_ok ((H' @ concat (map duty (gos s))) @ map (\<lambda>c. (c, [], False)) (c # map snd (pingChs s))) (chans s) (msgChans s)"
      using that(2) p_reg_ping by (auto simp: channels_defs elim!: chan_ok_mset [rotated])
    from chan_ok_subset [OF _ this, of "map snd m"] show ?thesis
      using pings_put [of "pingChs s" k c] p_reg_ping by (simp add: channels_defs)
  next
    case (p_close_ping k c m cs)
    have "chan_ok ((H @ concat (map duty (gos s))) @ map (\<lambda>c. (c, [], False)) (map snd (pingChs s))) (chans s) (msgChans s)"
      using that(2) by (simp add: channels_defs)
    moreover have "mset (c # map snd m) \<subseteq># mset (map snd (pingChs s))"
      using pings_del [of "pingChs s" k c] p_close_ping by simp
    ultimately have "chan_ok ((H @ concat (map duty (gos s))) @ map (\<lambda>c. (c, [], False)) (c # map snd m)) (chans s) (msgChans s)"
      by (rule chan_ok_subset [rotated])
    then have "chan_ok ((c, [], False) # (H @ concat (map duty (gos s))) @ map (\<lambda>c. (c, [], False)) (map snd m)) (chans s) (msgChans s)"
      by (rule chan_ok_mset [rotated]) simp
    from chan_ok_close [OF this] show ?thesis
      using p_close_ping by (simp add: channels_defs)
  qed (hypsubst, rule channels_cong [OF _ _ _ _ that(2)]; simp add: new_r_fields)+
qed (simp add: channels_defs chan_ok_def)

end
