(* ===== verification/Audience.thy ===== *)
theory Audience
  imports Invariants
begin

text \<open>
  What the relayers of a node are for, as an abstract specification: a table that gives, for each
  key (a stream, a playlist or a node status that is relayed), the set of peers it is relayed to.
  A message may change the entry of its own key only, and only in the way its kind allows. The
  handlers refine this: \<open>audience\<close> abstracts from streams, pointers, upstream peers and counters.
\<close>

section \<open>The specification\<close>

type_synonym tables = "string \<Rightarrow> string set option"

definition joins :: "string \<Rightarrow> string set \<Rightarrow> tables \<Rightarrow> tables \<Rightarrow> bool" where
  "joins k Q A A' \<longleftrightarrow>
     A' = A \<or> (\<exists>q \<in> Q. A' = A(k \<mapsto> insert q (case A k of None \<Rightarrow> {} | Some M \<Rightarrow> M)))"

definition leaves :: "string \<Rightarrow> string \<Rightarrow> tables \<Rightarrow> tables \<Rightarrow> bool" where
  "leaves k q A A' \<longleftrightarrow>
     A' = A \<or> (\<exists>M. A k = Some M \<and> (A' = A(k \<mapsto> M - {q}) \<or> M - {q} = {} \<and> A' = A(k := None)))"

definition shrinks :: "string \<Rightarrow> tables \<Rightarrow> tables \<Rightarrow> bool" where
  "shrinks k A A' \<longleftrightarrow> A' = A \<or> (\<exists>M M'. A k = Some M \<and> M' \<subseteq> M \<and> A' = A(k \<mapsto> M'))"

text \<open>What a message from the peer with the given id may do to the tables.\<close>

fun spec_message :: "env \<Rightarrow> string \<Rightarrow> gdata \<Rightarrow> tables \<Rightarrow> tables \<Rightarrow> bool" where
  "spec_message env q (D_SubReq m) = joins (relayerMapKey (sr_StrmID m) SubReqID) {q}"
| "spec_message env q (D_TranscodeSub m) =
     joins (relayerMapKey (ts_StrmID m) SubReqID) {q, IDHexEncode env (ts_NodeID m)}"
| "spec_message env q (D_CancelSub m) = leaves (relayerMapKey (cs_StrmID m) SubReqID) q"
| "spec_message env q (D_StreamData m) = shrinks (relayerMapKey (sd_StrmID m) SubReqID)"
| "spec_message env q (D_FinishStream m) =
     (\<lambda>A A'. A' = A \<or> A' = A(relayerMapKey (fs_StrmID m) SubReqID := None))"
| "spec_message env q (D_GetMasterPlaylistReq m) =
     joins (relayerMapKey (mr_ManifestID m) GetMasterPlaylistReqID) {q}"
| "spec_message env q (D_MasterPlaylistData m) = shrinks (relayerMapKey (md_ManifestID m) GetMasterPlaylistReqID)"
| "spec_message env q (D_NodeStatusReq m) = joins (relayerMapKey (nr_NodeID m) NodeStatusReqID) {q}"
| "spec_message env q (D_NodeStatusData m) = shrinks (relayerMapKey (nd_NodeID m) NodeStatusReqID)"
| "spec_message env q _ = (\<lambda>A A'. A' = A)"

section \<open>The abstraction\<close>

definition audience :: "node \<Rightarrow> tables" where
  "audience s k = map_option (\<lambda>p. set (mkeys (r_listeners (get_r s p)))) (mget (relayers s) k)"

lemma audience_cong: "relayers s' = relayers s \<Longrightarrow> rstore s' = rstore s \<Longrightarrow> audience s' = audience s"
  by (rule ext) (simp add: audience_def get_r_def)

lemma audience_io: "io_frame s s' \<Longrightarrow> audience s' = audience s"
  by (rule audience_cong) (simp_all add: io_frameD)

lemma audience_simps [simp]:
  "audience (log e s) = audience s" "audience (spawn g s) = audience s" "audience (put_b s p b) = audience s"
  "audience (put_s s p u) = audience s" "audience (count_msg op s) = audience s"
  "audience (s\<lparr>subscribers := m\<rparr>) = audience s" "audience (s\<lparr>chans := cs\<rparr>) = audience s"
  "audience (s\<lparr>pingChs := pc\<rparr>) = audience s" "audience (s\<lparr>ctxs := cx\<rparr>) = audience s"
  by (rule audience_cong; simp add: count_msg_def)+

lemmas audience_streams =
  audience_io [OF GetOutStream_frame] audience_io [OF retry_frame] audience_io [OF SendMessage_frame]

lemma audience_Some: "mget (relayers s) k = Some p \<Longrightarrow> audience s k = Some (set (mkeys (r_listeners (get_r s p))))"
  by (simp add: audience_def)

lemma apart: "pointers_ok s \<Longrightarrow> mget (relayers s) k = Some p \<Longrightarrow> mget (relayers s) k' = Some p \<Longrightarrow> k' = k"
  unfolding pointers_ok_def by blast

text \<open>A relayer's struct changes: only its own entry of the table does.\<close>

lemma audience_rel_frame:
  assumes "pointers_ok s" "mget (relayers s) k = Some p" "rel_frame p s s'"
  shows "audience s' = (audience s)(k \<mapsto> set (mkeys (r_listeners (get_r s' p))))"
proof
  fix k'
  note rel = rel_frameD(4) [OF assms(3)]
  show "audience s' k' = ((audience s)(k \<mapsto> set (mkeys (r_listeners (get_r s' p))))) k'"
  proof (cases "mget (relayers s) k'")
    case (Some a)
    show ?thesis
    proof (cases "k' = k")
      case False
      with apart [OF assms(1,2), of k'] Some have "a \<noteq> p" by auto
      then show ?thesis using False Some rel rel_frameD(11) [OF assms(3)] by (simp add: audience_def)
    qed (use assms(2) rel in \<open>simp add: audience_def\<close>)
  qed (use assms(2) rel in \<open>auto simp: audience_def\<close>)
qed

lemma audience_del: "audience (s\<lparr>relayers := mdel (relayers s) k\<rparr>) = (audience s)(k := None)"
  by (rule ext) (simp add: audience_def)

lemma AddListener_keys:
  "set (mkeys (r_listeners (get_r (AddListener env s p q) p))) =
     insert (IDHexEncode env q) (set (mkeys (r_listeners (get_r s p))))"
  by (auto simp: gm.keys_get AddListener_listeners)

lemma audience_AddListener:
  assumes "pointers_ok s" "mget (relayers s) k = Some p"
  shows "joins k {IDHexEncode env q} (audience s) (audience (AddListener env s p q))"
  using audience_rel_frame [OF assms AddListener_frame] audience_Some [OF assms(2)]
  by (auto simp: joins_def AddListener_keys)

lemma audience_createRelayer:
  assumes "pointers_ok s"
  shows "audience (createRelayer env s strm op up lg q) = (audience s)(relayerMapKey strm op \<mapsto> {IDHexEncode env q})"
proof -
  define k where "k = relayerMapKey strm op"
  define p where "p = fresh (rstore s)"
  define s1 where "s1 = snd (NewRelayer s strm op)"
  define s2 where "s2 = (case lg of None \<Rightarrow> set_upstream s1 p up | Some l \<Rightarrow> log (E_LogRelay strm l) (set_upstream s1 p up))"
  have s1: "relayers s1 = mput (relayers s) k p" "get_r s1 a = (if a = p then zero_relayer else get_r s a)" for a
    by (simp_all add: s1_def k_def p_def NewRelayer_eq new_r_simps)
  have rel2: "relayers s2 = mput (relayers s) k p"
    and get2: "r_listeners (get_r s2 a) = (if a = p then [] else r_listeners (get_r s a))" for a
    by (simp_all add: s2_def set_upstream_def s1 split: option.split)
  have eq: "createRelayer env s strm op up lg q = AddListener env s2 p q"
    by (simp add: createRelayer_def s2_def s1_def p_def NewRelayer_eq Let_def split: option.split)
  show ?thesis
  proof
    fix k'
    have "mget (relayers s) k' \<noteq> Some p"
      using assms by (auto simp: pointers_ok_def p_def)
    moreover have "get_r (AddListener env s2 p q) a = get_r s2 a" if "a \<noteq> p" for a
      using AddListener_rel(11) [OF that] .
    ultimately show "audience (createRelayer env s strm op up lg q) k' =
        ((audience s)(relayerMapKey strm op \<mapsto> {IDHexEncode env q})) k'"
      unfolding eq k_def [symmetric]
      by (cases "mget (relayers s) k'")
        (auto simp: audience_def AddListener_rel(4) rel2 get2 AddListener_keys)
  qed
qed

lemma joins_create:
  assumes "pointers_ok s" "audience s (relayerMapKey strm op) = None"
  shows "joins (relayerMapKey strm op) {IDHexEncode env q} (audience s) (audience (createRelayer env s strm op up lg q))"
  using assms by (auto simp: joins_def audience_createRelayer)

lemma joins_refl [simp]: "joins k Q A A" "leaves k q A A" "shrinks k A A"
  by (simp_all add: joins_def leaves_def shrinks_def)

lemma joins_mono: "joins k Q A A' \<Longrightarrow> Q \<subseteq> Q' \<Longrightarrow> joins k Q' A A'"
  unfolding joins_def by blast

section \<open>Relaying\<close>

lemma relayLoop_keys:
  "relayLoop (sendMessageWithRetry env) rmt now op d cnt p ks s = Returns s' \<Longrightarrow>
     set (mkeys (r_listeners (get_r s' p))) \<subseteq> set (mkeys (r_listeners (get_r s p)))"
proof (induction ks arbitrary: s)
  case (Cons k ks)
  show ?case
  proof (cases "mget (r_listeners (get_r s p)) k")
    case None
    then show ?thesis using Cons by simp
  next
    case (Some lo)
    with Cons.prems obtain l where l: "lo = Some l" by (cases lo) auto
    obtain e s1 where sd: "sendMessageWithRetry env s (rmt l) (Some (Basic (Some l))) op d = (e, s1)" by fastforce
    obtain r where r:
      "relayLoop (sendMessageWithRetry env) rmt now op d cnt p (k # ks) s =
         relayLoop (sendMessageWithRetry env) rmt now op d cnt p ks (put_r s1 p r)"
      "r_listeners r = (if e = None then r_listeners (get_r s p) else mdel (r_listeners (get_r s p)) k)"
      using tr.relayLoop_round [of s p k l env rmt op d e s1] Some l sd by blast
    with Cons.prems have "relayLoop (sendMessageWithRetry env) rmt now op d cnt p ks (put_r s1 p r) = Returns s'"
      by simp
    from Cons.IH [OF this] show ?thesis
      using r(2) by (auto simp: gm.keys_del split: if_split_asm)
  qed
qed simp

lemma relay_shrinks:
  assumes "relay env op d cnt s p = Returns (e, s')" "pointers_ok s" "mget (relayers s) k = Some p"
  shows "shrinks k (audience s) (audience s')"
proof -
  from assms(1) have run: "relayLoop (sendMessageWithRetry env) (RemotePeer env) (Now env) op d cnt p
      (MapRange env (hist s) (mkeys (r_listeners (get_r s p)))) s = Returns s'"
    by (auto simp: relay_def)
  show ?thesis
    using audience_rel_frame [OF assms(2,3) tr.relayLoop_frame [OF run]] relayLoop_keys [OF run]
      audience_Some [OF assms(3)] by (auto simp: shrinks_def)
qed

section \<open>Handlers\<close>

lemma audience_rest:
  "audience (RemoveStream s p) = audience s" "audience (AddListeningStream s b k os) = audience s"
  "audience (cancel_opt co s) = audience s"
  by (auto simp: RemoveStream_def AddListeningStream_def cancel_opt_def cancel_def intro!: audience_cong
      split: option.split)

lemma audience_AddListeningPeer: "audience (AddListeningPeer env s b q) = audience s"
  by (auto simp: AddListeningPeer_def Let_def audience_streams split: option.split prod.split)

lemma audience_sendDataMsg: "audience (sendDataMsg env s b k l mo) = audience s"
  by (auto simp: sendDataMsg_def sendDataMsgWith_def audience_streams split: option.split prod.split)

lemma audience_sendLastMsgs: "audience (sendLastMsgs env b q ms s) = audience s"
proof (induction ms arbitrary: s)
  case (Cons m ms)
  then show ?case
    by (cases m) (auto simp: audience_sendDataMsg audience_streams split: prod.split)
qed simp

lemma forward_io: "forward env r op d ps s = (res, s') \<Longrightarrow> io_frame s s'"
  unfolding forward_def by (rule tr.forward_frame)

lemma ptrs_io: "io_frame s s' \<Longrightarrow> pointers_ok s \<Longrightarrow> pointers_ok s'"
  by (auto simp: pointers_ok_def io_frameD io_frame_structs)

text \<open>After a request was forwarded: join the relayer that is there, or create one.\<close>

lemma join_or_create:
  assumes "pointers_ok s"
  shows "joins (relayerMapKey strm op) {IDHexEncode env q} (audience s)
    (audience (case mget (relayers s) (relayerMapKey strm op) of
       Some r \<Rightarrow> AddListener env s r q | None \<Rightarrow> createRelayer env s strm op up lg q))"
  using audience_AddListener [OF assms] joins_create [OF assms, of strm op env q up lg]
  by (cases "mget (relayers s) (relayerMapKey strm op)") (auto simp: audience_def)

lemma joins_again:
  assumes "joins k {q} A B" "joins k {q} B C"
  shows "joins k {q} A C"
  using assms by (auto simp: joins_def)

lemma handleSub_joins:
  assumes "handleSub env s op strm d q = (e, s')" "pointers_ok s"
  shows "joins (relayerMapKey strm SubReqID) {IDHexEncode env q} (audience s) (audience s')"
proof -
  define k where "k = relayerMapKey strm SubReqID"
  define hq where "hq = IDHexEncode env q"
  consider (bcast) b where "mget (broadcasters s) strm = Some b"
    | (relay) r where "mget (broadcasters s) strm = None" "mget (relayers s) k = Some r"
    | (other) "mget (broadcasters s) strm = None" "mget (relayers s) k = None"
    by fastforce
  then show ?thesis
  proof cases
    case bcast
    then show ?thesis
      using assms(1) by (auto simp: handleSub_def Let_def audience_sendLastMsgs audience_AddListeningPeer)
  next
    case relay
    then show ?thesis
      using assms audience_AddListener [OF assms(2), of k r env q] by (auto simp: handleSub_def k_def)
  next
    case other
    define s1 where "s1 = (case mget (subscribers s) strm of
        Some sp \<Rightarrow> createRelayer env s strm SubReqID (s_UpstreamPeer (get_s s sp)) (Some hq) q | None \<Rightarrow> s)"
    have j1: "joins k {hq} (audience s) (audience s1)"
      using joins_create [OF assms(2), of strm SubReqID env q] other
      by (auto simp: s1_def k_def hq_def audience_def split: option.split)
    have p1: "pointers_ok s1"
      using ptrs.evo_inv [OF evo_createRelayer [OF evo.refl] assms(2)] assms(2)
      by (auto simp: s1_def split: option.split)
    show ?thesis
    proof (cases "audience s' = audience s1")
      case True
      then show ?thesis using j1 by (simp add: k_def hq_def)
    next
      case False
      obtain ps where ps: "ClosestLocalPeers env s1 strm = Inr ps"
        and fwd: "extractNodeID env strm \<noteq> Inr (identity s1)"
        using assms(1) other False
        by (auto simp: handleSub_def k_def s1_def [symmetric, unfolded hq_def] Let_def audience_streams
            audience_io [OF retry_frame [OF prod.collapse [symmetric]]]
            split: sum.split_asm if_split_asm prod.split_asm option.split_asm)
      obtain res s2 where f: "forward env q op d ps s1 = (res, s2)" by fastforce
      have a2: "audience s2 = audience s1" by (rule audience_io [OF forward_io [OF f]])
      have p2: "pointers_ok s2" by (rule ptrs_io [OF forward_io [OF f] p1])
      obtain p where s': "s' = (case mget (relayers s2) k of
          Some r \<Rightarrow> AddListener env s2 r q
        | None \<Rightarrow> createRelayer env s2 strm SubReqID p (Some (IDHexEncode env p)) q)"
        using assms(1) other ps fwd f False a2
        by (auto simp: handleSub_def k_def s1_def [symmetric, unfolded hq_def] Let_def
            split: forwarded.split_asm option.split_asm)
      have "joins k {hq} (audience s1) (audience s')"
        using join_or_create [OF p2, of strm SubReqID env q p "Some (IDHexEncode env p)"]
        unfolding s' a2 [symmetric] by (simp add: k_def hq_def)
      with j1 show ?thesis unfolding k_def hq_def by (rule joins_again)
    qed
  qed
qed

lemma handleCancelSubReq_leaves:
  assumes "handleCancelSubReq env s d q = (e, s')" "pointers_ok s"
  shows "leaves (relayerMapKey (cs_StrmID d) SubReqID) (IDHexEncode env q) (audience s) (audience s')"
proof -
  define k where "k = relayerMapKey (cs_StrmID d) SubReqID"
  define hq where "hq = IDHexEncode env q"
  show ?thesis
  proof (cases "mget (broadcasters s) (cs_StrmID d) = None \<and> mget (relayers s) k \<noteq> None")
    case False
    then show ?thesis
      using assms(1) by (auto simp: handleCancelSubReq_def k_def Let_def split: option.split_asm)
  next
    case True
    then obtain r where b: "mget (broadcasters s) (cs_StrmID d) = None" and r: "mget (relayers s) k = Some r" by auto
    define s1 where "s1 = put_r s r ((get_r s r)\<lparr>r_listeners := mdel (r_listeners (get_r s r)) hq\<rparr>)"
    define M where "M = set (mkeys (r_listeners (get_r s r))) - {hq}"
    have M: "set (mkeys (r_listeners (get_r s1 r))) = M"
      by (simp add: s1_def M_def gm.keys_del)
    have A1: "audience s1 = (audience s)(k \<mapsto> M)"
      using audience_rel_frame [OF assms(2) r, of s1] rel_frame_put M by (simp add: s1_def)
    have Ak: "audience s k = Some (set (mkeys (r_listeners (get_r s r))))" by (rule audience_Some [OF r])
    have snd_retry: "audience (snd (sendMessageWithRetry env t p st op d)) = audience t" for t p st op d
      by (rule audience_io [OF retry_frame [OF prod.collapse [symmetric]]])
    have "audience s' = audience s1 \<or> M = {} \<and> audience s' = (audience s1)(k := None)"
      using assms(1) b r M
      by (auto simp: handleCancelSubReq_def Let_def k_def [symmetric] hq_def [symmetric] s1_def [symmetric]
          audience_del audience_streams snd_retry split: if_split_asm option.split_asm prod.split_asm)
    then show ?thesis
      using A1 Ak unfolding leaves_def k_def [symmetric] hq_def [symmetric] M_def by auto
  qed
qed

lemma pointers_spawn [simp]: "pointers_ok (spawn g s) = pointers_ok s"
  by (simp add: pointers_ok_def)

lemma handleStreamData_shrinks:
  assumes "handleStreamData env s q d = Returns (e, s')" "pointers_ok s"
  shows "shrinks (relayerMapKey (sd_StrmID d) SubReqID) (audience s) (audience s')"
proof -
  define s1 where "s1 = (case getSubscriber s (sd_StrmID d) of None \<Rightarrow> s | Some p \<Rightarrow> snd (InsertData s p d))"
  have s1: "audience s1 = audience s" "relayers s1 = relayers s" "pointers_ok s1 = pointers_ok s"
    by (simp_all add: s1_def InsertData_def split: option.split)
  show ?thesis
    using assms relay_shrinks [of env _ _ _ s1 _ _ s' "relayerMapKey (sd_StrmID d) SubReqID"] s1
    by (auto simp: handleStreamData_def Let_def s1_def [symmetric] relay_defs split: option.split_asm)
qed

lemma audience_Unsubscribe: "audience (Unsubscribe s p) = audience s"
  by (rule ext) (auto simp: audience_def Unsubscribe_def Let_def cancel_opt_def cancel_def split: option.split)

lemma relay_other_keys:
  assumes "relay env op d cnt s p = Returns (e, s')" "pointers_ok s" "mget (relayers s) k = Some p"
  shows "(audience s')(k := None) = (audience s)(k := None)"
  using relay_shrinks [OF assms] by (auto simp: shrinks_def)

lemma handleFinishStream_ends:
  assumes "handleFinishStream env s d = Returns (e, s')" "pointers_ok s"
  shows "audience s' = audience s \<or> audience s' = (audience s)(relayerMapKey (fs_StrmID d) SubReqID := None)"
proof -
  define k where "k = relayerMapKey (fs_StrmID d) SubReqID"
  define s1 where "s1 = (case mget (subscribers s) (fs_StrmID d) of None \<Rightarrow> s
      | Some p \<Rightarrow> (Unsubscribe s p)\<lparr>subscribers := mdel (subscribers (Unsubscribe s p)) (fs_StrmID d)\<rparr>)"
  have s1: "audience s1 = audience s" "relayers s1 = relayers s"
    by (auto simp: s1_def audience_Unsubscribe Unsubscribe_def Let_def cancel_opt_def cancel_def split: option.split)
  have p1: "pointers_ok s1"
  proof (rule ptrs.evo_inv [OF _ assms(2)])
    show "evo env UNIV [] s [] s1"
      by (auto simp: s1_def split: option.split if_split_asm intro!: evo_rules evo_Unsubscribe)
  qed
  have eq: "handleFinishStream env s d =
      (case mget (relayers s1) k of
         Some r \<Rightarrow> map_outcome (\<lambda>(_, s2). (None, log (E_RemoveRelay (fs_StrmID d)) (s2\<lparr>relayers := mdel (relayers s2) k\<rparr>)))
           (RelayFinishStream env s1 r d)
       | None \<Rightarrow> Returns (if mget (subscribers s) (fs_StrmID d) = None then Some ErrHandleMsg else None, s1))"
    by (simp add: handleFinishStream_def Let_def k_def s1_def split: option.split)
  show ?thesis
  proof (cases "mget (relayers s) k")
    case None
    then show ?thesis using assms(1) s1 by (simp add: eq)
  next
    case (Some r)
    then obtain e2 s2 where rl: "relay env FinishStreamID (D_FinishStream d) False s1 r = Returns (e2, s2)"
      and s': "s' = log (E_RemoveRelay (fs_StrmID d)) (s2\<lparr>relayers := mdel (relayers s2) k\<rparr>)"
      using assms(1) s1(2) by (auto simp: eq relay_defs)
    show ?thesis
      using relay_other_keys [OF rl p1, of k] Some s1 by (simp add: s' audience_del k_def)
  qed
qed

lemma audience_Connect: "Connect env s n as = (r, s') \<Longrightarrow> audience s' = audience s \<and> pointers_ok s' = pointers_ok s"
  by (auto simp: Connect_def connectPeerInfo_def pointers_ok_def split: sum.split_asm option.split_asm)

lemma handleTranscodeSub_joins:
  assumes "handleTranscodeSub env s q d = (e, s')" "pointers_ok s"
  shows "joins (relayerMapKey (ts_StrmID d) SubReqID) {IDHexEncode env q, IDHexEncode env (ts_NodeID d)}
    (audience s) (audience s')"
proof -
  have sub: "joins (relayerMapKey (ts_StrmID d) SubReqID) {IDHexEncode env q, IDHexEncode env (ts_NodeID d)}
      (audience t) (audience s')"
    if "handleSub env t op (ts_StrmID d) m p = (e, s')" "pointers_ok t" "p \<in> {q, ts_NodeID d}" for t op m p
    using joins_mono [OF handleSub_joins [OF that(1,2)]] that(3) by blast
  show ?thesis
    using assms
    by (auto simp: handleTranscodeSub_def handleSubReq_def Let_def
        split: if_split_asm sum.split_asm prod.split_asm option.split_asm
        dest!: sub dest: audience_Connect)
qed

lemma handleTranscodeResponse_audience:
  "handleTranscodeResponse env s q d = (e, s') \<Longrightarrow> audience s' = audience s"
  by (auto simp: handleTranscodeResponse_def audience_io [OF forward_io]
      split: option.split_asm sum.split_asm if_split_asm prod.split_asm forwarded.split_asm)

lemma reply_audience:
  "reply env s p op d = (e, s') \<Longrightarrow> audience s' = audience s"
  "as_handle_error (reply env s p op d) = (e, s') \<Longrightarrow> audience s' = audience s"
  by (auto simp: reply_def as_handle_error_def audience_streams split: prod.split_asm option.split_asm)

text \<open>A playlist or status request is answered, or passed on and its requester joins.\<close>

lemma forward_joins:
  assumes "forward env q opc m ps s = (res, t)" "pointers_ok s"
  shows "joins (relayerMapKey k op) {IDHexEncode env q} (audience s)
    (audience (case mget (relayers t) (relayerMapKey k op) of
       Some r \<Rightarrow> AddListener env t r q | None \<Rightarrow> createRelayer env t k op up lg q))"
  using join_or_create [OF ptrs_io [OF forward_io [OF assms(1)] assms(2)], of k op env q up lg]
    audience_io [OF forward_io [OF assms(1)]] by simp

lemma handleGetMasterPlaylistReq_joins:
  assumes "handleGetMasterPlaylistReq env s q d = (e, s')" "pointers_ok s"
  shows "joins (relayerMapKey (mr_ManifestID d) GetMasterPlaylistReqID) {IDHexEncode env q} (audience s) (audience s')"
  using assms(1)
  by (auto simp: handleGetMasterPlaylistReq_def Let_def audience_io [OF forward_io]
      split: option.split_asm sum.split_asm if_split_asm prod.split_asm forwarded.split_asm
      dest!: reply_audience
      dest: forward_joins [OF _ assms(2), where k = "mr_ManifestID d" and op = GetMasterPlaylistReqID])

lemma handleNodeStatusReqMsg_joins:
  assumes "handleNodeStatusReqMsg env s q d = (e, s')" "pointers_ok s"
  shows "joins (relayerMapKey (nr_NodeID d) NodeStatusReqID) {IDHexEncode env q} (audience s) (audience s')"
  using assms(1)
  by (auto simp: handleNodeStatusReqMsg_def Let_def audience_io [OF forward_io]
      split: option.split_asm sum.split_asm if_split_asm prod.split_asm forwarded.split_asm
      dest!: reply_audience
      dest: forward_joins [OF _ assms(2), where k = "nr_NodeID d" and op = NodeStatusReqID])

lemma chan_send_audience: "chan_send s c v = Returns s' \<Longrightarrow> audience s' = audience s"
  by (auto simp: chan_send_def Let_def split: if_split_asm)

lemma handleMasterPlaylistDataMsg_shrinks:
  assumes "handleMasterPlaylistDataMsg env s d = Returns (e, s')" "pointers_ok s"
  shows "shrinks (relayerMapKey (md_ManifestID d) GetMasterPlaylistReqID) (audience s) (audience s')"
  using assms
  by (auto simp: handleMasterPlaylistDataMsg_def relay_defs split: option.split_asm outcome.split_asm
      dest: chan_send_audience relay_shrinks)

lemma handleNodeStatusDataMsg_shrinks:
  assumes "handleNodeStatusDataMsg env s d = Returns (e, s')" "pointers_ok s"
  shows "shrinks (relayerMapKey (nd_NodeID d) NodeStatusReqID) (audience s) (audience s')"
  using assms
  by (auto simp: handleNodeStatusDataMsg_def relay_defs split: option.split_asm
      dest: chan_send_audience relay_shrinks)

lemma handlePing_audience: "handlePing env s q n = (e, s') \<Longrightarrow> audience s' = audience s"
  by (auto simp: handlePing_def as_handle_error_def audience_streams split: prod.split_asm option.split_asm)

lemma handlePong_audience: "handlePong s q n = Returns (e, s') \<Longrightarrow> audience s' = audience s"
  by (auto simp: handlePong_def chan_close_def Let_def split: option.split_asm outcome.split_asm if_split_asm
      dest: chan_send_audience)

lemma pointers_count [simp]: "pointers_ok (count_msg op s) = pointers_ok s"
  by (simp add: pointers_ok_def count_msg_def)

lemmas handlers_refine =
  handleSub_joins handleCancelSubReq_leaves handleStreamData_shrinks handleFinishStream_ends
  handleTranscodeSub_joins handleGetMasterPlaylistReq_joins handleMasterPlaylistDataMsg_shrinks
  handleNodeStatusReqMsg_joins handleNodeStatusDataMsg_shrinks

lemma route_refines:
  assumes "route env s q d = Returns (e, s')" "pointers_ok s"
  shows "spec_message env (IDHexEncode env q) d (audience s) (audience s')"
proof (cases d)
  case (D_SubReq m)
  then show ?thesis using assms by (auto simp: handleSubReq_def dest: handleSub_joins)
next
  case (D_StreamData m)
  then show ?thesis using assms by (auto dest: handleStreamData_shrinks)
next
  case (D_TranscodeResponse m)
  then show ?thesis using assms by (auto dest: handleTranscodeResponse_audience)
next
  case (D_Ping m)
  then show ?thesis using assms by (auto dest: handlePing_audience)
next
  case (D_Pong m)
  then show ?thesis using assms by (auto dest: handlePong_audience)
qed (use assms in \<open>auto dest: handlers_refine\<close>)

text \<open>
  C3. The handlers refine the tables of the specification: whatever a received message makes a node
  do, in any state that the node can reach, the audience of every key but the message's own stays
  as it is; a request or subscription can only add its sender (or the transcoder it names), a
  cancellation only remove its sender, data and answers only drop listeners, and the end of a
  stream only remove its entry; pings, pongs and transcode responses change no audience.
\<close>

theorem messages_refine_tables:
  assumes "reachable env s" and "ReceiveMessage env x = Inr m" and "dispatch env s q m = Returns (e, s')"
  shows "spec_message env (IDHexEncode env q) (Data m) (audience s) (audience s')"
  using assms(3) ptrs.reachable_inv [OF assms(1)]
  unfolding dispatch_route [OF ReceiveMessage_well_typed [OF assms(2)]] by (rule route_refines)

lemma messages_refine_tables_witness:
  "\<exists>x m e s'. ReceiveMessage demo_env x = Inr m \<and> dispatch demo_env (new_node pMe None) pA m = Returns (e, s') \<and>
     joins (relayerMapKey demo_strm SubReqID) {pA} (audience (new_node pMe None)) (audience s')"
proof -
  define x where "x = RxJson (char_of (unat SubReqID) # demo_strm)"
  define m where "m = \<lparr>Op = SubReqID, Data = D_SubReq \<lparr>sr_StrmID = demo_strm\<rparr>\<rparr>"
  have rx: "ReceiveMessage demo_env x = Inr m"
    by (simp add: x_def m_def ReceiveMessage_def UnmarshalJSON_def demo_jsonDecode_def unmarshal_data_def
        decode_as_def opcode_defs)
  obtain e s' where d: "dispatch demo_env (new_node pMe None) pA m = Returns (e, s')"
    by (simp add: m_def dispatch_def Let_def opcode_defs) (metis prod.collapse)
  from messages_refine_tables [OF demo_new_reachable rx d] rx d
  show ?thesis by (auto simp: m_def)
qed

end
