(* ===== verification/ChannelTypes.thy ===== *)
theory ChannelTypes
  imports Invariants
begin

text \<open>
  Every channel of a request carries answers to this request only: a playlist request is never
  handed a node status or the playlist of another manifest, nor the other way round. So the type assertions of the goroutines that wait for an
  answer cannot fail. The key that a channel belongs to is a ghost: it exists, no code reads it.
\<close>

section \<open>The typing\<close>

fun goroutine_ok :: "(ptr \<Rightarrow> string) \<Rightarrow> nat \<Rightarrow> goroutine \<Rightarrow> bool" where
  "goroutine_ok ty n (GO_MplWait c out) = (c < n \<and> (\<exists>id. ty c = msgChansKey GetMasterPlaylistReqID id))"
| "goroutine_ok ty n (GO_StatusWait c out) = (c < n \<and> (\<exists>id. ty c = msgChansKey NodeStatusReqID id))"
| "goroutine_ok ty n (GO_ReqReturn c rc k m) = answers k m"
| "goroutine_ok ty n (GO_SendClose out v) = (\<forall>m. v \<noteq> V_Msg m)"
| "goroutine_ok ty n g = True"

definition typed :: "(ptr \<Rightarrow> string) \<Rightarrow> duty list \<Rightarrow> node \<Rightarrow> bool" where
  "typed ty H s \<longleftrightarrow>
     (\<forall>d \<in> set (owned H s). ty (fst d) = fst (snd d)) \<and>
     (\<forall>g \<in> set (gos s). goroutine_ok ty (fresh (chans s)) g) \<and>
     (\<forall>c m. c < fresh (chans s) \<longrightarrow> ch_val (sget (chans s) c) = Some (V_Msg m) \<longrightarrow> answers (ty c) m)"

definition channels_typed :: "duty list \<Rightarrow> node \<Rightarrow> bool" where
  "channels_typed H s \<longleftrightarrow> channels_ok H s \<and> (\<exists>ty. typed ty H s)"

lemma typed_owned:
  assumes "typed ty H s" "(c, k, b) \<in> set (owned H s)"
  shows "ty c = k"
  using assms unfolding typed_def by (metis fst_conv snd_conv)

text \<open>What is known of a channel is true of it.\<close>

lemma known_typed:
  assumes "channels_ok H s" "typed ty H s" "known H s c k"
  shows "ty c = k" "c < fresh (chans s)"
proof -
  have "\<exists>b. (c, k, b) \<in> set (owned H s)"
  proof (cases "mget (msgChans s) k = Some c")
    case True
    then show ?thesis using assms(1) unfolding channels_ok_def chan_ok_def by blast
  next
    case False
    then show ?thesis using assms(3) by (auto simp: known_def owned_def)
  qed
  then obtain b where b: "(c, k, b) \<in> set (owned H s)" by blast
  show "ty c = k" by (rule typed_owned [OF assms(2) b])
  show "c < fresh (chans s)" using assms(1) b by (auto simp: channels_ok_def chan_ok_def)
qed

lemma typed_cong:
  "set (owned H' s') \<subseteq> set (owned H s) \<Longrightarrow> set (gos s') \<subseteq> set (gos s) \<Longrightarrow> chans s' = chans s \<Longrightarrow>
     typed ty H s \<Longrightarrow> typed ty H' s'"
  unfolding typed_def by auto

text \<open>Values change, closed flags change: the typing looks at the values only.\<close>

lemma typed_chan:
  assumes "typed ty H s" "set (owned H' s') \<subseteq> set (owned H s)" "gos s' = gos s"
    and "chans s' = sput (chans s) c ch"
    and "\<And>m. c < fresh (chans s) \<Longrightarrow> ch_val ch = Some (V_Msg m) \<Longrightarrow> answers (ty c) m"
  shows "typed ty H' s'"
  using assms unfolding typed_def by auto

lemma goroutine_ok_cong:
  "goroutine_ok ty n g \<Longrightarrow> n \<le> n' \<Longrightarrow> (\<And>c. c < n \<Longrightarrow> ty' c = ty c) \<Longrightarrow> goroutine_ok ty' n' g"
  by (cases g) fastforce+

lemma typed_new_chan:
  assumes "channels_ok H s" "typed ty H s" "new_chan s = (c, s')"
  shows "typed (ty(c := k)) ((c, k, False) # H) s'"
proof -
  note new = new_chan_eq [OF assms(3)]
  have lt: "fst d < c" if "d \<in> set (owned H s)" for d
    using assms(1) that new by (auto simp: channels_ok_def chan_ok_def)
  have "owned ((c, k, False) # H) s' = (c, k, False) # owned H s"
    using new by (simp add: owned_def)
  moreover have "\<forall>g \<in> set (gos s'). goroutine_ok (ty(c := k)) (fresh (chans s')) g"
    using assms(2) new by (auto simp: typed_def snew_def elim!: goroutine_ok_cong)
  moreover have "answers ((ty(c := k)) a) m"
    if "a < fresh (chans s')" "ch_val (sget (chans s') a) = Some (V_Msg m)" for a m
    using that assms(2) new by (auto simp: typed_def snew_def sget_def split: if_split_asm)
  ultimately show ?thesis using assms(2) lt by (fastforce simp: typed_def)
qed

text \<open>A goroutine that may be started is typed; a value that may be sent fits its channel.\<close>

lemma spawn_typed:
  assumes "channels_ok (duty g @ H) s" "typed ty (duty g @ H) s" "spawn_ok X (duty g @ H) s g"
  shows "goroutine_ok ty (fresh (chans s)) g"
proof (cases g)
  case (GO_MplWait c out)
  with assms(3) obtain id where "known (duty g @ H) s c (msgChansKey GetMasterPlaylistReqID id)" by auto
  from known_typed [OF assms(1,2) this] show ?thesis using GO_MplWait by auto
next
  case (GO_StatusWait c out)
  with assms(3) obtain id where "known (duty g @ H) s c (msgChansKey NodeStatusReqID id)" by auto
  from known_typed [OF assms(1,2) this] show ?thesis using GO_StatusWait by auto
next
  case (GO_ReqReturn c rc k m)
  then have "known (duty g @ H) s c k" by (auto simp: known_def)
  from known_typed [OF assms(1,2) this] show ?thesis
    using GO_ReqReturn assms(2,3) by (auto simp: typed_def)
qed (use assms(3) in auto)

lemma send_typed:
  assumes "channels_ok H s" "typed ty H s" "send_ok X H s c (V_Msg m)"
  shows "answers (ty c) m"
proof -
  from assms(3) consider k where "known H s c k" "answers k m"
    | c' k where "GO_ReqReturn c' c k m \<in> set (gos s)" | "GO_SendClose c (V_Msg m) \<in> set (gos s)"
    by (auto simp: send_ok_def)
  then show ?thesis
  proof cases
    case 1
    then show ?thesis using known_typed(1) [OF assms(1,2)] by blast
  next
    case 2
    then have "(c, k, False) \<in> set (owned H s)" by (force simp: owned_def)
    from typed_owned [OF assms(2) this] show ?thesis using 2 assms(2) by (force simp: typed_def)
  next
    case 3
    then show ?thesis using assms(2) by (force simp: typed_def)
  qed
qed

section \<open>The invariant\<close>

lemma owned_free: "duty g = [] \<Longrightarrow> set (concat (map duty (remove1 g gs))) = set (concat (map duty gs))"
  by (induction gs) auto

lemma prim_typed:
  assumes "prim env X H s H' s'" "channels_ok H s" "typed ty H s"
  shows "\<exists>ty'. typed ty' H' s'"
  using assms(1)
proof (cases rule: prim.cases)
  case (p_spawn g)
  then have "goroutine_ok ty (fresh (chans s)) g" using spawn_typed assms(2,3) by simp
  then have "typed ty H' s'" using assms(3) p_spawn by (auto simp: typed_def owned_def spawn_def)
  then show ?thesis by blast
next
  case (p_end g)
  have "set (owned H' s') \<subseteq> set (owned H s)"
    using p_end set_remove1_subset [of g "gos s"] by (fastforce simp: owned_def ends_def)
  then show ?thesis
    using p_end set_remove1_subset [of g "gos s"] assms(3)
    by (intro exI [of _ ty] typed_cong [OF _ _ _ assms(3)]) (simp_all add: ends_def)
next
  case (p_end_free g)
  then show ?thesis
    using assms(3) owned_free [of g "gos s"] set_remove1_subset [of g "gos s"]
    by (intro exI [of _ ty] typed_cong [OF _ _ _ assms(3)]) (simp_all add: ends_def owned_def)
next
  case (p_work_b p b c)
  then have "typed ty H' s'" using assms(3) by (auto simp: typed_def owned_def)
  then show ?thesis by blast
next
  case (p_new_chan c k)
  then show ?thesis using typed_new_chan [OF assms(2,3)] by blast
next
  case (p_chan cs c ch)
  have "answers (ty c) m" if "c < fresh (chans s)" "ch_val ch = Some (V_Msg m)" for m
    using p_chan(5) [OF that(2)] send_typed [OF assms(2,3)] that assms(3) p_chan by (auto simp: typed_def)
  then show ?thesis
    using p_chan assms(3) by (intro exI [of _ ty] typed_chan [OF assms(3)]) (auto simp: owned_def)
next
  case (p_reg_msg m k c H1)
  then have "typed ty H' s'" using assms(3) by (auto simp: typed_def owned_def)
  then show ?thesis by blast
next
  case (p_close_msg m k cs c)
  then show ?thesis
    using assms(3) by (intro exI [of _ ty] typed_chan [OF assms(3)]) (auto simp: owned_def typed_def)
next
  case (p_close cs c k)
  then show ?thesis
    using assms(3) by (intro exI [of _ ty] typed_chan [OF assms(3)]) (auto simp: owned_def typed_def)
next
  case (p_reg_ping m k c)
  then have "set (map snd m) \<subseteq> insert c (set (map snd (pingChs s)))"
    using mset_subset_eqD [OF pings_put [of "pingChs s" k c]] by auto
  then have "set (owned H' s') \<subseteq> set (owned H s)" using p_reg_ping by (auto simp: owned_def)
  then show ?thesis using p_reg_ping assms(3) by (intro exI [of _ ty] typed_cong [OF _ _ _ assms(3)]) auto
next
  case (p_close_ping k c m cs)
  then have "mset (c # map snd m) \<subseteq># mset (map snd (pingChs s))"
    using pings_del [of "pingChs s" k c] by simp
  from set_mset_mono [OF this] have "set (map snd m) \<subseteq> set (map snd (pingChs s))" by simp
  then have "set (owned H' s') \<subseteq> set (owned H s)" using p_close_ping by (auto simp: owned_def)
  then show ?thesis
    using p_close_ping assms(3) by (intro exI [of _ ty] typed_chan [OF assms(3)]) (auto simp: typed_def)
qed (rule exI [of _ ty], rule typed_cong [OF _ _ _ assms(3)]; simp add: owned_def new_r_fields; blast)+

interpretation typs: node_invariant "\<lambda>env. channels_typed"
proof
  show "channels_typed H' s'" if "prim env X H s H' s'" "channels_typed H s" for env X H s H' s'
    using that chns.prim_inv [OF that(1)] prim_typed [OF that(1)] by (auto simp: channels_typed_def)
qed (use chns.new_node_inv in \<open>auto simp: channels_typed_def typed_def owned_def new_node_def empty_store_def\<close>)

end
