(* ===== verification/Safety.thy ===== *)
theory Safety
  imports ChannelTypes
begin

text \<open>
  What the invariants give for every run of a node: its state is consistent, a message can end the
  process in one way only, and no goroutine misuses a channel.
\<close>

section \<open>Panics of the handlers\<close>

definition nil_listener :: "node \<Rightarrow> bool" where
  "nil_listener s \<longleftrightarrow>
     (\<exists>k p l. mget (relayers s) k = Some p \<and> mget (r_listeners (get_r s p)) l = Some None)"

lemma nil_listenerI:
  "mget (relayers s) k = Some p \<Longrightarrow> \<not> no_nil_listener (get_r s p) \<Longrightarrow> nil_listener s"
  by (auto simp: nil_listener_def no_nil_listener_def)

lemma relay_panics: "relay env op d cnt s p = Panics \<Longrightarrow> \<not> no_nil_listener (get_r s p)"
  unfolding relay_def map_outcome_Panics using tr.relayLoop_returns by (metis outcome.distinct(1))

lemma Unsubscribe_relayers [simp]:
  "relayers (Unsubscribe s p) = relayers s" "get_r (Unsubscribe s p) q = get_r s q"
  by (auto simp: Unsubscribe_def Let_def cancel_opt_def split: option.split)

lemma handleStreamData_panics: "handleStreamData env s q d = Panics \<Longrightarrow> nil_listener s"
  by (auto simp: handleStreamData_def Let_def relay_defs InsertData_def
      split: option.split_asm dest!: relay_panics intro: nil_listenerI)

lemma handleFinishStream_panics: "handleFinishStream env s d = Panics \<Longrightarrow> nil_listener s"
  by (auto simp: handleFinishStream_def Let_def relay_defs
      split: option.split_asm dest!: relay_panics intro: nil_listenerI)

text \<open>A channel that waits in a map of the node is open.\<close>

lemma msgChans_open: "channels_ok [] s \<Longrightarrow> mget (msgChans s) k = Some c \<Longrightarrow> \<not> ch_closed (sget (chans s) c)"
  unfolding channels_ok_def chan_ok_def by (metis fst_conv)

lemma mget_snd: "mget m k = Some c \<Longrightarrow> c \<in> set (map snd m)"
  by (force simp: mget_def dest: map_of_SomeD)

lemma pingChs_open:
  assumes "channels_ok [] s" "mget (pingChs s) k = Some c"
  shows "\<not> ch_closed (sget (chans s) c)"
proof -
  have "(c, [], False) \<in> set (owned [] s)"
    using mget_snd [OF assms(2)] by (auto simp: owned_def)
  with assms(1) show ?thesis unfolding channels_ok_def chan_ok_def by (metis fst_conv)
qed

lemma handleMasterPlaylistDataMsg_panics:
  "handleMasterPlaylistDataMsg env s d = Panics \<Longrightarrow> channels_ok [] s \<Longrightarrow> nil_listener s"
  by (auto simp: handleMasterPlaylistDataMsg_def relay_defs chan_send_def Let_def msgChans_open
      split: option.split_asm outcome.split_asm if_split_asm dest!: relay_panics intro: nil_listenerI)

lemma handleNodeStatusDataMsg_panics:
  "handleNodeStatusDataMsg env s d = Panics \<Longrightarrow> channels_ok [] s \<Longrightarrow> nil_listener s"
  by (auto simp: handleNodeStatusDataMsg_def relay_defs chan_send_def Let_def msgChans_open
      split: option.split_asm if_split_asm dest!: relay_panics intro: nil_listenerI)

lemma handlePong_panics: "handlePong s q n = Panics \<Longrightarrow> \<not> channels_ok [] s"
  by (auto simp: handlePong_def chan_send_def chan_close_def Let_def
      split: option.split_asm outcome.split_asm if_split_asm dest: pingChs_open)

lemma count_msg_simps [simp]:
  "nil_listener (count_msg op s) = nil_listener s" "channels_ok H (count_msg op s) = channels_ok H s"
  "nil_listener (log e s) = nil_listener s" "channels_ok H (log e s) = channels_ok H s"
  by (simp_all add: count_msg_def nil_listener_def channels_defs)

lemmas handler_panics =
  handleStreamData_panics handleFinishStream_panics handleMasterPlaylistDataMsg_panics
  handleNodeStatusDataMsg_panics

lemma dispatch_panics: "dispatch env s q m = Panics \<Longrightarrow> channels_ok [] s \<Longrightarrow> nil_listener s"
  by (cases "Data m")
    (auto simp: dispatch_def Let_def split: if_split_asm dest!: handler_panics dest: handlePong_panics)

lemma streamHandler_panics:
  assumes "streamHandler env s q x = Panics" "channels_ok [] s"
  shows "nil_listener s"
proof -
  from assms(1) obtain m where m: "ReceiveMessage env x = Inr m"
    by (auto simp: streamHandler_def split: sum.split_asm)
  have wt: "well_typed m" by (rule ReceiveMessage_well_typed [OF m])
  have key: "msgSentCacheKey env s0 q (Op m) (Data m) \<noteq> Panics"
    if "Op m = GetMasterPlaylistReqID \<or> Op m = MasterPlaylistDataID" for s0
    using msgSentCacheKey_eq [OF wt that] by simp
  show ?thesis
    using assms m key
    by (auto simp: streamHandler_def Let_def split: if_split_asm outcome.split_asm dest!: dispatch_panics)
qed

section \<open>Panics of the goroutines\<close>

lemma owned_open:
  assumes "channels_ok [] s" "g \<in> set (gos s)" "d \<in> set (duty g)"
  shows "\<not> ch_closed (sget (chans s) (fst d))"
proof -
  have "d \<in> set (owned [] s)" using assms(2,3) by (auto simp: owned_def)
  with assms(1) show ?thesis by (simp add: channels_ok_def chan_ok_def)
qed

text \<open>The duties of one goroutine are channels of their own.\<close>

lemma owned_apart:
  assumes "channels_ok [] s" "g \<in> set (gos s)" "duty g = [d1, d2]"
  shows "fst d1 \<noteq> fst d2"
proof -
  from assms(2) obtain gs1 gs2 where "gos s = gs1 @ g # gs2" by (auto dest: split_list)
  with assms(1,3) show ?thesis by (auto simp: channels_ok_def chan_ok_def owned_def)
qed

lemma askPeers_no_panic: "\<not> ch_closed (sget (chans s) c) \<Longrightarrow> askPeers env c rc k m ps s \<noteq> Panics"
proof (induction ps arbitrary: s)
  case (Cons p ps)
  obtain so s1 where g: "GetOutStream env s p = (so, s1)" by fastforce
  have c1: "chans s1 = chans s" using io_frameD [OF GetOutStream_frame [OF g]] by simp
  show ?case
  proof (cases so)
    case None
    then show ?thesis using Cons g by simp
  next
    case (Some sh)
    obtain e s2 where sd: "sendMessageWithRetry env s1 p (Some (Basic (Some sh))) (Op m) (Data m) = (e, s2)"
      by fastforce
    have "chans s2 = chans s" using io_frameD [OF retry_frame [OF sd]] c1 by simp
    then show ?thesis using Cons g Some sd by (cases e) simp_all
  qed
qed (simp add: reqEnd_def chan_close_def Let_def)

lemma askPeers_no_block: "askPeers env c rc k m ps s \<noteq> Blocks"
proof (induction ps arbitrary: s)
  case (Cons p ps)
  then show ?case by (auto split: prod.split option.split)
qed (simp add: reqEnd_def chan_close_def Let_def)

text \<open>An answer that waits for a client is of the kind that its goroutine asserts.\<close>

lemma mplArrived_no_panic:
  assumes "channels_typed [] s" "GO_MplWait c out \<in> set (gos s)"
  shows "mplArrived env c out s \<noteq> Some Panics"
proof -
  from assms obtain ty where ty: "typed ty [] s" and ok: "channels_ok [] s" by (auto simp: channels_typed_def)
  have "\<not> ch_closed (sget (chans s) out)" using owned_open [OF ok assms(2), of "(out, [], False)"] by simp
  moreover have "\<exists>d. Data m = D_MasterPlaylistData d" if "ch_val (sget (chans s) c) = Some (V_Msg m)" for m
    using ty assms(2) that by (force simp: typed_def answers_def)
  ultimately show ?thesis
    by (fastforce simp: mplArrived_def Let_def chan_close_def ends_def take_val_def
        split: option.split_asm chval.split_asm sum.split_asm if_split_asm)
qed

lemma statusArrived_no_panic:
  assumes "channels_typed [] s" "GO_StatusWait c out \<in> set (gos s)"
  shows "statusArrived env c out s \<noteq> Some Panics"
proof -
  from assms obtain ty where ty: "typed ty [] s" and ok: "channels_ok [] s" by (auto simp: channels_typed_def)
  have "\<not> ch_closed (sget (chans s) out)" using owned_open [OF ok assms(2), of "(out, [], False)"] by simp
  moreover have "\<exists>d. Data m = D_NodeStatusData d" if "ch_val (sget (chans s) c) = Some (V_Msg m)" for m
    using ty assms(2) that by (force simp: typed_def answers_def)
  ultimately show ?thesis
    by (fastforce simp: statusArrived_def Let_def chan_close_def ends_def take_val_def
        split: option.split_asm chval.split_asm sum.split_asm if_split_asm prod.split_asm)
qed

section \<open>Properties\<close>

text \<open>A state that a node reaches, for the witnesses: a new node has asked for a node's status.\<close>

definition demo_asked :: node where
  "demo_asked = snd (GetNodeStatus demo_env (new_node pMe None) pA)"

lemma demo_asked_reachable: "reachable demo_env demo_asked"
  unfolding demo_asked_def
  by (rule reachable.run [OF demo_new_reachable s_GetNodeStatus]) (rule prod.collapse [symmetric])

lemma demo_asked_gos:
  "\<exists>m. GO_ReqStart 2 1 (msgChansKey NodeStatusReqID pA) pA m \<in> set (gos demo_asked)"
  by (simp add: demo_asked_def GetNodeStatus_def GetNodeID_def getNodeStatusWithRelay_def
      getResponseWithRelay_def new_chan_def snew_def new_node_def empty_store_def Let_def)

text \<open>
  C4. In every state that a node can reach: each cached stream leads to the peer it is cached for
  (when the host opens streams to the peer asked for), and so does each listener of a relayer or
  broadcaster to the peer that its key names; every map has one entry per key; what the
  maps point to exists, and a broadcaster or subscriber is registered under its own id; the window
  of every broadcaster has its size; and a broadcaster has at most one worker, none before its
  first segment.
\<close>

theorem reachable_consistent:
  assumes "reachable env s" and "streams_reach env"
  shows "streams_ok env s \<and> listeners_ok env s \<and> maps_ok s \<and> pointers_ok s \<and> windows_ok s \<and> workers_ok s"
  using assms lkey.reachable_inv [OF assms(1)] maps.reachable_inv [OF assms(1)]
    ptrs.reachable_inv [OF assms(1)] wins.reachable_inv [OF assms(1)] wrks.reachable_inv [OF assms(1)]
  by simp

lemma reachable_consistent_witness:
  "streams_ok demo_env demo_asked \<and> maps_ok demo_asked \<and> gos demo_asked \<noteq> []"
  using reachable_consistent [OF demo_asked_reachable demo_streams] demo_asked_gos by auto



text \<open>
  C10. The goroutines of requests never close a channel twice, never send on a closed one and
  never fail a type assertion: in every state that a node can reach, a request that starts or asks
  its next peers always comes to its next wait or to its end, no other step of a goroutine that
  holds a channel panics, an answer that waits for a client is of the kind the client asked for,
  and the request's own channel and the one of its client are different.
\<close>

theorem requests_keep_their_channels:
  assumes "reachable env s"
  shows "(GO_ReqStart c rc k n m \<in> set (gos s) \<longrightarrow> (\<exists>s'. reqStart env c rc k n m s = Returns s'))
       \<and> (GO_ReqLoop c rc k m ps \<in> set (gos s) \<longrightarrow> (\<exists>s'. reqLoop env c rc k m ps s = Returns s') \<and> rc \<noteq> c)
       \<and> (GO_ReqReturn c rc k m \<in> set (gos s) \<longrightarrow> reqReturn c rc k m s \<noteq> Panics)
       \<and> (GO_MplWait c out \<in> set (gos s) \<longrightarrow> mplArrived env c out s \<noteq> Some Panics)
       \<and> (GO_StatusWait c out \<in> set (gos s) \<longrightarrow> statusArrived env c out s \<noteq> Some Panics)
       \<and> (GO_SendClose out v \<in> set (gos s) \<longrightarrow> sendClose out v s \<noteq> Panics)
       \<and> (GO_DHTSend c mpl \<in> set (gos s) \<longrightarrow> dhtSend c mpl s \<noteq> Panics)"
proof -
  note ty = typs.reachable_inv [OF assms]
  note ok = chns.reachable_inv [OF assms]
  have "\<exists>s'. reqStart env c rc k n m s = Returns s'" if "GO_ReqStart c rc k n m \<in> set (gos s)"
    using owned_open [OF ok that, of "(c, k, True)"]
    by (auto simp: reqStart_def reqEnd_def chan_close_def Let_def split: sum.split)
  moreover have "(\<exists>s'. reqLoop env c rc k m ps s = Returns s') \<and> rc \<noteq> c"
    if "GO_ReqLoop c rc k m ps \<in> set (gos s)"
    using owned_open [OF ok that, of "(c, k, True)"] owned_apart [OF ok that]
      askPeers_no_panic [of "ends (GO_ReqLoop c rc k m ps) s" c env rc k m ps]
      askPeers_no_block [of env c rc k m ps "ends (GO_ReqLoop c rc k m ps) s"]
    by (cases "reqLoop env c rc k m ps s") (auto simp: reqLoop_def)
  moreover have "reqReturn c rc k m s \<noteq> Panics" if "GO_ReqReturn c rc k m \<in> set (gos s)"
    using owned_open [OF ok that, of "(c, k, True)"] owned_open [OF ok that, of "(rc, k, False)"] owned_apart [OF ok that]
    by (auto simp: reqReturn_def reqEnd_def chan_send_def chan_close_def Let_def ends_def
        split: outcome.split_asm if_split_asm)
  moreover have "sendClose out v s \<noteq> Panics" if "GO_SendClose out v \<in> set (gos s)"
    using owned_open [OF ok that, of "(out, [], False)"]
    by (auto simp: sendClose_def chan_send_def chan_close_def Let_def ends_def split: outcome.split_asm if_split_asm)
  moreover have "dhtSend c mpl s \<noteq> Panics" if "GO_DHTSend c mpl \<in> set (gos s)"
    using owned_open [OF ok that, of "(c, [], False)"]
    by (auto simp: dhtSend_def chan_send_def Let_def split: if_split_asm)
  ultimately show ?thesis using mplArrived_no_panic [OF ty] statusArrived_no_panic [OF ty] by blast
qed

lemma requests_keep_their_channels_witness:
  "\<exists>m s'. reqStart demo_env 2 1 (msgChansKey NodeStatusReqID pA) pA m demo_asked = Returns s'"
  using requests_keep_their_channels [OF demo_asked_reachable] demo_asked_gos by blast

end
