(* ===== verification/EndToEnd.thy ===== *)
theory EndToEnd
  imports Audience Safety
begin

text \<open>
  Two nodes: what one sends, the other handles. The nodes have environments of their own, which
  agree on the wire formats only.
\<close>

definition same_formats :: "env \<Rightarrow> env \<Rightarrow> bool" where
  "same_formats env env' \<longleftrightarrow>
     gobDecode env' = gobDecode env \<and> jsonDecode env' = jsonDecode env \<and>
     NewMultiaddrBytes env' = NewMultiaddrBytes env \<and> IDFromBytes env' = IDFromBytes env"

lemma UnmarshalJSON_same:
  assumes "same_formats env env'"
  shows "UnmarshalJSON env' b = UnmarshalJSON env b"
proof -
  from assms have eqs: "gobDecode env' = gobDecode env" "jsonDecode env' = jsonDecode env"
    "NewMultiaddrBytes env' = NewMultiaddrBytes env" "IDFromBytes env' = IDFromBytes env"
    by (simp_all add: same_formats_def)
  have "addrs_from_bytes env' vs = addrs_from_bytes env vs" for vs
    by (induction vs) (auto simp: eqs split: sum.split)
  then have addrs: "addrs_from_bytes env' = addrs_from_bytes env" by (rule ext)
  have gob: "GobDecode env' = GobDecode env"
    unfolding fun_eq_iff GobDecode_def addrs eqs by simp
  have dec: "decode_as env' = decode_as env" unfolding fun_eq_iff decode_as_def eqs by simp
  show ?thesis
    unfolding UnmarshalJSON_def unmarshal_data_def eqs gob dec by (simp only:)
qed

text \<open>A message that left the node was marshalled.\<close>

lemma SendMessage_marshals:
  "SendMessage env s (Basic bs) op d = (None, s') \<Longrightarrow> \<exists>b. MarshalJSON env \<lparr>Op = op, Data = d\<rparr> = Inr b"
  by (auto simp: SendMessage_def BasicSendMessage_def encodeAndFlush_def Let_def
      split: option.split_asm sum.split_asm)

lemma retry_marshals:
  "sendMessageWithRetry env s p (Some (Basic bs)) op d = (None, s') \<Longrightarrow>
     \<exists>b. MarshalJSON env \<lparr>Op = op, Data = d\<rparr> = Inr b"
  by (auto simp: sendMessageWithRetry_def split: prod.split_asm option.split_asm dest: SendMessage_marshals)

lemma wire:
  assumes "same_formats envA envB" "gob_roundtrip envA" "json_roundtrip envA"
    and "well_typed m" "wire_ok envA (Data m)" "MarshalJSON envA m = Inr b"
  shows "ReceiveMessage envB (RxJson b) = Inr m"
  using unmarshal_marshal [OF assms(2-6)] UnmarshalJSON_same [OF assms(1), of b]
  by (simp add: ReceiveMessage_def)

lemma wire_arrives:
  assumes "same_formats envA envB" "gob_roundtrip envA" "json_roundtrip envA"
    and "well_typed m" "wire_ok envA (Data m)"
    and "sendMessageWithRetry envA s p (Some (Basic bs)) (Op m) (Data m) = (None, s')"
  shows "\<exists>b. MarshalJSON envA m = Inr b \<and> ReceiveMessage envB (RxJson b) = Inr m"
proof -
  have "\<lparr>Op = Op m, Data = Data m\<rparr> = m" by simp
  then obtain b where b: "MarshalJSON envA m = Inr b" using retry_marshals [OF assms(6)] by metis
  with wire [OF assms(1-5) b] show ?thesis by blast
qed

section \<open>A segment\<close>

text \<open>
  The receiving side: the bytes of a segment are handled without an error and, once its insertion
  and its worker have run, the client of the subscriber has been handed the number and the bytes of
  the segment, once.
\<close>

definition served :: "env \<Rightarrow> node \<Rightarrow> peerID \<Rightarrow> bytes \<Rightarrow> ptr \<Rightarrow> StreamDataMsg \<Rightarrow> bool" where
  "served env s q bs p sd \<longleftrightarrow>
     (\<exists>s'. streamHandler env s q (RxJson bs) = Returns (None, s')
        \<and> GO_Insert p sd \<in> set (gos s') \<and> GO_InsertWait p sd \<in> set (gos (insertStart p sd s'))
        \<and> got_data p (hist (workerData p sd (insertStart p sd s'))) =
            (sd_SeqNo sd, sd_Data sd, False) # got_data p (hist s))"

lemma segment_served:
  assumes "same_formats envA envB" and "gob_roundtrip envA" and "json_roundtrip envA"
    and "MarshalJSON envA \<lparr>Op = StreamDataID, Data = D_StreamData seg\<rparr> = Inr bs"
    and "mget (subscribers sB) (sd_StrmID seg) = Some p" and "s_working (get_s sB p)"
    and "mget (relayers sB) (relayerMapKey (sd_StrmID seg) SubReqID) = None"
  shows "served envB sB qA bs p seg"
proof -
  let ?m = "\<lparr>Op = StreamDataID, Data = D_StreamData seg\<rparr>"
  have wt: "well_typed ?m" by (simp add: well_typed_def)
  have rx: "ReceiveMessage envB (RxJson bs) = Inr ?m" by (rule wire [OF assms(1-3) wt _ assms(4)]) simp
  define sB' where "sB' = count_msg StreamDataID (spawn (GO_Insert p seg) (log (E_Recv qA) sB))"
  have "dispatch envB (log (E_Recv qA) sB) qA ?m = Returns (None, sB')"
    using assms(5,7)
    by (simp add: dispatch_route [OF wt] handleStreamData_def getSubscriber_def InsertData_def Let_def sB'_def)
  with rx have h: "streamHandler envB sB qA (RxJson bs) = Returns (None, sB')"
    by (simp add: streamHandler_def opcode_defs)
  have w: "s_working (get_s sB' p)" and g: "GO_Insert p seg \<in> set (gos sB')"
    and hist: "got_data p (hist sB') = got_data p (hist sB)"
    using assms(6) by (simp_all add: sB'_def count_msg_def)
  have "got_data p (hist (workerData p seg (insertStart p seg sB'))) =
      (sd_SeqNo seg, sd_Data seg, False) # got_data p (hist sB)"
    using w hist by (simp add: insertStart_def workerData_def Let_def cancel_opt_def cancel_def split: option.split)
  with h w g show ?thesis by (auto simp: served_def insertStart_def)
qed

text \<open>The node after a message, for the witnesses.\<close>

definition demo_handled :: "(bool \<times> rx list \<times> node) outcome \<Rightarrow> node" where
  "demo_handled r = (case r of Returns (b, xs, s) \<Rightarrow> s | _ \<Rightarrow> new_node [] None)"

section \<open>A playlist\<close>

abbreviation mpl_request :: "string \<Rightarrow> Msg" where
  "mpl_request mid \<equiv> \<lparr>Op = GetMasterPlaylistReqID, Data = D_GetMasterPlaylistReq \<lparr>mr_ManifestID = mid\<rparr>\<rparr>"

abbreviation mpl_answer :: "string \<Rightarrow> bytes \<Rightarrow> Msg" where
  "mpl_answer mid t \<equiv> \<lparr>Op = MasterPlaylistDataID,
     Data = D_MasterPlaylistData \<lparr>md_ManifestID = mid, md_MPL = t, md_NotFound = False\<rparr>\<rparr>"

text \<open>The duplicate filter of the node has not seen a message with the key of this one.\<close>

definition unseen :: "env \<Rightarrow> node \<Rightarrow> peerID \<Rightarrow> Msg \<Rightarrow> bool" where
  "unseen env s q m \<longleftrightarrow>
     (\<forall>k. msgSentCacheKey env (log (E_Recv q) s) q (Op m) (Data m) = Returns k \<longrightarrow>
          \<not> CacheHas env (E_Recv q # hist s) k)"

text \<open>
  A request waits: its channel \<open>c\<close> is registered, and the three goroutines of the request are
  receiving at three channels.
\<close>

definition request_waits :: "node \<Rightarrow> string \<Rightarrow> ptr \<Rightarrow> ptr \<Rightarrow> ptr \<Rightarrow> bool" where
  "request_waits s mid c rc out \<longleftrightarrow>
     mget (msgChans s) (msgChansKey GetMasterPlaylistReqID mid) = Some c \<and> distinct [c, rc, out] \<and>
     list_all (\<lambda>x. sget (chans s) x = \<lparr>ch_recv = True, ch_val = None, ch_closed = False\<rparr>) [c, rc, out]"

lemma unseen_dispatched:
  assumes "ReceiveMessage env x = Inr m" "Op m = GetMasterPlaylistReqID \<or> Op m = MasterPlaylistDataID"
    and "unseen env s q m"
  shows "\<exists>k. streamHandler env s q x = route env (log (E_CacheAdd k) (log (E_Recv q) s)) q (Data m)"
proof -
  note wt = ReceiveMessage_well_typed [OF assms(1)]
  from assms show ?thesis
    by (auto simp: streamHandler_def unseen_def msgSentCacheKey_eq [OF wt assms(2)] dispatch_route [OF wt])
qed

lemma reply_marshals:
  "reply env s p op d = (None, s') \<Longrightarrow> \<exists>b. MarshalJSON env \<lparr>Op = op, Data = d\<rparr> = Inr b"
  by (auto simp: reply_def split: prod.split_asm dest: retry_marshals)

text \<open>
  C9. A master playlist on its way over two nodes: when the node that has the playlist handles the
  request of another without an error, it has sent the playlist to that node exactly once; the
  bytes it wrote are received by the requesting node as the same message and handled without an
  error, and the goroutines of the request then hand the client exactly that playlist, close its
  channel and withdraw the request.
\<close>

theorem playlist_reaches_remote_client:
  assumes "same_formats envA envB" and "same_formats envB envA"
    and "gob_roundtrip envA" and "json_roundtrip envA" and "gob_roundtrip envB" and "json_roundtrip envB"
    and "MarshalJSON envB (mpl_request mid) = Inr req"
    and "mget (mplMap sA) mid = Some mpl" and "streams_ok envA sA" and "unseen envA sA qB (mpl_request mid)"
    and "streamHandler envA sA qB (RxJson req) = Returns (None, sA')"
    and "mplDecode envB (mplString envA mpl) = Inr mpl"
    and "request_waits sB mid c rc out" and "unseen envB sB qA (mpl_answer mid (mplString envA mpl))"
  shows "sent_to envA (hist sA') = (qB, mpl_answer mid (mplString envA mpl)) # sent_to envA (hist sA)
    \<and> (\<exists>b s1 s2 s3 s4 s5. MarshalJSON envA (mpl_answer mid (mplString envA mpl)) = Inr b
        \<and> streamHandler envB sB qA (RxJson b) = Returns (None, s1)
        \<and> reqResponse c rc (msgChansKey GetMasterPlaylistReqID mid) msg ps s1 = Some s2
        \<and> reqReturn c rc (msgChansKey GetMasterPlaylistReqID mid) (mpl_answer mid (mplString envA mpl)) s2 = Returns s3
        \<and> mplArrived envB rc out s3 = Some (Returns s4)
        \<and> sendClose out (V_Mpl (Some mpl)) s4 = Returns s5
        \<and> sget (chans s5) out = \<lparr>ch_recv = False, ch_val = Some (V_Mpl (Some mpl)), ch_closed = True\<rparr>
        \<and> mget (msgChans s5) (msgChansKey GetMasterPlaylistReqID mid) = None)"
proof -
  let ?req = "mpl_request mid" and ?ans = "mpl_answer mid (mplString envA mpl)"
  let ?mpld = "\<lparr>md_ManifestID = mid, md_MPL = mplString envA mpl, md_NotFound = False\<rparr>"
  have wt: "well_typed ?req" "well_typed ?ans" by (simp_all add: well_typed_def)
  have rxA: "ReceiveMessage envA (RxJson req) = Inr ?req"
    by (rule wire [OF assms(2,5,6) wt(1) _ assms(7)]) simp
  from unseen_dispatched [OF rxA _ assms(10)] obtain k
    where "streamHandler envA sA qB (RxJson req)
      = route envA (log (E_CacheAdd k) (log (E_Recv qB) sA)) qB (Data ?req)" by auto
  with assms(8,11) obtain s0 where s0: "reply envA s0 qB MasterPlaylistDataID (D_MasterPlaylistData ?mpld) = (None, sA')"
    and s0_eq: "s0 = count_msg GetMasterPlaylistReqID (log (E_CacheAdd k) (log (E_Recv qB) sA))"
    by (auto simp: handleGetMasterPlaylistReq_def count_msg_def as_handle_error_None)
  have ok: "streams_ok envA s0" and sent: "sent_to envA (hist s0) = sent_to envA (hist sA)"
    using assms(9) by (simp_all add: s0_eq count_msg_def streams_ok_def)
  have A: "sent_to envA (hist sA') = (qB, ?ans) # sent_to envA (hist sA)"
    using reply_spec(2) [OF s0 ok] sent by simp
  obtain b where b: "MarshalJSON envA ?ans = Inr b" using reply_marshals [OF s0] by blast
  have rxB: "ReceiveMessage envB (RxJson b) = Inr ?ans"
    by (rule wire [OF assms(1,3,4) wt(2) _ b]) simp
  from unseen_dispatched [OF rxB _ assms(14)] obtain k'
    where B: "streamHandler envB sB qA (RxJson b)
      = route envB (log (E_CacheAdd k') (log (E_Recv qA) sB)) qA (Data ?ans)" by auto
  define t where "t = count_msg MasterPlaylistDataID (log (E_CacheAdd k') (log (E_Recv qA) sB))"
  have t: "msgChans t = msgChans sB" "chans t = chans sB" by (simp_all add: t_def count_msg_def)
  have "streamHandler envB sB qA (RxJson b) = handleMasterPlaylistDataMsg envB t ?mpld" by (simp add: B t_def)
  moreover have "\<exists>s1 s2 s3 s4 s5. handleMasterPlaylistDataMsg envB t ?mpld = Returns (None, s1)
     \<and> reqResponse c rc (msgChansKey GetMasterPlaylistReqID mid) msg ps s1 = Some s2
     \<and> reqReturn c rc (msgChansKey GetMasterPlaylistReqID mid) ?ans s2 = Returns s3
     \<and> mplArrived envB rc out s3 = Some (Returns s4) \<and> sendClose out (V_Mpl (Some mpl)) s4 = Returns s5
     \<and> sget (chans s5) out = \<lparr>ch_recv = False, ch_val = Some (V_Mpl (Some mpl)), ch_closed = True\<rparr>
     \<and> mget (msgChans s5) (msgChansKey GetMasterPlaylistReqID mid) = None"
    using playlist_answer_reaches_client [of t ?mpld c envB mpl rc out msg ps] assms(12,13) t
    by (auto simp: request_waits_def)
  ultimately show ?thesis using A b by auto
qed

lemma demo_mpl_text: "undecimal (decimal 7) = 7"
  by code_simp

lemma playlist_reaches_remote_client_witness:
  "\<exists>(sA' :: node) (s5 :: node). sent_to demo_env (hist sA') = [(pB, mpl_answer ''m'' (decimal 7))] \<and>
     sget (chans s5) 2 = \<lparr>ch_recv = False, ch_val = Some (V_Mpl (Some (Playlist 7))), ch_closed = True\<rparr>"
proof -
  define sA where "sA = demo_node\<lparr>mplMap := [(''m'', Playlist 7)]\<rparr>"
  obtain req where req: "MarshalJSON demo_env (mpl_request ''m'') = Inr req"
    by (simp add: MarshalJSON_def marshal_data_def demo_pair_def)
  have ok: "streams_ok demo_env sA" and m: "mget (mplMap sA) ''m'' = Some (Playlist 7)"
    by (simp_all add: sA_def streams_ok_def)
  have un: "unseen demo_env sA pB (mpl_request ''m'')" "unseen demo_env demo_request pA (mpl_answer ''m'' (mplString demo_env (Playlist 7)))"
    by (simp_all add: unseen_def sA_def demo_request_def)
  have w: "request_waits demo_request ''m'' 0 1 2" by (simp add: request_waits_def demo_request_facts)
  have f: "same_formats demo_env demo_env" by (simp add: same_formats_def)
  have rx: "ReceiveMessage demo_env (RxJson req) = Inr (mpl_request ''m'')"
    by (rule wire [OF f demo_gob demo_json _ _ req]) (simp_all add: well_typed_def)
  from unseen_dispatched [OF rx _ un(1)] obtain sA' where h: "streamHandler demo_env sA pB (RxJson req) = Returns (None, sA')"
    by (auto simp: handleGetMasterPlaylistReq_def reply_def as_handle_error_def send_simps demo_pair_def
        count_msg_def sA_def decimal_no_sep demo_flag_def)
  have dec: "mplDecode demo_env (mplString demo_env (Playlist 7)) = Inr (Playlist 7)"
    by (simp add: demo_mpl_text)
  from playlist_reaches_remote_client [OF f f demo_gob demo_json demo_gob demo_json req m ok un(1) h dec w un(2)]
  show ?thesis by (auto simp: sA_def)
qed

end
