(* ===== verification/Viewers.thy ===== *)
theory Viewers
  imports EndToEnd
begin

text \<open>
  Viewers of a stream: each peer that listens is sent every segment once, and a viewer that has
  subscribed at the broadcasting node is handed what is broadcast afterwards.
\<close>

section \<open>One copy for each peer\<close>

abbreviation segment_msg :: "StreamDataMsg \<Rightarrow> Msg" where
  "segment_msg sd \<equiv> \<lparr>Op = StreamDataID, Data = D_StreamData sd\<rparr>"

text \<open>Distinct keys that name the peers of their streams are distinct peers.\<close>

lemma keyedD: "keyed env f m \<Longrightarrow> mget m k = Some (f sh) \<Longrightarrow> IDHexEncode env (RemotePeer env sh) = k"
  unfolding keyed_def by (erule allE [of _ k], erule allE [of _ sh], drule mp) (assumption, rule sym)

lemma keyed_peers:
  assumes "distinct ks" "\<And>k. k \<in> set ks \<Longrightarrow> mget m k = Some (f (h k))" "keyed env f m"
  shows "distinct (map (\<lambda>k. RemotePeer env (h k)) ks)" "IDHexEncode env ` set (map (\<lambda>k. RemotePeer env (h k)) ks) = set ks"
proof -
  have key: "IDHexEncode env (RemotePeer env (h k)) = k" if "k \<in> set ks" for k
    by (rule keyedD [OF assms(3) assms(2) [OF that]])
  show "distinct (map (\<lambda>k. RemotePeer env (h k)) ks)"
    unfolding distinct_map by (intro conjI assms(1) inj_on_inverseI [where g = "IDHexEncode env"]) (rule key)
  show "IDHexEncode env ` set (map (\<lambda>k. RemotePeer env (h k)) ks) = set ks"
    by (simp add: image_image key)
qed

text \<open>The remote peers of the listeners of a broadcaster.\<close>

fun handle_of :: "OutStream option \<Rightarrow> strmh" where
  "handle_of (Some (Basic (Some sh))) = sh"
| "handle_of l = 0"

fun is_remote :: "OutStream option \<Rightarrow> bool" where
  "is_remote (Some (Basic (Some sh))) = True"
| "is_remote l = False"

lemma remote_of_handle: "remote_of r l = (if is_remote l then [r (handle_of l)] else [])"
  by (cases l rule: is_remote.cases) auto

lemma is_remote_get: "is_remote l \<longleftrightarrow> l = Some (basic_stream (handle_of l))"
  by (cases l rule: is_remote.cases) auto

lemma concat_remote:
  "concat (map (\<lambda>k. remote_of r (m k)) ks) = map (\<lambda>k. r (handle_of (m k))) (filter (\<lambda>k. is_remote (m k)) ks)"
  by (induction ks) (auto simp: remote_of_handle)

lemma relay_peers:
  assumes "streams_ok env s" "listeners_ok env s" "maps_ok s" "range_permutes env" "no_nil_listener (get_r s p)"
  shows "\<exists>s' qs. RelayStreamData env s p sd = Returns (None, s')
      \<and> sent_to env (hist s') = map (\<lambda>q. (q, segment_msg sd)) qs @ sent_to env (hist s)
      \<and> distinct qs \<and> IDHexEncode env ` set qs = {k. mget (r_listeners (get_r s' p)) k \<noteq> None}
      \<and> rel_frame p s s'"
proof -
  let ?L = "r_listeners (get_r s p)"
  have wf: "mwf ?L" using assms(3) by (simp add: maps_ok_def)
  obtain s' ks where r: "relay env StreamDataID (D_StreamData sd) True s p = Returns (None, s')"
    and ks: "distinct ks" "set ks = {k. mget (r_listeners (get_r s' p)) k \<noteq> None}"
      "\<forall>k \<in> set ks. mget (r_listeners (get_r s' p)) k = mget ?L k"
    and st: "sent_to env (hist s') = map (\<lambda>k. (RemotePeer env (the (the (mget ?L k))), segment_msg sd)) ks @ sent_to env (hist s)"
    and fr: "rel_frame p s s'"
    using relay_result [OF assms(1,4) wf assms(5)] by blast
  have get: "mget ?L k = Some (Some (the (the (mget ?L k))))" if "k \<in> set ks" for k
  proof -
    have "mget (r_listeners (get_r s' p)) k \<noteq> None" using that ks(2) by blast
    then have "mget ?L k \<noteq> None" using bspec [OF ks(3) that] by argo
    then show ?thesis using no_nil_listenerD [OF assms(5), of k] by fastforce
  qed
  have "keyed env Some ?L" using assms(2) by (simp add: listeners_ok_def)
  note peers = keyed_peers [OF ks(1) get this]
  show ?thesis
    unfolding RelayStreamData_def
    by (intro exI [of _ s'] exI [of _ "map (\<lambda>k. RemotePeer env (the (the (mget ?L k)))) ks"] conjI
        r peers(1) trans [OF peers(2) ks(2)] fr) (simp add: st comp_def)
qed

lemma broadcast_peers:
  assumes "streams_ok env s" "listeners_ok env s" "maps_ok s" "range_permutes env"
    and "no_nil_stream (get_b s b)" "b_q (get_b s b) = msg # rest"
  shows "\<exists>s' qs. broadcastSegment env b s = Some s'
      \<and> sent_to env (hist s') = map (\<lambda>q. (q, segment_msg (stream_msg (get_b s b) msg))) qs @ sent_to env (hist s)
      \<and> distinct qs \<and> IDHexEncode env ` set qs = {k. \<exists>sh. mget (b_listeners (get_b s' b)) k = Some (basic_stream sh)}
      \<and> (\<forall>k. mget (b_listeners (get_b s' b)) k = None \<or>
             mget (b_listeners (get_b s' b)) k = mget (b_listeners (get_b s b)) k)"
proof -
  let ?L = "b_listeners (get_b s b)"
  have wf: "mwf ?L" using assms(3) by (simp add: maps_ok_def)
  obtain s' ks where r: "broadcastSegment env b s = Some s'"
    and ks: "distinct ks" "set ks = {k. mget (b_listeners (get_b s' b)) k \<noteq> None}"
      "\<forall>k \<in> set ks. mget (b_listeners (get_b s' b)) k = mget ?L k"
    and st: "sent_to env (hist s') = map (\<lambda>q. (q, segment_msg (stream_msg (get_b s b) msg)))
        (concat (map (\<lambda>k. remote_of (RemotePeer env) (mget ?L k)) ks)) @ sent_to env (hist s)"
    using broadcast_result [OF assms(1,4) wf assms(5,6)] by blast
  let ?rs = "filter (\<lambda>k. is_remote (mget ?L k)) ks"
  have get: "mget ?L k = Some (basic_stream (handle_of (mget ?L k)))" if "k \<in> set ?rs" for k
    using that is_remote_get by auto
  have "k \<in> set ?rs \<longleftrightarrow> (\<exists>sh. mget (b_listeners (get_b s' b)) k = Some (basic_stream sh))" for k
  proof (cases "k \<in> set ks")
    case True
    then show ?thesis using bspec [OF ks(3) True] is_remote_get [of "mget ?L k"] by auto
  next
    case False
    then have "mget (b_listeners (get_b s' b)) k = None" using ks(2) by blast
    then show ?thesis using False by simp
  qed
  then have rs: "distinct ?rs" "set ?rs = {k. \<exists>sh. mget (b_listeners (get_b s' b)) k = Some (basic_stream sh)}"
    using ks(1) by auto
  have same: "\<forall>k. mget (b_listeners (get_b s' b)) k = None \<or> mget (b_listeners (get_b s' b)) k = mget ?L k"
    using ks(2,3) by blast
  have "keyed env basic_stream ?L" using assms(2) by (simp add: listeners_ok_def)
  note peers = keyed_peers [OF rs(1) get this]
  show ?thesis
    by (intro exI [of _ s'] exI [of _ "map (\<lambda>k. RemotePeer env (handle_of (mget ?L k))) ?rs"] conjI
        r peers(1) trans [OF peers(2) rs(2)] same) (simp add: st concat_remote comp_def)
qed

lemma ex_peers: "\<exists>s' qs. P s' qs \<and> Q s' qs \<and> R s' qs \<and> T s' qs \<and> U s' qs \<Longrightarrow> \<exists>s' qs. P s' qs \<and> Q s' qs \<and> R s' qs \<and> T s' qs"
  by (elim ex_forward conjE) (intro conjI)

lemma reachable_tables:
  assumes "reachable env s" "streams_reach env"
  shows "streams_ok env s" "listeners_ok env s" "maps_ok s"
  using lkey.reachable_inv [OF assms(1)] maps.reachable_inv [OF assms(1)] assms(2) by auto

text \<open>
  C8. In every state that a node can reach, when the host opens streams to the peer asked for: a
  segment that is relayed leaves once for each peer that remains a listener of the relayer, and
  the keys of the table are exactly these peers; a segment that the worker of a broadcaster takes
  leaves once for each peer that remains a remote listener of the broadcaster. No peer is sent two
  copies, and nobody else is sent one.
\<close>

theorem one_copy_for_each_peer:
  assumes "reachable env s" and "streams_reach env" and "range_permutes env"
  shows "(no_nil_listener (get_r s p) \<longrightarrow>
           (\<exists>s' qs. RelayStreamData env s p sd = Returns (None, s')
              \<and> sent_to env (hist s') = map (\<lambda>q. (q, segment_msg sd)) qs @ sent_to env (hist s)
              \<and> distinct qs \<and> IDHexEncode env ` set qs = {k. mget (r_listeners (get_r s' p)) k \<noteq> None}))
       \<and> (no_nil_stream (get_b s b) \<and> b_q (get_b s b) = msg # rest \<longrightarrow>
           (\<exists>s' qs. broadcastSegment env b s = Some s'
              \<and> sent_to env (hist s') = map (\<lambda>q. (q, segment_msg (stream_msg (get_b s b) msg))) qs @ sent_to env (hist s)
              \<and> distinct qs \<and> IDHexEncode env ` set qs = {k. \<exists>sh. mget (b_listeners (get_b s' b)) k = Some (basic_stream sh)}))"
proof -
  note t = reachable_tables [OF assms(1,2)]
  show ?thesis
    using ex_peers [OF relay_peers [OF t assms(3)]] broadcast_peers [OF t assms(3), of b msg rest] by blast
qed

abbreviation zero_segment :: "uint64 \<Rightarrow> StreamDataMsg" where
  "zero_segment n \<equiv> \<lparr>sd_SeqNo = n, sd_StrmID = demo_strm, sd_Data = ''x''\<rparr>"

text \<open>A node that was asked by peer A for a stream of peer B relays it, for the witness.\<close>

definition demo_sub_rx :: rx where "demo_sub_rx = RxJson (char_of (unat SubReqID) # demo_strm)"

lemma demo_sub_received: "ReceiveMessage demo_env demo_sub_rx = Inr \<lparr>Op = SubReqID, Data = D_SubReq \<lparr>sr_StrmID = demo_strm\<rparr>\<rparr>"
  by (simp add: demo_sub_rx_def ReceiveMessage_def UnmarshalJSON_def demo_jsonDecode_def unmarshal_data_def
      decode_as_def opcode_defs)

definition demo_relays :: node where
  "demo_relays = demo_handled (protocolLoop demo_env pA [demo_sub_rx] (new_node pMe None))"

lemma demo_relays_run:
  "protocolLoop demo_env pA [demo_sub_rx] (new_node pMe None) = Returns (True, [], demo_relays)
   \<and> relayers demo_relays = [(relayerMapKey demo_strm SubReqID, 0)]
   \<and> r_listeners (get_r demo_relays 0) = [(pA, Some 1)]"
  by (simp add: demo_relays_def demo_handled_def streamHandler_def demo_sub_received opcode_defs dispatch_route
        well_typed_def,
      simp add: handleSubReq_def handleSub_def count_msg_def Let_def send_simps new_node_def empty_store_def
        forward_def ClosestLocalPeers_def createRelayer_def NewRelayer_eq,
      simp add: AddListener_def set_upstream_def new_r_simps new_r_fields zero_relayer_def Let_def send_simps opcode_defs)

lemma demo_relays_reachable: "reachable demo_env demo_relays"
  by (rule reachable.run [OF demo_new_reachable s_receive [OF demo_relays_run [THEN conjunct1]]])

lemma one_copy_for_each_peer_witness:
  "\<exists>s' qs. RelayStreamData demo_env demo_relays 0 (zero_segment 7) = Returns (None, s') \<and> distinct qs \<and>
     sent_to demo_env (hist s') = map (\<lambda>q. (q, segment_msg (zero_segment 7))) qs @ sent_to demo_env (hist demo_relays)"
proof -
  have "no_nil_listener (get_r demo_relays 0)" using demo_relays_run by (simp add: no_nil_listener_def)
  then show ?thesis
    using one_copy_for_each_peer [OF demo_relays_reachable demo_streams demo_range, of 0 "zero_segment 7"] by blast
qed

section \<open>From the client of the broadcaster to the client of the viewer\<close>

lemma filter_one: "distinct qs \<Longrightarrow> q \<in> set qs \<Longrightarrow> filter (\<lambda>x. fst x = q) (map (\<lambda>q. (q, m)) qs) = [(q, m)]"
  by (induction qs) (auto simp: filter_empty_conv)

lemma Broadcast_fields:
  "b_listeners (get_b (Broadcast s b n d) b) = b_listeners (get_b s b)"
  "b_q (get_b (Broadcast s b n d) b) = b_q (get_b s b) @ [\<lparr>sd_SeqNo = n, sd_StrmID = [], sd_Data = d\<rparr>]"
  "b_StrmID (get_b (Broadcast s b n d) b) = b_StrmID (get_b s b)"
  "hist (Broadcast s b n d) = hist s"
  by (simp_all add: Broadcast_def Let_def startBroadcastWorker_b)
    (simp add: startBroadcastWorker_def with_cancel_def Let_def split: prod.split)

text \<open>
  A node on the way of a segment: its environment, its peer, and its state when the segment arrives.
  It relays the stream to a peer when it has a relayer with this peer among its listeners and none of
  them is nil.
\<close>

record hop =
  h_env :: env
  h_id :: peerID
  h_node :: node

definition sound_env :: "env \<Rightarrow> bool" where
  "sound_env env \<longleftrightarrow> gob_roundtrip env \<and> json_roundtrip env \<and> hex_injective env \<and> streams_reach env \<and> range_permutes env"

definition relays_for :: "hop \<Rightarrow> string \<Rightarrow> peerID \<Rightarrow> bool" where
  "relays_for h strm q \<longleftrightarrow> reachable (h_env h) (h_node h) \<and>
     (\<exists>r sh. mget (relayers (h_node h)) (relayerMapKey strm SubReqID) = Some r \<and> no_nil_listener (get_r (h_node h) r)
        \<and> mget (r_listeners (get_r (h_node h) r)) (IDHexEncode (h_env h) q) = Some (Some sh))"

definition views :: "hop \<Rightarrow> string \<Rightarrow> ptr \<Rightarrow> bool" where
  "views v strm p \<longleftrightarrow> mget (subscribers (h_node v)) strm = Some p \<and> s_working (get_s (h_node v) p)
     \<and> mget (relayers (h_node v)) (relayerMapKey strm SubReqID) = None"

text \<open>
  What becomes of the bytes of a segment that arrive at the first of some relaying nodes: each node
  handles them without an error and either has dropped the next one from its listeners, or sends
  exactly one message to it, which holds the same segment; the last one serves its client.
\<close>

definition next_peer :: "hop list \<Rightarrow> hop \<Rightarrow> peerID" where
  "next_peer hs v = h_id (hd (hs @ [v]))"

definition sends_once :: "env \<Rightarrow> node \<Rightarrow> node \<Rightarrow> peerID \<Rightarrow> Msg \<Rightarrow> bool" where
  "sends_once env s s' q m \<longleftrightarrow>
     (\<exists>ms. sent_to env (hist s') = ms @ sent_to env (hist s) \<and> filter (\<lambda>x. fst x = q) ms = [(q, m)])"

fun watched :: "StreamDataMsg \<Rightarrow> peerID \<Rightarrow> bytes \<Rightarrow> hop list \<Rightarrow> hop \<Rightarrow> ptr \<Rightarrow> bool" where
  "watched sd q0 bs [] v p = served (h_env v) (h_node v) q0 bs p sd"
| "watched sd q0 bs (h # hs) v p =
     (\<exists>s'. streamHandler (h_env h) (h_node h) q0 (RxJson bs) = Returns (None, s') \<and>
        ((\<exists>r. mget (relayers s') (relayerMapKey (sd_StrmID sd) SubReqID) = Some r \<and>
             mget (r_listeners (get_r s' r)) (IDHexEncode (h_env h) (next_peer hs v)) = None) \<or>
         sends_once (h_env h) (h_node h) s' (next_peer hs v) (segment_msg sd) \<and>
         (\<exists>bs'. MarshalJSON (h_env h) (segment_msg sd) = Inr bs' \<and> watched sd (h_id h) bs' hs v p)))"

fun route_of :: "hop list \<Rightarrow> hop \<Rightarrow> string \<Rightarrow> bool" where
  "route_of [] v strm = True"
| "route_of (h # hs) v strm = (relays_for h strm (next_peer hs v) \<and> route_of hs v strm)"

lemma relayed_once:
  assumes "ReceiveMessage env x = Inr (segment_msg sd)" and "sound_env env" and "reachable env s"
    and "mget (relayers s) (relayerMapKey (sd_StrmID sd) SubReqID) = Some r" and "no_nil_listener (get_r s r)"
  shows "\<exists>s' qs. streamHandler env s q x = Returns (None, s') \<and> reachable env s'
      \<and> sent_to env (hist s') = map (\<lambda>q. (q, segment_msg sd)) qs @ sent_to env (hist s) \<and> distinct qs
      \<and> IDHexEncode env ` set qs = {k. mget (r_listeners (get_r s' r)) k \<noteq> None}
      \<and> mget (relayers s') (relayerMapKey (sd_StrmID sd) SubReqID) = Some r"
proof -
  have wt: "well_typed (segment_msg sd)" by (simp add: well_typed_def)
  define s0 where "s0 = log (E_Recv q) s"
  define s1 where "s1 = (case getSubscriber s0 (sd_StrmID sd) of None \<Rightarrow> s0 | Some p \<Rightarrow> snd (InsertData s0 p sd))"
  have s1: "\<exists>gs. s1 = s0\<lparr>gos := gs\<rparr>"
    by (cases "getSubscriber s0 (sd_StrmID sd)")
      (auto simp: s1_def InsertData_def spawn_def intro: exI [of _ "gos s0"])
  have same: "relayers s1 = relayers s" "outStreams s1 = outStreams s" "broadcasters s1 = broadcasters s"
    "sent_to env (hist s1) = sent_to env (hist s)" "get_r s1 p = get_r s p" "get_b s1 p = get_b s p" for p
    using s1 by (auto simp: s0_def get_r_def get_b_def)
  have tabs: "streams_ok env s1" "listeners_ok env s1" "maps_ok s1"
    using reachable_tables [OF assms(3)] assms(2) s1
    by (auto simp: sound_env_def streams_ok_def listeners_ok_def maps_ok_def s0_def log_def get_r_def get_b_def)
  from relay_peers [OF tabs] obtain s2 qs where r: "RelayStreamData env s1 r sd = Returns (None, s2)"
    and st: "sent_to env (hist s2) = map (\<lambda>q. (q, segment_msg sd)) qs @ sent_to env (hist s)" "distinct qs"
      "IDHexEncode env ` set qs = {k. mget (r_listeners (get_r s2 r)) k \<noteq> None}"
    and fr: "rel_frame r s1 s2"
    using assms(2,5) unfolding same(4,5) sound_env_def by blast
  have "handleStreamData env s0 q sd = Returns (None, s2)"
    using assms(4) r same(1) unfolding handleStreamData_def Let_def s1_def [symmetric] by simp
  then have "dispatch env s0 q (segment_msg sd) = Returns (None, count_msg StreamDataID s2)"
    unfolding dispatch_route [OF wt] by simp
  then have h: "streamHandler env s q x = Returns (None, count_msg StreamDataID s2)"
    using assms(1) unfolding streamHandler_def Let_def s0_def by (simp add: opcode_defs)
  then have "protocolLoop env q [x] s = Returns (True, [], count_msg StreamDataID s2)" by simp
  then have run: "reachable env (count_msg StreamDataID s2)" by (rule reachable.run [OF assms(3) s_receive])
  show ?thesis
    by (intro exI [of _ "count_msg StreamDataID s2"] exI [of _ qs] conjI h run st(2))
      (use st(1,3) rel_frameD(4) [OF fr] same(1) assms(4) in \<open>simp_all add: count_msg_def\<close>)
qed

lemma same_formats_trans: "same_formats e e1 \<Longrightarrow> same_formats e e2 \<Longrightarrow> same_formats e1 e2"
  by (simp add: same_formats_def)

text \<open>What a reachable node has sent to a peer left as bytes.\<close>

lemma sent_bytes:
  assumes "written_ok env s'" "sends_once env s s' q m"
  obtains bs where "MarshalJSON env m = Inr bs"
proof -
  obtain ms where st: "sent_to env (hist s') = ms @ sent_to env (hist s)" "filter (\<lambda>x. fst x = q) ms = [(q, m)]"
    using assms(2) by (auto simp: sends_once_def)
  have "(q, m) \<in> set (filter (\<lambda>x. fst x = q) ms)" unfolding st(2) by simp
  then have "(q, m) \<in> set (sent_to env (hist s'))" unfolding st(1) by simp
  then show ?thesis using sent_marshalled [OF assms(1)] that by blast
qed

lemma route_watched:
  assumes "route_of hs v (sd_StrmID sd)" and "views v (sd_StrmID sd) p"
    and "\<forall>h \<in> set hs. sound_env (h_env h)" and "\<forall>h \<in> set (v # hs). same_formats env (h_env h)"
    and "gob_roundtrip env" and "json_roundtrip env" and "MarshalJSON env (segment_msg sd) = Inr bs"
  shows "watched sd q0 bs hs v p"
  using assms
proof (induction hs arbitrary: env q0 bs)
  case Nil
  then show ?case using segment_served [of env "h_env v" sd bs "h_node v" p q0] by (simp add: views_def)
next
  case (Cons h hs)
  let ?q = "next_peer hs v"
  have snd: "sound_env (h_env h)" and fm: "same_formats env (h_env h)" using Cons.prems(3,4) by simp_all
  have wt: "well_typed (segment_msg sd)" by (simp add: well_typed_def)
  have rx: "ReceiveMessage (h_env h) (RxJson bs) = Inr (segment_msg sd)"
    by (rule wire [OF fm Cons.prems(5,6) wt _ Cons.prems(7)]) simp
  from Cons.prems(1) obtain r where run: "reachable (h_env h) (h_node h)"
    and r: "mget (relayers (h_node h)) (relayerMapKey (sd_StrmID sd) SubReqID) = Some r"
      "no_nil_listener (get_r (h_node h) r)"
    by (auto simp: relays_for_def)
  from relayed_once [OF rx snd run r] obtain s' qs where s': "streamHandler (h_env h) (h_node h) q0 (RxJson bs) = Returns (None, s')"
    "reachable (h_env h) s'" "mget (relayers s') (relayerMapKey (sd_StrmID sd) SubReqID) = Some r"
    and st: "sent_to (h_env h) (hist s') = map (\<lambda>q. (q, segment_msg sd)) qs @ sent_to (h_env h) (hist (h_node h))"
    and qs: "distinct qs" "IDHexEncode (h_env h) ` set qs = {k. mget (r_listeners (get_r s' r)) k \<noteq> None}"
    by blast
  show ?case
  proof (cases "?q \<in> set qs")
    case False
    have hex: "hex_injective (h_env h)" using snd by (simp add: sound_env_def)
    have "IDHexEncode (h_env h) ?q \<noteq> IDHexEncode (h_env h) x" if "x \<in> set qs" for x
      using hex_injectiveD [OF hex, of ?q x] False that by metis
    then have "IDHexEncode (h_env h) ?q \<notin> IDHexEncode (h_env h) ` set qs" by blast
    then have "mget (r_listeners (get_r s' r)) (IDHexEncode (h_env h) ?q) = None" unfolding qs(2) by blast
    then show ?thesis unfolding watched.simps by (intro exI [of _ s'] conjI disjI1 exI [of _ r] s'(1,3))
  next
    case True
    have once: "sends_once (h_env h) (h_node h) s' ?q (segment_msg sd)"
      unfolding sends_once_def by (intro exI conjI) (rule st, rule filter_one [OF qs(1) True])
    obtain bs' where bs': "MarshalJSON (h_env h) (segment_msg sd) = Inr bs'"
      by (rule sent_bytes [OF wrtn.reachable_inv [OF s'(2)] once])
    have "\<forall>x \<in> set (v # hs). same_formats (h_env h) (h_env x)"
      using Cons.prems(4) same_formats_trans [OF fm] by auto
    then have "watched sd (h_id h) bs' hs v p"
      by (intro Cons.IH [OF _ Cons.prems(2) _ _ _ _ bs']) (use Cons.prems(1,3) snd in \<open>simp_all add: sound_env_def\<close>)
    then show ?thesis
      unfolding watched.simps by (intro exI [of _ s'] conjI disjI2 exI [of _ bs'] s'(1) bs' once)
  qed
qed

lemma broadcast_sends_once:
  assumes "sound_env env" and "reachable env s" and "mget (broadcasters s) strm = Some b"
    and "b_q (get_b s b) = []" and "no_nil_stream (get_b s b)"
    and "mget (b_listeners (get_b s b)) (IDHexEncode env q) = Some (basic_stream sh)"
    and "seg = \<lparr>sd_SeqNo = n, sd_StrmID = strm, sd_Data = dat\<rparr>"
  shows "\<exists>s'. broadcastSegment env b (Broadcast s b n dat) = Some s' \<and> written_ok env s'
     \<and> (mget (b_listeners (get_b s' b)) (IDHexEncode env q) = None \<or> sends_once env s s' q (segment_msg seg))"
proof -
  let ?s = "Broadcast s b n dat" and ?k = "IDHexEncode env q"
  have snd: "streams_reach env" "range_permutes env" "hex_injective env" using assms(1) by (simp_all add: sound_env_def)
  have ptr: "b < fresh (bstore s)" "b_StrmID (get_b s b) = strm"
    using ptrs.reachable_inv [OF assms(2)] assms(3) by (auto simp: pointers_ok_def)
  have run: "reachable env ?s" by (rule reachable.run [OF assms(2) s_Broadcast [OF ptr(1)]])
  note t = reachable_tables [OF run snd(1)]
  have q: "b_q (get_b ?s b) = [\<lparr>sd_SeqNo = n, sd_StrmID = [], sd_Data = dat\<rparr>]" and nn: "no_nil_stream (get_b ?s b)"
    using assms(4,5) by (simp_all add: Broadcast_fields no_nil_stream_def)
  have seg: "stream_msg (get_b ?s b) \<lparr>sd_SeqNo = n, sd_StrmID = [], sd_Data = dat\<rparr> = seg"
    using ptr(2) assms(7) by (simp add: stream_msg_def Broadcast_fields)
  from broadcast_peers [OF t snd(2) nn q] obtain s' qs where
    s': "broadcastSegment env b ?s = Some s'"
    and st: "sent_to env (hist s') = map (\<lambda>q. (q, segment_msg seg)) qs @ sent_to env (hist s)"
    and qs: "distinct qs" "IDHexEncode env ` set qs = {k. \<exists>sh. mget (b_listeners (get_b s' b)) k = Some (basic_stream sh)}"
    and same: "mget (b_listeners (get_b s' b)) ?k = None \<or> mget (b_listeners (get_b s' b)) ?k = Some (basic_stream sh)"
    unfolding seg Broadcast_fields(1,4) assms(6) [symmetric] by blast
  have "sends_once env s s' q (segment_msg seg)" if "mget (b_listeners (get_b s' b)) ?k \<noteq> None"
  proof -
    have "?k \<in> IDHexEncode env ` set qs" unfolding qs(2) using that same by auto
    then have "q \<in> set qs" using hex_injectiveD [OF snd(3)] by auto
    then show ?thesis unfolding sends_once_def by (intro exI conjI) (rule st, rule filter_one [OF qs(1)])
  qed
  moreover have "evo env UNIV [] ?s [] s'" by (rule evo_broadcastSegment [OF s' stock_UNIV evo.refl])
  then have "written_ok env s'" by (rule wrtn.evo_inv [OF _ wrtn.reachable_inv [OF run]])
  ultimately show ?thesis by (intro exI [of _ s'] conjI s') argo+
qed


text \<open>
  For the witness: the node of a broadcaster that peer B has subscribed to, and the node of a viewer,
  which is peer A; the relay between them is the node above.
\<close>

definition demo_source :: node where
  "demo_source = demo_handled (protocolLoop demo_env pB [demo_sub_rx]
     (snd (GetBroadcaster (new_node pMe None) demo_strm)))"

definition demo_viewer :: hop where
  "demo_viewer = \<lparr>h_env = demo_env, h_id = pA, h_node = demo_node\<lparr>subscribers := [(demo_strm, 0)],
     sstore := sput (sstore demo_node) 0 (zero_subscriber\<lparr>s_working := True\<rparr>)\<rparr>\<rparr>"

abbreviation demo_relay :: hop where
  "demo_relay \<equiv> \<lparr>h_env = demo_env, h_id = pB, h_node = demo_relays\<rparr>"

lemma demo_source_run:
  "protocolLoop demo_env pB [demo_sub_rx] (snd (GetBroadcaster (new_node pMe None) demo_strm)) = Returns (True, [], demo_source)
   \<and> broadcasters demo_source = [(demo_strm, 0)]
   \<and> b_listeners (get_b demo_source 0) = [(pB, basic_stream 2)] \<and> b_q (get_b demo_source 0) = []"
  by (simp add: demo_source_def demo_handled_def streamHandler_def demo_sub_received opcode_defs dispatch_route
        well_typed_def,
      simp add: handleSubReq_def handleSub_def count_msg_def Let_def new_node_def empty_store_def GetBroadcaster_def
        new_b_def snew_def get_b_def sget_def AddListeningPeer_def send_simps DefaultBroadcasterBufferSize_def numeral_3_eq_3,
      simp add: put_b_def sput_def)

lemma demo_source_reachable: "reachable demo_env demo_source"
proof -
  have "step demo_env A_Other (new_node pMe None) (snd (GetBroadcaster (new_node pMe None) demo_strm))"
    by (rule s_GetBroadcaster) (rule prod.collapse [symmetric])
  from reachable.run [OF reachable.run [OF demo_new_reachable this] s_receive [OF demo_source_run [THEN conjunct1]]]
  show ?thesis .
qed

lemma demo_source_keeps:
  assumes "broadcastSegment demo_env 0 (Broadcast demo_source 0 7 ''x'') = Some s'"
  shows "mget (b_listeners (get_b s' 0)) pB = Some (basic_stream 2)"
proof -
  have bar: "CHR ''|'' \<notin> set demo_strm" by (simp add: demo_strm_def)
  have "b_StrmID (get_b demo_source 0) = demo_strm"
    using ptrs.reachable_inv [OF demo_source_reachable] demo_source_run by (auto simp: pointers_ok_def)
  then show ?thesis
    using assms demo_source_run
    by (auto simp: broadcastSegment_def Broadcast_fields Let_def sendDataMsgWith_def send_simps demo_pair_def bar stream_msg_def)
qed


end
