(* ===== verification/InFlight.thy ===== *)
theory InFlight
  imports Audience
begin

text \<open>
  Subscriptions in flight: \<^verbatim>\<open>handleSub\<close> sends the request on before it makes the relayer, and
  each stream of a peer has a goroutine of its own, so subscriptions of several peers to a stream that
  the node does not know yet overlap. Here the handler is split at the send: its two halves may be
  interleaved with those of the handlers of any number of other peers.
\<close>

section \<open>The two halves of the handler\<close>

definition subSend :: "env \<Rightarrow> string \<Rightarrow> Opcode \<Rightarrow> gdata \<Rightarrow> peerID \<Rightarrow> node \<Rightarrow> (peerID \<times> node) option" where
  "subSend env strm op d q s =
     (case ClosestLocalPeers env s strm of
        Inl _ \<Rightarrow> None
      | Inr peers \<Rightarrow> (case forward env q op d peers s of (FwdSent p, s1) \<Rightarrow> Some (p, s1) | _ \<Rightarrow> None))"

definition subCreate :: "env \<Rightarrow> string \<Rightarrow> peerID \<Rightarrow> peerID \<Rightarrow> node \<Rightarrow> node" where
  "subCreate env strm q p s = createRelayer env s strm SubReqID p (Some (IDHexEncode env p)) q"

definition subJoin :: "env \<Rightarrow> string \<Rightarrow> peerID \<Rightarrow> peerID \<Rightarrow> node \<Rightarrow> node" where
  "subJoin env strm q p s =
     (case mget (relayers s) (relayerMapKey strm SubReqID) of
        Some r \<Rightarrow> AddListener env s r q
      | None \<Rightarrow> subCreate env strm q p s)"

text \<open>One after the other they are the handler.\<close>

lemma handleSub_halves:
  assumes "mget (broadcasters s) strm = None" "mget (relayers s) (relayerMapKey strm SubReqID) = None"
    and "mget (subscribers s) strm = None" "extractNodeID env strm \<noteq> Inr (identity s)"
    and "subSend env strm op d q s = Some (p, s1)"
  shows "handleSub env s op strm d q = (None, subJoin env strm q p s1)"
  using assms
  by (auto simp: handleSub_def subSend_def subJoin_def subCreate_def Let_def
      split: sum.split_asm prod.split_asm forwarded.split_asm option.split)

section \<open>Any number of handlers\<close>

text \<open>
  A run from \<open>s0\<close>: the requests that were sent on, each with its requester and the peer it went to,
  those whose second half has not run yet, and those whose second half has, oldest first.
\<close>

inductive in_flight ::
  "env \<Rightarrow> string \<Rightarrow> Opcode \<Rightarrow> gdata \<Rightarrow> node \<Rightarrow> (peerID \<times> peerID) list \<Rightarrow> (peerID \<times> peerID) list
   \<Rightarrow> (peerID \<times> peerID) list \<Rightarrow> node \<Rightarrow> bool" for env strm op d s0 where
  start: "in_flight env strm op d s0 [] [] [] s0"
| send: "in_flight env strm op d s0 outs wait ins s \<Longrightarrow> subSend env strm op d q s = Some (p, s') \<Longrightarrow>
    in_flight env strm op d s0 (outs @ [(q, p)]) ((q, p) # wait) ins s'"
| join: "in_flight env strm op d s0 outs wait ins s \<Longrightarrow> (q, p) \<in> set wait \<Longrightarrow>
    in_flight env strm op d s0 outs (remove1 (q, p) wait) (ins @ [(q, p)]) (subJoin env strm q p s)"

lemma subSend_spec:
  assumes "subSend env strm op d q s = Some (p, s')"
  shows "io_frame s s'" and "streams_ok env s \<Longrightarrow> streams_ok env s'"
    and "streams_ok env s \<Longrightarrow> p \<noteq> q \<and> p \<noteq> identity s
      \<and> sent_to env (hist s') = (p, \<lparr>Op = op, Data = d\<rparr>) # sent_to env (hist s)"
proof -
  obtain ps where f: "forward env q op d ps s = (FwdSent p, s')"
    using assms by (auto simp: subSend_def split: sum.split_asm prod.split_asm forwarded.split_asm)
  show "io_frame s s'" "streams_ok env s \<Longrightarrow> streams_ok env s'" by (rule forward_frames [OF f], assumption?)+
  show "streams_ok env s \<Longrightarrow> p \<noteq> q \<and> p \<noteq> identity s
      \<and> sent_to env (hist s') = (p, \<lparr>Op = op, Data = d\<rparr>) # sent_to env (hist s)"
    using forward_once [OF f] by blast
qed

lemma subJoin_keeps:
  "streams_ok env s \<Longrightarrow> streams_ok env (subJoin env strm q p s)"
  "sent_to env (hist (subJoin env strm q p s)) = sent_to env (hist s)"
  "pointers_ok s \<Longrightarrow> pointers_ok (subJoin env strm q p s)"
  using createRelayer_spec(4,5) [OF HOL.refl HOL.refl] ptrs.evo_inv [OF evo_createRelayer [OF evo.refl]]
    ptrs.evo_inv [OF evo_AddListener [OF evo.refl]]
  by (auto simp: subJoin_def subCreate_def AddListener_quiet AddListener_ok split: option.split)

lemma subJoin_audience:
  assumes "pointers_ok s"
  shows "audience (subJoin env strm q p s) = (audience s)(relayerMapKey strm SubReqID \<mapsto>
    insert (IDHexEncode env q) (case audience s (relayerMapKey strm SubReqID) of None \<Rightarrow> {} | Some M \<Rightarrow> M))"
proof (cases "mget (relayers s) (relayerMapKey strm SubReqID)")
  case None
  then show ?thesis using audience_createRelayer [OF assms] by (simp add: subJoin_def subCreate_def audience_def)
next
  case (Some r)
  then show ?thesis
    using audience_rel_frame [OF assms Some AddListener_frame] audience_Some [OF Some]
    by (simp add: subJoin_def AddListener_keys)
qed

lemma subJoin_upstream:
  assumes "mget (relayers s) (relayerMapKey strm SubReqID) = Some r"
  shows "relayers (subJoin env strm q p s) = relayers s" "r_UpstreamPeer (get_r (subJoin env strm q p s) r) = r_UpstreamPeer (get_r s r)"
  using assms by (simp_all add: subJoin_def AddListener_rel AddListener_upstream)

lemma subJoin_new:
  assumes "mget (relayers s) (relayerMapKey strm SubReqID) = None"
  shows "\<exists>r. mget (relayers (subJoin env strm q p s)) (relayerMapKey strm SubReqID) = Some r
     \<and> r_UpstreamPeer (get_r (subJoin env strm q p s) r) = p"
  using assms createRelayer_spec(1,2) [OF HOL.refl HOL.refl, of env s strm SubReqID p "Some (IDHexEncode env p)" q]
  by (simp add: subJoin_def subCreate_def)

definition upstream_is :: "string \<Rightarrow> peerID \<Rightarrow> node \<Rightarrow> bool" where
  "upstream_is strm p s \<longleftrightarrow>
     (\<exists>r. mget (relayers s) (relayerMapKey strm SubReqID) = Some r \<and> r_UpstreamPeer (get_r s r) = p)"

lemma in_flight_inv:
  assumes "in_flight env strm op d s0 outs wait ins s"
    and "streams_ok env s0" "pointers_ok s0" "mget (relayers s0) (relayerMapKey strm SubReqID) = None"
  shows "streams_ok env s \<and> pointers_ok s \<and> mset outs = mset wait + mset ins
    \<and> sent_to env (hist s) = rev (map (\<lambda>(q, p). (p, \<lparr>Op = op, Data = d\<rparr>)) outs) @ sent_to env (hist s0)
    \<and> audience s = (if ins = [] then audience s0
        else (audience s0)(relayerMapKey strm SubReqID \<mapsto> IDHexEncode env ` fst ` set ins))
    \<and> (ins \<noteq> [] \<longrightarrow> upstream_is strm (snd (hd ins)) s)"
  using assms(1)
proof (induction rule: in_flight.induct)
  case start
  then show ?case using assms(2,3) by simp
next
  case (send outs wait ins s q p s')
  note spec = subSend_spec [OF send.hyps(2)]
  have "upstream_is strm x s' = upstream_is strm x s" for x
    using io_frameD(9) [OF spec(1)] io_frame_structs [OF spec(1)] by (simp add: upstream_is_def)
  then show ?case
    using send.IH spec(2,3) ptrs_io [OF spec(1)] audience_io [OF spec(1)] by simp
next
  case (join outs wait ins s q p)
  have a: "audience s0 (relayerMapKey strm SubReqID) = None" using assms(4) by (simp add: audience_def)
  have "mset wait = add_mset (q, p) (mset (remove1 (q, p) wait))" using join.hyps(2) by simp
  then have ms: "mset outs = mset (remove1 (q, p) wait) + mset (ins @ [(q, p)])" using join.IH by simp
  have "upstream_is strm (snd (hd (ins @ [(q, p)]))) (subJoin env strm q p s)"
  proof (cases "ins = []")
    case True
    then have "audience s (relayerMapKey strm SubReqID) = None" using join.IH a by simp
    then have "mget (relayers s) (relayerMapKey strm SubReqID) = None" by (simp add: audience_def)
    from subJoin_new [OF this] True show ?thesis by (simp add: upstream_is_def)
  next
    case False
    then show ?thesis using join.IH subJoin_upstream by (auto simp: upstream_is_def)
  qed
  moreover have "audience (subJoin env strm q p s) =
      (audience s0)(relayerMapKey strm SubReqID \<mapsto> IDHexEncode env ` fst ` set (ins @ [(q, p)]))"
    using join.IH subJoin_audience [of s env strm q p] a by auto
  ultimately show ?case using join.IH subJoin_keeps ms by simp
qed

text \<open>
  C18. Subscriptions that overlap: take any number of handlers that subscribe peers to a stream this
  node does not know, with the halves before and after the send interleaved in any way. Every request
  that was sent on left exactly once, in that order, never back to its own requester; once all second
  halves have run, all requesters, and nobody else, are listeners of one relayer, whose upstream peer
  is the one that the first handler to finish had asked, and no other relayer has changed.
\<close>

theorem overlapping_subscriptions_join:
  assumes "in_flight env strm op d s0 outs wait ins s"
    and "streams_ok env s0" and "pointers_ok s0" and "mget (relayers s0) (relayerMapKey strm SubReqID) = None"
  shows "sent_to env (hist s) = rev (map (\<lambda>(q, p). (p, \<lparr>Op = op, Data = d\<rparr>)) outs) @ sent_to env (hist s0)
    \<and> (outs \<noteq> [] \<and> wait = [] \<longrightarrow>
         audience s = (audience s0)(relayerMapKey strm SubReqID \<mapsto> IDHexEncode env ` fst ` set outs)
         \<and> (\<exists>q p. (q, p) \<in> set outs \<and> hd ins = (q, p) \<and> upstream_is strm p s))"
proof -
  note i = in_flight_inv [OF assms]
  have "audience s = (audience s0)(relayerMapKey strm SubReqID \<mapsto> IDHexEncode env ` fst ` set outs)
      \<and> (\<exists>q p. (q, p) \<in> set outs \<and> hd ins = (q, p) \<and> upstream_is strm p s)" if "outs \<noteq> []" "wait = []"
  proof -
    have ms: "mset outs = mset ins" using i that(2) by simp
    then have "ins \<noteq> []" "set ins = set outs" using that(1) by (auto dest: mset_eq_setD)
    then show ?thesis using i hd_in_set [of ins] by (cases "hd ins") auto
  qed
  then show ?thesis using i by blast
qed

lemma demo_sends:
  "\<exists>s. subSend demo_env demo_strm SubReqID (D_SubReq \<lparr>sr_StrmID = demo_strm\<rparr>) pA demo_node = Some (pB, s)
     \<and> (\<exists>s'. subSend demo_env demo_strm SubReqID (D_SubReq \<lparr>sr_StrmID = demo_strm\<rparr>) pB s = Some (pA, s'))"
  by (simp add: subSend_def ClosestLocalPeers_def forward_def send_simps demo_pair_def Let_def)

lemma overlapping_subscriptions_join_witness:
  "\<exists>s. in_flight demo_env demo_strm SubReqID (D_SubReq \<lparr>sr_StrmID = demo_strm\<rparr>) demo_node [(pA, pB), (pB, pA)] [] [(pB, pA), (pA, pB)] s
     \<and> audience s (relayerMapKey demo_strm SubReqID) = Some {pA, pB} \<and> upstream_is demo_strm pA s"
proof -
  let ?d = "D_SubReq \<lparr>sr_StrmID = demo_strm\<rparr>"
  obtain s1 s2 where s: "subSend demo_env demo_strm SubReqID ?d pA demo_node = Some (pB, s1)"
    "subSend demo_env demo_strm SubReqID ?d pB s1 = Some (pA, s2)" using demo_sends by blast
  have "in_flight demo_env demo_strm SubReqID ?d demo_node ([] @ [(pA, pB)]) [(pA, pB)] [] s1"
    by (rule in_flight.send [OF in_flight.start s(1)])
  from in_flight.send [OF this s(2)]
  have "in_flight demo_env demo_strm SubReqID ?d demo_node [(pA, pB), (pB, pA)] [(pB, pA), (pA, pB)] [] s2" by simp
  from in_flight.join [OF this, of pB pA]
  have "in_flight demo_env demo_strm SubReqID ?d demo_node [(pA, pB), (pB, pA)] [(pA, pB)] [(pB, pA)]
      (subJoin demo_env demo_strm pB pA s2)" by simp
  from in_flight.join [OF this, of pA pB]
  have run: "in_flight demo_env demo_strm SubReqID ?d demo_node [(pA, pB), (pB, pA)] [] [(pB, pA), (pA, pB)]
      (subJoin demo_env demo_strm pA pB (subJoin demo_env demo_strm pB pA s2))" by simp
  have "pointers_ok demo_node" "mget (relayers demo_node) (relayerMapKey demo_strm SubReqID) = None"
    by (simp_all add: pointers_ok_def)
  from overlapping_subscriptions_join [OF run demo_node_ok this] run show ?thesis by auto
qed

text \<open>
  The second half looks the relayer up and then makes one, without a lock. When the handlers of two
  peers have both looked it up before either has made it, the second relayer takes the place of the
  first, and the first peer is left out of the table: it is sent nothing.
\<close>

lemma simultaneous_creations_lose_listener:
  assumes "pointers_ok s" "mget (relayers s) (relayerMapKey strm SubReqID) = None"
  shows "subCreate env strm q p s = subJoin env strm q p s"
    "audience (subCreate env strm q' p' (subCreate env strm q p s)) (relayerMapKey strm SubReqID) = Some {IDHexEncode env q'}"
proof -
  show j: "subCreate env strm q p s = subJoin env strm q p s" using assms(2) by (simp add: subJoin_def)
  have "pointers_ok (subCreate env strm q p s)" unfolding j by (rule subJoin_keeps(3) [OF assms(1)])
  from audience_createRelayer [OF this]
  show "audience (subCreate env strm q' p' (subCreate env strm q p s)) (relayerMapKey strm SubReqID) = Some {IDHexEncode env q'}"
    unfolding subCreate_def [of env strm q'] by simp
qed

end
