(* ===== verification/Routes.thy ===== *)
theory Routes
  imports Viewers InFlight
begin

text \<open>
  How a route comes about: a subscription on its way from the node of a viewer towards the
  broadcaster leaves a relayer at every node that sends it on, and these are the route along which the
  segments come back (theory \<open>Viewers\<close>).
\<close>

abbreviation sub_msg :: "string \<Rightarrow> Msg" where
  "sub_msg strm \<equiv> \<lparr>Op = SubReqID, Data = D_SubReq \<lparr>sr_StrmID = strm\<rparr>\<rparr>"

text \<open>A node that has nothing to do with the stream yet, and is not the one it names.\<close>

definition new_to :: "env \<Rightarrow> node \<Rightarrow> string \<Rightarrow> bool" where
  "new_to env s strm \<longleftrightarrow> mget (broadcasters s) strm = None \<and> mget (relayers s) (relayerMapKey strm SubReqID) = None
     \<and> mget (subscribers s) strm = None \<and> extractNodeID env strm \<noteq> Inr (identity s)"

definition can_dial :: "env \<Rightarrow> peerID \<Rightarrow> bool" where
  "can_dial env q \<longleftrightarrow> (\<forall>h. \<exists>sh. NewStream env h q = Inr sh)"

section \<open>One node\<close>

lemma GetOutStream_dialled:
  assumes "can_dial env q" "GetOutStream env s q = (r, s')"
  shows "r \<noteq> None"
proof -
  obtain sh where "NewStream env (hist s) q = Inr sh" using assms(1) by (auto simp: can_dial_def)
  then show ?thesis
    using assms(2) by (cases "mget (outStreams s) q") (auto simp: GetOutStream_def RefreshOutStream_def Let_def dest: sym)
qed

lemma AddListener_dialled:
  assumes "can_dial env q" "no_nil_listener (get_r s p)"
  shows "no_nil_listener (get_r (AddListener env s p q) p)"
proof (cases "mget (r_listeners (get_r s p)) (IDHexEncode env q)")
  case None
  obtain st t where g: "GetOutStream env s q = (st, t)" by fastforce
  have "get_r t p = get_r s p" by (rule io_frame_structs) (rule GetOutStream_frame [OF g])
  then show ?thesis
    using assms(2) GetOutStream_dialled [OF assms(1) g] None g by (auto simp: AddListener_def no_nil_listener_def)
next
  case (Some x)
  then show ?thesis using assms(2) by (simp add: AddListener_def)
qed

lemma subCreate_dialled:
  assumes "can_dial env q"
  shows "no_nil_listener (get_r (subCreate env strm q p s) (fresh (rstore s)))"
proof -
  define m where "m = log (E_LogRelay strm (IDHexEncode env p)) (set_upstream (snd (NewRelayer s strm SubReqID)) (fresh (rstore s)) p)"
  have "no_nil_listener (get_r m (fresh (rstore s)))"
    by (simp add: m_def new_relayer_simps set_upstream_def no_nil_listener_def)
  from AddListener_dialled [OF assms this] show ?thesis
    by (simp add: subCreate_def createRelayer_def NewRelayer_eq Let_def m_def)
qed

lemma handleSub_sent:
  assumes "new_to env s strm" "handleSub env s op strm d q = (e, s')"
    and "sent_to env (hist s') \<noteq> sent_to env (hist s)"
  shows "\<exists>p s1. subSend env strm op d q s = Some (p, s1) \<and> s' = subJoin env strm q p s1"
proof (cases "subSend env strm op d q s")
  case (Some x)
  then obtain p s1 where x: "subSend env strm op d q s = Some (p, s1)" by (cases x) auto
  have "s' = subJoin env strm q p s1"
    using handleSub_halves [OF _ _ _ _ x] assms(1,2) by (simp add: new_to_def)
  then show ?thesis using x by blast
next
  case None
  have False
  proof (cases "ClosestLocalPeers env s strm")
    case (Inl err)
    then show False using assms by (simp add: new_to_def handleSub_def)
  next
    case (Inr ps)
    obtain res s2 where f: "forward env q op d ps s = (res, s2)" by fastforce
    have n: "\<forall>p. res \<noteq> FwdSent p" using None Inr f by (auto simp: subSend_def)
    have "s' = s2" using assms(1,2) Inr f n by (cases res) (auto simp: new_to_def handleSub_def)
    then show False using forward_silent [OF f n] assms(3) by simp
  qed
  then show ?thesis ..
qed

text \<open>A node that handles the bytes of a subscription of peer \<open>q\<close> and sends it on to \<open>p\<close>.\<close>

definition passes_on :: "hop \<Rightarrow> string \<Rightarrow> peerID \<Rightarrow> bytes \<Rightarrow> peerID \<Rightarrow> node \<Rightarrow> bool" where
  "passes_on h strm q bs p s' \<longleftrightarrow>
     streamHandler (h_env h) (h_node h) q (RxJson bs) = Returns (None, s')
     \<and> sent_to (h_env h) (hist s') = (p, sub_msg strm) # sent_to (h_env h) (hist (h_node h))"

definition open_to :: "hop \<Rightarrow> string \<Rightarrow> peerID \<Rightarrow> bool" where
  "open_to h strm q \<longleftrightarrow> reachable (h_env h) (h_node h) \<and> new_to (h_env h) (h_node h) strm \<and> can_dial (h_env h) q"

lemma passed_on_relays:
  assumes "passes_on h strm q bs p s'" "ReceiveMessage (h_env h) (RxJson bs) = Inr (sub_msg strm)"
    and "open_to h strm q"
  shows "relays_for (h\<lparr>h_node := s'\<rparr>) strm q" "written_ok (h_env h) s'"
proof -
  let ?e = "h_env h" and ?s = "count_msg SubReqID (log (E_Recv q) (h_node h))"
  have open_h: "reachable ?e (h_node h)" "new_to ?e (h_node h) strm" "can_dial ?e q"
    using assms(3) by (simp_all add: open_to_def)
  have wt: "well_typed (sub_msg strm)" by (simp add: well_typed_def)
  have run: "streamHandler ?e (h_node h) q (RxJson bs) = Returns (None, s')" using assms(1) by (simp add: passes_on_def)
  then have "protocolLoop ?e q [RxJson bs] (h_node h) = Returns (True, [], s')" by simp
  then have reach: "reachable ?e s'" by (rule reachable.run [OF open_h(1) s_receive])
  show "written_ok ?e s'" by (rule wrtn.reachable_inv [OF reach])
  have "dispatch ?e (log (E_Recv q) (h_node h)) q (sub_msg strm) = Returns (None, s')"
    using run assms(2) by (simp add: streamHandler_def opcode_defs)
  then have h: "handleSub ?e ?s SubReqID strm (D_SubReq \<lparr>sr_StrmID = strm\<rparr>) q = (None, s')"
    unfolding dispatch_route [OF wt] by (simp add: handleSubReq_def)
  have s: "new_to ?e ?s strm" "sent_to ?e (hist s') \<noteq> sent_to ?e (hist ?s)"
    using assms(1) open_h(2) by (simp_all add: new_to_def passes_on_def count_msg_def)
  obtain p' s1 where s1: "subSend ?e strm SubReqID (D_SubReq \<lparr>sr_StrmID = strm\<rparr>) q ?s = Some (p', s1)"
    "s' = subJoin ?e strm q p' s1" using handleSub_sent [OF s(1) h s(2)] by blast
  have "mget (relayers s1) (relayerMapKey strm SubReqID) = None"
    using io_frameD(9) [OF subSend_spec(1) [OF s1(1)]] s(1) by (simp add: new_to_def)
  then have s': "s' = subCreate ?e strm q p' s1" using s1(2) by (simp add: subJoin_def)
  define r where "r = fresh (rstore s1)"
  note c = createRelayer_spec [OF s' [unfolded subCreate_def] r_def]
  obtain st where st: "r_listeners (get_r s' r) = [(IDHexEncode ?e q, st)]" using c(3) by blast
  have nn: "no_nil_listener (get_r s' r)" unfolding s' r_def by (rule subCreate_dialled [OF open_h(3)])
  then obtain sh where "st = Some sh" using st by (cases st) (auto simp: no_nil_listener_def split: if_splits)
  then show "relays_for (h\<lparr>h_node := s'\<rparr>) strm q"
    using reach nn st c(1) by (simp add: relays_for_def)
qed

section \<open>A path of nodes\<close>

text \<open>
  The nodes that a subscription of the viewer's node passes, first the one that is asked by it, each
  with its state afterwards; the last one asks peer \<open>a\<close>. Every node sends on what it has received as
  bytes of its own.
\<close>

fun asked_along :: "string \<Rightarrow> peerID \<Rightarrow> bytes \<Rightarrow> (hop \<times> node) list \<Rightarrow> peerID \<Rightarrow> bool" where
  "asked_along strm q bs [] a = True"
| "asked_along strm q bs ((h, s') # hs) a =
     (open_to h strm q \<and> passes_on h strm q bs (case hs of [] \<Rightarrow> a | (h', _) # _ \<Rightarrow> h_id h') s'
      \<and> (\<forall>bs'. MarshalJSON (h_env h) (sub_msg strm) = Inr bs' \<longrightarrow> asked_along strm (h_id h) bs' hs a))"

definition way_back :: "(hop \<times> node) list \<Rightarrow> hop list" where
  "way_back hs = rev (map (\<lambda>(h, s'). h\<lparr>h_node := s'\<rparr>) hs)"

lemma route_of_append:
  "route_of (hs @ [h]) v strm \<longleftrightarrow> route_of hs h strm \<and> relays_for h strm (h_id v)"
proof (induction hs)
  case (Cons x hs)
  then show ?case by (cases hs) (simp_all add: next_peer_def)
qed (simp add: next_peer_def)

lemma asked_route:
  assumes "asked_along strm (h_id v) bs hs a" and "MarshalJSON env (sub_msg strm) = Inr bs"
    and "gob_roundtrip env" and "json_roundtrip env"
    and "\<forall>(h, s') \<in> set hs. sound_env (h_env h) \<and> same_formats env (h_env h)"
  shows "route_of (way_back hs) v strm"
  using assms
proof (induction hs arbitrary: v bs env)
  case Nil
  then show ?case by (simp add: way_back_def)
next
  case (Cons x hs)
  obtain h s' where x: "x = (h, s')" by fastforce
  let ?h = "h\<lparr>h_node := s'\<rparr>" and ?p = "case hs of [] \<Rightarrow> a | (h', _) # _ \<Rightarrow> h_id h'"
  have snd: "sound_env (h_env h)" and fm: "same_formats env (h_env h)" using Cons.prems(5) x by simp_all
  have op: "open_to h strm (h_id v)" and ps: "passes_on h strm (h_id v) bs ?p s'" using Cons.prems(1) x by simp_all
  have rx: "ReceiveMessage (h_env h) (RxJson bs) = Inr (sub_msg strm)"
    by (rule wire [OF fm Cons.prems(3,4) _ _ Cons.prems(2)]) (simp_all add: well_typed_def)
  note rel = passed_on_relays [OF ps rx op]
  have "(?p, sub_msg strm) \<in> set (sent_to (h_env h) (hist s'))" using ps by (simp add: passes_on_def)
  from sent_marshalled [OF rel(2) this] obtain bs' where bs': "MarshalJSON (h_env h) (sub_msg strm) = Inr bs'" by blast
  have "route_of (way_back hs) ?h strm"
  proof (rule Cons.IH [OF _ bs'])
    show "asked_along strm (h_id ?h) bs' hs a" using Cons.prems(1) x bs' by simp
    show "\<forall>(h', s') \<in> set hs. sound_env (h_env h') \<and> same_formats (h_env h) (h_env h')"
      using Cons.prems(5) same_formats_trans [OF fm] x by auto
  qed (use snd in \<open>simp_all add: sound_env_def\<close>)
  then show ?case using rel(1) x by (simp add: way_back_def route_of_append)
qed


text \<open>The node of a viewer, peer A, and one node that passes its request on to peer B, for the witness.\<close>

abbreviation demo_hop :: hop where
  "demo_hop \<equiv> \<lparr>h_env = demo_env, h_id = pC, h_node = new_node pMe None\<rparr>"

lemma demo_passes_on:
  "passes_on demo_hop demo_strm pA (char_of (unat SubReqID) # demo_strm) pB demo_relays"
proof -
  have "streamHandler demo_env (new_node pMe None) pA demo_sub_rx = Returns (None, demo_relays)
      \<and> sent_to demo_env (hist demo_relays) = [(pB, sub_msg demo_strm)]"
    by (simp add: demo_relays_def demo_handled_def streamHandler_def demo_sub_received opcode_defs dispatch_route
          well_typed_def,
        simp add: handleSubReq_def handleSub_def count_msg_def Let_def send_simps new_node_def empty_store_def
          forward_def ClosestLocalPeers_def createRelayer_def NewRelayer_eq demo_pair_def,
        simp add: AddListener_def set_upstream_def new_r_simps new_r_fields zero_relayer_def Let_def send_simps opcode_defs)
  then show ?thesis by (simp add: passes_on_def demo_sub_rx_def new_node_def)
qed


end
