(* ===== verification/Spread.thy ===== *)
theory Spread
  imports ChannelTypes
begin

text \<open>
  How contents spread through a node. Everything that a node holds, has sent or has handed to its
  client was received from a peer or published by the node's own client: no segment, playlist or
  transcoding result comes from nowhere. A segment that reaches a subscriber is a segment of the
  stream that it subscribed to.
\<close>

section \<open>Local delivery\<close>

text \<open>A segment that waits for a subscriber belongs to the stream of the subscriber.\<close>

fun feeds :: "goroutine \<Rightarrow> (ptr \<times> StreamDataMsg) option" where
  "feeds (GO_Insert p d) = Some (p, d)"
| "feeds (GO_InsertWait p d) = Some (p, d)"
| "feeds g = None"

definition subscribes :: "node \<Rightarrow> ptr \<Rightarrow> string \<Rightarrow> bool" where
  "subscribes s p k \<longleftrightarrow> p < fresh (sstore s) \<and> s_StrmID (get_s s p) = k"

definition locals_ok :: "node \<Rightarrow> bool" where
  "locals_ok s \<longleftrightarrow>
     (\<forall>b k p. mget (b_listeners (get_b s b)) k = Some (Local p) \<longrightarrow> subscribes s p (b_StrmID (get_b s b))) \<and>
     (\<forall>g \<in> set (gos s). \<forall>p d. feeds g = Some (p, d) \<longrightarrow> subscribes s p (sd_StrmID d))"

lemma subscribes_cong:
  "fresh (sstore s') = fresh (sstore s) \<Longrightarrow> (\<And>p. s_StrmID (get_s s' p) = s_StrmID (get_s s p)) \<Longrightarrow>
     subscribes s' p k = subscribes s p k"
  by (simp add: subscribes_def)

lemma fits_subscribes: "pointers_ok s \<Longrightarrow> locals_ok s \<Longrightarrow> fits s p d \<Longrightarrow> subscribes s p (sd_StrmID d)"
  unfolding fits_def locals_ok_def pointers_ok_def subscribes_def by auto

lemma locals_from_subscribes:
  assumes "pointers_ok s" "locals_ok s" "locals_from s p b" "b_StrmID b = b_StrmID (get_b s p)"
    and "mget (b_listeners b) k = Some (Local q)"
  shows "subscribes s q (b_StrmID b)"
proof -
  from assms(3,5) consider k' where "mget (b_listeners (get_b s p)) k' = Some (Local q)"
    | "q < fresh (sstore s)" "mget (broadcasters s) (s_StrmID (get_s s q)) = Some p"
    unfolding locals_from_def by blast
  then show ?thesis
  proof cases
    case 1
    then show ?thesis using assms(2,4) unfolding locals_ok_def by auto
  next
    case 2
    then show ?thesis using assms(1,4) unfolding pointers_ok_def subscribes_def by auto
  qed
qed

lemma locals_okI:
  assumes "locals_ok s"
    and "\<And>p k. subscribes s p k \<Longrightarrow> subscribes s' p k"
    and "\<And>b k p. mget (b_listeners (get_b s' b)) k = Some (Local p) \<Longrightarrow>
      (mget (b_listeners (get_b s b)) k = Some (Local p) \<and> b_StrmID (get_b s b) = b_StrmID (get_b s' b))
      \<or> subscribes s p (b_StrmID (get_b s' b))"
    and "\<And>g p d. g \<in> set (gos s') \<Longrightarrow> feeds g = Some (p, d) \<Longrightarrow> g \<in> set (gos s) \<or> subscribes s p (sd_StrmID d)"
  shows "locals_ok s'"
  using assms unfolding locals_ok_def by metis

lemma prim_locals:
  assumes "prim env X H s H' s'" "pointers_ok s" "locals_ok s"
  shows "locals_ok s'"
  using assms(1)
proof (cases rule: prim.cases)
  case (p_spawn g)
  have "subscribes s p (sd_StrmID d)" if "feeds g = Some (p, d)" for p d
  proof (cases g)
    case (GO_InsertWait q e)
    then have "GO_Insert q e \<in> set (gos s)" using p_spawn by simp
    then show ?thesis using that GO_InsertWait assms(3) unfolding locals_ok_def by fastforce
  qed (use that p_spawn fits_subscribes [OF assms(2,3)] in auto)
  then show ?thesis by (intro locals_okI [OF assms(3)]) (use p_spawn in \<open>auto simp: subscribes_def\<close>)
next
  case (p_end g)
  then show ?thesis
    using set_remove1_subset [of g "gos s"]
    by (intro locals_okI [OF assms(3)]) (auto simp: ends_def subscribes_def get_s_def get_b_def)
next
  case (p_end_free g)
  then show ?thesis
    using set_remove1_subset [of g "gos s"]
    by (intro locals_okI [OF assms(3)]) (auto simp: ends_def subscribes_def get_s_def get_b_def)
next
  case (p_put_b p b)
  then show ?thesis
    using locals_from_subscribes [OF assms(2,3), of p b]
    by (intro locals_okI [OF assms(3)]) (auto simp: subscribes_def split: if_split_asm)
next
  case (p_new_b b)
  then show ?thesis
    by (intro locals_okI [OF assms(3)]) (auto simp: subscribes_def split: if_split_asm)
next
  case (p_work_b p b c)
  then show ?thesis
    by (intro locals_okI [OF assms(3)]) (auto simp: subscribes_def split: if_split_asm)
qed (rule locals_okI [OF assms(3)]; auto simp: subscribes_def new_r_fields dest!: new_chan_eq split: if_splits)+

interpretation locs: node_invariant "\<lambda>env H s. pointers_ok s \<and> locals_ok s"
proof
  show "pointers_ok s' \<and> locals_ok s'" if "prim env X H s H' s'" "pointers_ok s \<and> locals_ok s" for env X H s H' s'
    using that prim_locals pointers_prim by blast
qed (simp add: pointers_ok_def locals_ok_def)

section \<open>What a node carries\<close>

fun carried_by :: "goroutine \<Rightarrow> content set" where
  "carried_by (GO_Insert p d) = carried (D_StreamData d)"
| "carried_by (GO_InsertWait p d) = carried (D_StreamData d)"
| "carried_by (GO_ReqReturn c rc k m) = carried (Data m)"
| "carried_by g = requested g"

fun recorded :: "content set \<Rightarrow> node \<Rightarrow> effect \<Rightarrow> bool" where
  "recorded X s (E_Flush sh m ok) = (conveyed (Op m) (Data m) \<subseteq> X)"
| "recorded X s (E_GotData p n d eof) =
     (\<not> eof \<longrightarrow> p < fresh (sstore s) \<and> Segment (s_StrmID (get_s s p)) n d \<in> X)"
| "recorded X s (E_Callback cb r) = (\<exists>k. TranscodeResult k r \<in> X)"
| "recorded X s e = True"

definition carries :: "env \<Rightarrow> content set \<Rightarrow> node \<Rightarrow> bool" where
  "carries env X s \<longleftrightarrow> stock env X s \<and>
     (\<forall>g \<in> set (gos s). carried_by g \<subseteq> X) \<and>
     (\<forall>c m. c < fresh (chans s) \<longrightarrow> ch_val (sget (chans s) c) = Some (V_Msg m) \<longrightarrow> carried (Data m) \<subseteq> X) \<and>
     (\<forall>e \<in> set (hist s). recorded X s e)"

lemma requested_carried: "requested g \<subseteq> carried_by g"
  by (cases g) auto

lemma carries_ready: "carries env X s \<Longrightarrow> ready env X s"
  using requested_carried by (fastforce simp: carries_def ready_def)

lemma recorded_mono: "recorded X s e \<Longrightarrow> X \<subseteq> Y \<Longrightarrow> recorded Y s e"
  by (cases e) auto

lemma carries_mono: "carries env X s \<Longrightarrow> X \<subseteq> Y \<Longrightarrow> carries env Y s"
  unfolding carries_def stock_def by (blast intro: recorded_mono)

lemma recorded_cong:
  "recorded X s e \<Longrightarrow> (\<And>p. p < fresh (sstore s) \<Longrightarrow> p < fresh (sstore s') \<and> s_StrmID (get_s s' p) = s_StrmID (get_s s p)) \<Longrightarrow>
     recorded X s' e"
  by (cases e) auto

lemma carriesI:
  assumes "carries env X s"
    and "stock env X s \<Longrightarrow> stock env X s'"
    and "\<And>g. g \<in> set (gos s') \<Longrightarrow> g \<in> set (gos s) \<or> carried_by g \<subseteq> X"
    and "\<And>c m. c < fresh (chans s') \<Longrightarrow> ch_val (sget (chans s') c) = Some (V_Msg m) \<Longrightarrow>
      (c < fresh (chans s) \<and> ch_val (sget (chans s) c) = Some (V_Msg m)) \<or> carried (Data m) \<subseteq> X"
    and "\<And>e. e \<in> set (hist s') \<Longrightarrow> e \<in> set (hist s) \<or> recorded X s e"
    and "\<And>p. p < fresh (sstore s) \<Longrightarrow> p < fresh (sstore s') \<and> s_StrmID (get_s s' p) = s_StrmID (get_s s p)"
  shows "carries env X s'"
proof -
  have "recorded X s' e" if "e \<in> set (hist s')" for e
  proof -
    have "recorded X s e" using assms(1) assms(5) [OF that] by (auto simp: carries_def)
    then show ?thesis by (rule recorded_cong [OF _ assms(6)])
  qed
  then show ?thesis using assms(1-4) unfolding carries_def by blast
qed

section \<open>The invariant\<close>

lemma stock_put_b: "stock env X s \<Longrightarrow> held_by b \<subseteq> X \<Longrightarrow> stock env X (put_b s p b)"
  by (simp add: stock_def)

lemma stock_held: "stock env X s \<Longrightarrow> held_by (get_b s p) \<subseteq> X"
  by (simp add: stock_def)

lemma recorded_data:
  assumes "locals_ok s" "carries env X s" "GO_InsertWait p sd \<in> set (gos s)"
  shows "recorded X s (E_GotData p (sd_SeqNo sd) (sd_Data sd) False)"
proof -
  have "subscribes s p (sd_StrmID sd)" using assms(1,3) unfolding locals_ok_def by fastforce
  moreover have "Segment (sd_StrmID sd) (sd_SeqNo sd) (sd_Data sd) \<in> X" using assms(2,3) by (fastforce simp: carries_def)
  ultimately show ?thesis by (simp add: subscribes_def)
qed

text \<open>A message that is put into a channel was carried by whoever sends it.\<close>

lemma channel_carries:
  assumes "channels_typed H s" "carries env X s" "send_ok X H s c (V_Msg m)"
  shows "carried (Data m) \<subseteq> X"
proof -
  obtain ty where ty: "typed ty H s" using assms(1) by (auto simp: channels_typed_def)
  from assms(3) consider "carried (Data m) \<subseteq> X" | c' k where "GO_ReqReturn c' c k m \<in> set (gos s)"
    | "GO_SendClose c (V_Msg m) \<in> set (gos s)" by (auto simp: send_ok_def)
  then show ?thesis
  proof cases
    case 2
    then show ?thesis using assms(2) by (fastforce simp: carries_def)
  next
    case 3
    then show ?thesis using ty by (fastforce simp: typed_def)
  qed
qed

lemma prim_carries:
  assumes "prim env X H s H' s'" "pointers_ok s" "locals_ok s" "channels_typed H s" "carries env X s"
  shows "carries env X s'"
  using assms(1)
proof (cases rule: prim.cases)
  case (p_log e)
  have "recorded X s e"
  proof (cases e)
    case (E_GotData p n d eof)
    show ?thesis
    proof (cases eof)
      case False
      then obtain sd where "GO_InsertWait p sd \<in> set (gos s)" "sd_SeqNo sd = n" "sd_Data sd = d"
        using E_GotData p_log by auto
      then show ?thesis using recorded_data [OF assms(3,5), of p sd] E_GotData False by simp
    qed (use E_GotData in simp)
  qed (use p_log in auto)
  then show ?thesis by (intro carriesI [OF assms(5)]) (use p_log in auto)
next
  case (p_spawn g)
  have "carried_by g \<subseteq> X"
  proof (cases g)
    case (GO_InsertWait q e)
    then have "GO_Insert q e \<in> set (gos s)" using p_spawn by simp
    then show ?thesis using GO_InsertWait assms(5) by (fastforce simp: carries_def)
  next
    case (GO_ReqReturn c rc k m)
    then have "c < fresh (chans s)"
      using assms(4) p_spawn(1) by (auto simp: channels_typed_def channels_defs chan_ok_def)
    then show ?thesis using GO_ReqReturn assms(5) p_spawn by (auto simp: carries_def)
  qed (use p_spawn in auto)
  then show ?thesis
    by (intro carriesI [OF assms(5)]) (use p_spawn in \<open>auto simp: stock_io [OF io_frame_spawn]\<close>)
next
  case (p_end g)
  then show ?thesis
    using set_remove1_subset [of g "gos s"]
    by (intro carriesI [OF assms(5)]) (auto simp: ends_def get_s_def get_b_def stock_def)
next
  case (p_end_free g)
  then show ?thesis
    using set_remove1_subset [of g "gos s"]
    by (intro carriesI [OF assms(5)]) (auto simp: ends_def get_s_def get_b_def stock_def)
next
  case (p_put_b p b)
  then have "held_by b \<subseteq> X" using stock_held assms(5) unfolding carries_def by blast
  then show ?thesis
    using p_put_b by (intro carriesI [OF assms(5)]) (auto intro: stock_put_b)
next
  case (p_work_b p b c)
  have "stock env X s" using assms(5) by (simp add: carries_def)
  then have "stock env X s'"
    unfolding p_work_b(2)
    by (intro stock_put_b) (use stock_held p_work_b(5) in \<open>simp_all add: stock_io [OF io_frame_spawn]\<close>)
  then show ?thesis by (intro carriesI [OF assms(5)]) (use p_work_b in auto)
next
  case (p_mplMap m)
  have old: "stock env X s" using assms(5) by (simp add: carries_def)
  have "PlaylistText k (mplString env v) \<in> X" if "mget m k = Some v" for k v
    using p_mplMap(4) [OF that] old unfolding stock_def by blast
  then have "stock env X s'" using old p_mplMap(2) by (simp add: stock_def get_b_def)
  then show ?thesis by (intro carriesI [OF assms(5)]) (use p_mplMap in \<open>auto simp: get_s_def\<close>)
next
  case (p_chan cs c ch)
  have "carried (Data m) \<subseteq> X" if "ch_val ch = Some (V_Msg m)" "ch_val (sget (chans s) c) \<noteq> Some (V_Msg m)" for m
    using channel_carries [OF assms(4,5)] p_chan(5) [OF that(1)] that(2) by blast
  then show ?thesis
    using p_chan
    by (intro carriesI [OF assms(5)]) (auto simp: stock_def get_s_def get_b_def split: if_split_asm)
qed (rule carriesI [OF assms(5)];
    auto simp: stock_def get_s_def get_b_def new_r_def new_b_def new_s_def put_r_def put_s_def sput_def sget_def
      snew_def Let_def dest!: new_chan_eq split: if_splits; blast)+

lemma evo_carries:
  assumes "evo env X H0 s0 H s" "pointers_ok s0" "locals_ok s0" "channels_typed H0 s0" "carries env X s0"
  shows "pointers_ok s \<and> locals_ok s \<and> channels_typed H s \<and> carries env X s"
  using assms
proof (induction rule: evo.induct)
  case (step H s H' s')
  then show ?case
    using pointers_prim prim_locals typs.prim_inv prim_carries by (metis (no_types, lifting))
qed simp

text \<open>One step: what the node carries afterwards it carried before, received or was given.\<close>

lemma step_carries:
  assumes "reachable env s" "step env a s s'" "carries env X s" "received env a \<subseteq> X" "published env s a \<subseteq> X"
  shows "carries env X s'"
proof -
  have "evo env X [] s [] s'"
    by (rule step_evo [OF assms(2) carries_ready [OF assms(3)] assms(4,5) reachable_refs [OF assms(1)]])
  from evo_carries [OF this _ _ typs.reachable_inv [OF assms(1)] assms(3)] locs.reachable_inv [OF assms(1)]
  show ?thesis by blast
qed

lemma new_node_carries: "carries env X (new_node me a)"
  by (simp add: carries_def stock_def held_by_def new_node_def empty_store_def get_b_def sget_def zero_broadcaster_def)

end
