(* ===== verification/Network.thy ===== *)
theory Network
  imports EndToEnd Spread
begin

text \<open>
  A network of nodes that all run this code. Every peer has a node and an environment of its own;
  the environments agree on the wire formats. What a node writes to a stream is on the wire and may
  reach its addressee any number of times, in any order, or never; a node may be restarted and
  forget everything.
\<close>

section \<open>Steps of the network\<close>

type_synonym packet = "peerID \<times> peerID \<times> bytes" \<comment> \<open>from, to, the bytes of one message\<close>

record net =
  nodes :: "peerID \<Rightarrow> node"
  wire :: "packet set"
  announced :: "content set" \<comment> \<open>what the clients have published so far\<close>

text \<open>
  The packets of a node: the messages it has encoded, whether or not flushing them reported an error.
\<close>

definition packets :: "env \<Rightarrow> peerID \<Rightarrow> node \<Rightarrow> packet set" where
  "packets env q s =
     {(q, RemotePeer env sh, b) | sh m ok b. E_Flush sh m ok \<in> set (hist s) \<and> MarshalJSON env m = Inr b}"

text \<open>A node receives what is on the wire for it, or the error of a broken stream.\<close>

fun delivers :: "net \<Rightarrow> peerID \<Rightarrow> action \<Rightarrow> bool" where
  "delivers c p (A_Receive q (RxJson b)) = ((q, p, b) \<in> wire c)"
| "delivers c p a = True"

inductive net_step :: "(peerID \<Rightarrow> env) \<Rightarrow> net \<Rightarrow> net \<Rightarrow> bool" for envs where
  act: "step (envs p) a (nodes c p) s' \<Longrightarrow> delivers c p a \<Longrightarrow>
    net_step envs c (c\<lparr>nodes := (nodes c)(p := s'), wire := wire c \<union> packets (envs p) p s',
                       announced := announced c \<union> published (envs p) (nodes c p) a\<rparr>)"
| restart: "NewBasicVideoNetwork (envs p) p ip port = Inr s' \<Longrightarrow>
    net_step envs c (c\<lparr>nodes := (nodes c)(p := s')\<rparr>)"

inductive net_reachable :: "(peerID \<Rightarrow> env) \<Rightarrow> net \<Rightarrow> bool" for envs where
  net_start: "(\<And>p. \<exists>ip port. NewBasicVideoNetwork (envs p) p ip port = Inr (ns p)) \<Longrightarrow>
    net_reachable envs \<lparr>nodes = ns, wire = {}, announced = {}\<rparr>"
| net_run: "net_reachable envs c \<Longrightarrow> net_step envs c c' \<Longrightarrow> net_reachable envs c'"

section \<open>What a packet conveys\<close>

definition agree :: "(peerID \<Rightarrow> env) \<Rightarrow> bool" where
  "agree envs \<longleftrightarrow>
     (\<forall>p q. same_formats (envs p) (envs q)) \<and> (\<forall>p. gob_roundtrip (envs p) \<and> json_roundtrip (envs p))"

lemma ReceiveMessage_json: "ReceiveMessage env (RxJson b) = Inr m \<Longrightarrow> UnmarshalJSON env b = Inr m"
  by (auto simp: ReceiveMessage_def split: sum.split_asm)

lemma marshal_typed: "MarshalJSON env m = Inr b \<Longrightarrow> \<exists>op. data_opcode (Data m) = Some op"
  by (cases "Data m") (auto simp: MarshalJSON_def marshal_data_def)

lemma opcode_carries_nothing: "data_opcode d = Some TranscodeSubID \<Longrightarrow> carried d = {}"
  by (cases d) (auto simp: opcode_defs)

lemma received_conveyed:
  assumes "same_formats envA envB" "gob_roundtrip envA" "json_roundtrip envA"
    and "MarshalJSON envA m = Inr b" "ReceiveMessage envB (RxJson b) = Inr m'"
  shows "carried (Data m') \<subseteq> conveyed (Op m) (Data m)"
proof (cases "well_typed m")
  case True
  show ?thesis
  proof (cases "wire_ok envA (Data m)")
    case ok: True
    have "m' = m" using wire [OF assms(1-3) True ok assms(4)] assms(5) by simp
    then show ?thesis using True by (simp add: well_typed_def)
  next
    case False
    then obtain ts where ts: "Data m = D_TranscodeSub ts" by (cases "Data m") auto
    then have op: "Op m = TranscodeSubID" using True by (simp add: well_typed_def)
    obtain p where "jsonEncode envA \<lparr>aux_Op = Op m, aux_Data = p\<rparr> = Inr b"
      using assms(4) by (auto simp: MarshalJSON_def split: sum.split_asm)
    then have "jsonDecode envB b = \<lparr>aux_Op = Op m, aux_Data = p\<rparr>"
      using assms(1,3) by (simp add: json_roundtrip_def same_formats_def)
    then have "Op m' = TranscodeSubID"
      using ReceiveMessage_json [OF assms(5)] op by (auto simp: UnmarshalJSON_def split: sum.split_asm)
    then have "carried (Data m') = {}"
      using ReceiveMessage_well_typed [OF assms(5)] opcode_carries_nothing by (simp add: well_typed_def)
    then show ?thesis by simp
  qed
next
  case False
  then show ?thesis using marshal_typed [OF assms(4)] by (auto simp: conveyed_def well_typed_def)
qed

section \<open>The invariant\<close>

definition genuine :: "(peerID \<Rightarrow> env) \<Rightarrow> net \<Rightarrow> bool" where
  "genuine envs c \<longleftrightarrow>
     (\<forall>p. reachable (envs p) (nodes c p) \<and> carries (envs p) (announced c) (nodes c p)) \<and>
     (\<forall>q p b r m. (q, p, b) \<in> wire c \<longrightarrow> ReceiveMessage (envs r) (RxJson b) = Inr m \<longrightarrow>
        carried (Data m) \<subseteq> announced c)"

lemma carries_packet:
  assumes "agree envs" "carries (envs q) X s" "(q, p, b) \<in> packets (envs q) q s"
    and "ReceiveMessage (envs r) (RxJson b) = Inr m"
  shows "carried (Data m) \<subseteq> X"
proof -
  from assms(3) obtain sh m0 ok where m0: "E_Flush sh m0 ok \<in> set (hist s)" "MarshalJSON (envs q) m0 = Inr b"
    by (auto simp: packets_def)
  have "conveyed (Op m0) (Data m0) \<subseteq> X" using assms(2) m0(1) by (fastforce simp: carries_def)
  moreover have "carried (Data m) \<subseteq> conveyed (Op m0) (Data m0)"
    by (rule received_conveyed [OF _ _ _ m0(2) assms(4)]) (use assms(1) in \<open>auto simp: agree_def\<close>)
  ultimately show ?thesis by blast
qed

lemma delivers_received:
  assumes "genuine envs c" "delivers c p a"
  shows "received (envs p) a \<subseteq> announced c"
proof (cases a)
  case (A_Receive q x)
  then show ?thesis
    using assms by (cases x) (auto simp: genuine_def ReceiveMessage_def split: sum.split)
qed simp_all

lemma genuine_step:
  assumes "agree envs" "genuine envs c" "net_step envs c c'"
  shows "genuine envs c'"
  using assms(3)
proof (cases rule: net_step.cases)
  case (act p a s')
  let ?X = "announced c \<union> published (envs p) (nodes c p) a"
  have old: "reachable (envs q) (nodes c q)" "carries (envs q) ?X (nodes c q)" for q
    using assms(2) carries_mono [of "envs q" "announced c"] by (auto simp: genuine_def)
  have run: "reachable (envs p) s'" by (rule reachable.run [OF old(1) act(2)])
  have new: "carries (envs p) ?X s'"
    by (rule step_carries [OF old(1) act(2) old(2)]) (use delivers_received [OF assms(2) act(3)] in auto)
  have "carried (Data m) \<subseteq> ?X"
    if "(q, p', b) \<in> wire c \<union> packets (envs p) p s'" "ReceiveMessage (envs r) (RxJson b) = Inr m" for q p' b r m
  proof (cases "(q, p', b) \<in> wire c")
    case True
    then show ?thesis using assms(2) that(2) unfolding genuine_def by blast
  next
    case False
    then have "(q, p', b) \<in> packets (envs p) p s'" using that(1) by blast
    moreover from this have "q = p" by (auto simp: packets_def)
    ultimately show ?thesis using carries_packet [OF assms(1) new _ that(2)] by blast
  qed
  then show ?thesis using old run new unfolding act(1) genuine_def by simp
next
  case (restart p ip port s')
  have "reachable (envs p) s'" by (rule reachable.start [OF restart(2)])
  moreover have "carries (envs p) (announced c) s'"
    using NewBasicVideoNetwork_new [OF restart(2)] new_node_carries by auto
  ultimately show ?thesis using assms(2) unfolding restart(1) genuine_def by simp
qed

lemma net_genuine: "net_reachable envs c \<Longrightarrow> agree envs \<Longrightarrow> genuine envs c"
proof (induction rule: net_reachable.induct)
  case (net_start ns)
  have "reachable (envs p) (ns p) \<and> carries (envs p) {} (ns p)" for p
    using net_start(1) [of p] reachable.start NewBasicVideoNetwork_new new_node_carries by metis
  then show ?case by (simp add: genuine_def)
qed (rule genuine_step)

end
