(* ===== verification/Genuineness.thy ===== *)
theory Genuineness
  imports Network
begin

text \<open>
  What the clients of a network may rely on: segments, playlists and transcoding results that they
  are handed are genuine. The first two sections are runs of a network for the witnesses.
\<close>

section \<open>A run in which a segment is handed to a client\<close>

text \<open>
  A run of a network, for the witnesses: the client of one node opens a broadcaster and a subscriber
  of the same stream and broadcasts a segment, which the goroutines of the node pass on.
\<close>

definition demo_ran :: "node \<Rightarrow> content set \<Rightarrow> bool" where
  "demo_ran s X \<longleftrightarrow> (\<exists>c. net_reachable (\<lambda>p. demo_env) c \<and> nodes c pMe = s \<and> announced c = X)"

lemma demo_ran_start: "demo_ran (new_node pMe None) {}"
  unfolding demo_ran_def
  by (intro exI [of _ "\<lparr>nodes = \<lambda>p. new_node p None, wire = {}, announced = {}\<rparr>"] conjI net_start)
    (auto simp: NewBasicVideoNetwork_def intro!: exI [of _ "[]"])

lemma demo_ran_step:
  assumes "demo_ran s X" "step demo_env a s s'" "\<forall>q x. a \<noteq> A_Receive q x"
  shows "demo_ran s' (X \<union> published demo_env s a)"
proof -
  obtain c where c: "net_reachable (\<lambda>p. demo_env) c" "nodes c pMe = s" "announced c = X"
    using assms(1) by (auto simp: demo_ran_def)
  have "delivers c pMe a" using assms(3) by (cases a) auto
  from net_run [OF c(1) act [OF _ this]] show ?thesis
    using assms(2) c unfolding demo_ran_def by fastforce
qed

lemma demo_ran_other: "demo_ran s X \<Longrightarrow> step demo_env A_Other s s' \<Longrightarrow> demo_ran s' X"
  using demo_ran_step [of s X A_Other s'] by simp

definition demo_seg :: StreamDataMsg where "demo_seg = \<lparr>sd_SeqNo = 7, sd_StrmID = demo_strm, sd_Data = ''x''\<rparr>"
definition demo_n1 :: node where "demo_n1 = snd (GetBroadcaster (new_node pMe None) demo_strm)"
definition demo_n2 :: node where "demo_n2 = snd (GetSubscriber demo_n1 demo_strm)"
definition demo_n3 :: node where "demo_n3 = snd (Subscribe demo_env demo_n2 0)"
definition demo_n4 :: node where "demo_n4 = Broadcast demo_n3 0 7 ''x''"
definition demo_n5 :: node where "demo_n5 = the (broadcastSegment demo_env 0 demo_n4)"
definition demo_n6 :: node where "demo_n6 = insertStart 0 demo_seg demo_n5"
definition demo_n7 :: node where "demo_n7 = workerData 0 demo_seg demo_n6"

lemmas demo_run_defs = demo_seg_def demo_n1_def demo_n2_def demo_n3_def demo_n4_def demo_n5_def demo_n6_def demo_n7_def
  GetBroadcaster_def GetSubscriber_def Subscribe_def sendSub_def Broadcast_def broadcastSegment_def
  insertStart_def workerData_def new_node_def empty_store_def new_b_def new_s_def snew_def Let_def
  AddListeningStream_def beginWork_def with_cancel_def startWorker_def startBroadcastWorker_def
  get_b_def get_s_def put_b_def put_s_def sput_def sget_def log_def spawn_def ends_def

lemmas demo_send_defs = sendDataMsgWith_def sendMessageWithRetry_def SendMessage_def LocalSendMessage_def
  InsertData_def stream_msg_def

lemma demo_run_facts:
  "fresh (sstore demo_n2) = 1" "fresh (bstore demo_n3) = 1" "b_StrmID (get_b demo_n3 0) = demo_strm"
  "gos demo_n4 = [GO_SubWorker 0 0 None, GO_Broadcast 0 1]"
  "broadcastSegment demo_env 0 demo_n4 = Some demo_n5"
  by (simp_all add: demo_run_defs demo_send_defs)

lemma demo_run_end:
  "gos demo_n5 = [GO_SubWorker 0 0 None, GO_Broadcast 0 1, GO_Insert 0 demo_seg]"
  "gos demo_n6 = [GO_SubWorker 0 0 None, GO_Broadcast 0 1, GO_InsertWait 0 demo_seg]"
  "got_data 0 (hist demo_n7) = [(7, ''x'', False)]"
  by (simp_all add: demo_run_defs demo_send_defs)

lemma demo_agree: "agree (\<lambda>p. demo_env)"
  by (simp add: agree_def same_formats_def)

lemma demo_net_run: "demo_ran demo_n7 {Segment demo_strm 7 ''x''}"
proof -
  have 1: "step demo_env A_Other (new_node pMe None) demo_n1"
    unfolding demo_n1_def by (rule s_GetBroadcaster) (rule prod.collapse [symmetric])
  have 2: "step demo_env A_Other demo_n1 demo_n2"
    unfolding demo_n2_def by (rule s_GetSubscriber) (rule prod.collapse [symmetric])
  have 3: "step demo_env A_Other demo_n2 demo_n3"
    unfolding demo_n3_def by (rule s_Subscribe [of 0]) (simp add: demo_run_facts, rule prod.collapse [symmetric])
  have 4: "step demo_env (A_Broadcast 0 7 ''x'') demo_n3 demo_n4"
    unfolding demo_n4_def by (rule s_Broadcast) (simp add: demo_run_facts)
  have 5: "step demo_env A_Other demo_n4 demo_n5"
    by (rule s_broadcastSegment [of 0 1]) (simp_all add: demo_run_facts)
  have 6: "step demo_env A_Other demo_n5 demo_n6"
    unfolding demo_n6_def by (rule s_insertStart) (simp add: demo_run_end)
  have 7: "step demo_env A_Other demo_n6 demo_n7"
    unfolding demo_n7_def by (rule s_workerData [of 0 0 None]) (simp_all add: demo_run_end)
  have "demo_ran demo_n3 {}" by (intro demo_ran_other [OF _ 3] demo_ran_other [OF _ 2] demo_ran_other [OF _ 1] demo_ran_start)
  from demo_ran_step [OF this 4] have "demo_ran demo_n4 {Segment demo_strm 7 ''x''}" by (simp add: demo_run_facts)
  then show ?thesis by (intro demo_ran_other [OF _ 7] demo_ran_other [OF _ 6] demo_ran_other [OF _ 5])
qed

section \<open>A run in which a playlist crosses the network\<close>

text \<open>
  Node B has a playlist; node A asks its peers for it one after the other, and the answer of B comes
  back over the wire.
\<close>

definition demo_net :: "node \<Rightarrow> node \<Rightarrow> packet set \<Rightarrow> content set \<Rightarrow> bool" where
  "demo_net a b W X \<longleftrightarrow>
     (\<exists>c. net_reachable (\<lambda>p. demo_env) c \<and> nodes c pA = a \<and> nodes c pB = b \<and> W \<subseteq> wire c \<and> announced c = X)"

lemma demo_net_start: "demo_net (new_node pA None) (new_node pB None) {} {}"
  unfolding demo_net_def
  by (intro exI [of _ "\<lparr>nodes = \<lambda>p. new_node p None, wire = {}, announced = {}\<rparr>"] conjI net_start)
    (auto simp: NewBasicVideoNetwork_def intro!: exI [of _ "[]"])

fun demo_delivers :: "packet set \<Rightarrow> peerID \<Rightarrow> action \<Rightarrow> bool" where
  "demo_delivers W p (A_Receive q (RxJson b)) = ((q, p, b) \<in> W)"
| "demo_delivers W p a = True"

lemma demo_delivers_wire: "demo_delivers W p a \<Longrightarrow> W \<subseteq> wire c \<Longrightarrow> delivers c p a"
  by (cases "(W, p, a)" rule: demo_delivers.cases) auto

lemma demo_net_A:
  assumes "demo_net a b W X" "step demo_env x a a'" "demo_delivers W pA x"
  shows "demo_net a' b (W \<union> packets demo_env pA a') (X \<union> published demo_env a x)"
proof -
  from assms(1) obtain c where c: "net_reachable (\<lambda>p. demo_env) c" "nodes c pA = a" "nodes c pB = b"
    "W \<subseteq> wire c" "announced c = X" by (auto simp: demo_net_def)
  from net_run [OF c(1) act [OF _ demo_delivers_wire [OF assms(3) c(4)]]] show ?thesis
    using assms(2) c unfolding demo_net_def by fastforce
qed

lemma demo_net_B:
  assumes "demo_net a b W X" "step demo_env x b b'" "demo_delivers W pB x"
  shows "demo_net a b' (W \<union> packets demo_env pB b') (X \<union> published demo_env b x)"
proof -
  from assms(1) obtain c where c: "net_reachable (\<lambda>p. demo_env) c" "nodes c pA = a" "nodes c pB = b"
    "W \<subseteq> wire c" "announced c = X" by (auto simp: demo_net_def)
  from net_run [OF c(1) act [OF _ demo_delivers_wire [OF assms(3) c(4)]]] show ?thesis
    using assms(2) c unfolding demo_net_def by fastforce
qed

definition demo_mkey :: string where "demo_mkey = msgChansKey GetMasterPlaylistReqID demo_strm"
definition demo_ret :: "node outcome \<Rightarrow> node" where
  "demo_ret r = (case r of Returns s \<Rightarrow> s | _ \<Rightarrow> new_node [] None)"

definition demo_reqb :: bytes where "demo_reqb = char_of (unat GetMasterPlaylistReqID) # demo_strm"
definition demo_ansb :: bytes where
  "demo_ansb = char_of (unat MasterPlaylistDataID) # demo_strm @ CHR ''|'' # CHR ''f'' # decimal 7"

definition demo_a1 :: node where "demo_a1 = snd (GetMasterPlaylist demo_env (new_node pA None) demo_strm)"
definition demo_a2 :: node where
  "demo_a2 = demo_ret (reqStart demo_env 2 1 demo_mkey pB (mpl_request demo_strm) demo_a1)"
definition demo_a3 :: node where
  "demo_a3 = demo_ret (reqLoop demo_env 2 1 demo_mkey (mpl_request demo_strm) [pMe, pC, pA, pB] demo_a2)"
definition demo_a4 :: node where
  "demo_a4 = the (reqTimer 2 1 demo_mkey (mpl_request demo_strm) [pC, pA, pB] demo_a3)"
definition demo_a5 :: node where
  "demo_a5 = demo_ret (reqLoop demo_env 2 1 demo_mkey (mpl_request demo_strm) [pC, pA, pB] demo_a4)"
definition demo_b1 :: node where "demo_b1 = snd (UpdateMasterPlaylist (new_node pB None) demo_strm (Some (Playlist 7)))"
definition demo_b2 :: node where "demo_b2 = demo_handled (protocolLoop demo_env pA [RxJson demo_reqb] demo_b1)"
definition demo_a6 :: node where "demo_a6 = demo_handled (protocolLoop demo_env pB [RxJson demo_ansb] demo_a5)"
definition demo_a7 :: node where
  "demo_a7 = the (reqResponse 2 1 demo_mkey (mpl_request demo_strm) [] demo_a6)"

lemmas demo_ask_defs = GetMasterPlaylist_def getMasterPlaylistWithRelay_def getResponseWithRelay_def
  new_chan_def snew_def Let_def new_node_def empty_store_def sget_def sput_def GetNodeID_def
  demo_mkey_def [symmetric] set_recv_def spawn_def ends_def

lemma demo_extract_B [simp]: "extractNodeID demo_env pB = Inr pB"
  by (simp add: extractNodeID_def)

lemma demo_strm_bar: "CHR ''|'' \<notin> set demo_strm"
  by (simp add: demo_strm_def)

lemma demo_a1_gos: "gos demo_a1 = [GO_ReqStart 2 1 demo_mkey pB (mpl_request demo_strm), GO_MplWait 1 0]"
  by (simp add: demo_a1_def demo_ask_defs)

lemma demo_a2_run: "reqStart demo_env 2 1 demo_mkey pB (mpl_request demo_strm) demo_a1 = Returns demo_a2"
  "gos demo_a2 = [GO_MplWait 1 0, GO_ReqLoop 2 1 demo_mkey (mpl_request demo_strm) [pMe, pC, pA, pB]]"
  by (simp_all add: demo_a2_def demo_ret_def reqStart_def ClosestLocalPeers_def demo_a1_gos Let_def)

lemma demo_a_init:
  "identity demo_a2 = pA" "outStreams demo_a2 = []" "hist demo_a2 = []"
  "chans demo_a2 = chans demo_a1" "msgChans demo_a2 = [(demo_mkey, 2)]"
  by (simp_all add: demo_a2_def demo_ret_def reqStart_def ClosestLocalPeers_def demo_a1_gos Let_def
      demo_a1_def demo_ask_defs)

lemma demo_a3_run:
  "reqLoop demo_env 2 1 demo_mkey (mpl_request demo_strm) [pMe, pC, pA, pB] demo_a2 = Returns demo_a3"
  "gos demo_a3 = [GO_MplWait 1 0, GO_ReqWait 2 1 demo_mkey (mpl_request demo_strm) [pC, pA, pB]]"
  "identity demo_a3 = pA" "outStreams demo_a3 = []" "ch_recv (sget (chans demo_a3) 2)"
  by (simp_all add: demo_a3_def demo_ret_def reqLoop_def demo_a_init demo_a2_run send_simps set_recv_def)

lemma demo_a4_run:
  "reqTimer 2 1 demo_mkey (mpl_request demo_strm) [pC, pA, pB] demo_a3 = Some demo_a4"
  "gos demo_a4 = [GO_MplWait 1 0, GO_ReqLoop 2 1 demo_mkey (mpl_request demo_strm) [pC, pA, pB]]"
  "identity demo_a4 = pA" "outStreams demo_a4 = []"
  by (simp_all add: demo_a4_def reqTimer_def demo_a3_run)

lemma demo_a5_run:
  "reqLoop demo_env 2 1 demo_mkey (mpl_request demo_strm) [pC, pA, pB] demo_a4 = Returns demo_a5"
  "gos demo_a5 = [GO_MplWait 1 0, GO_ReqWait 2 1 demo_mkey (mpl_request demo_strm) []]"
  "ch_recv (sget (chans demo_a5) 2)"
  "E_Flush 2 (mpl_request demo_strm) True \<in> set (hist demo_a5)"
  by (simp_all add: demo_a5_def demo_ret_def reqLoop_def demo_a4_run send_simps set_recv_def)

lemma demo_chan:
  "msgChans demo_a3 = [(demo_mkey, 2)]" "msgChans demo_a4 = [(demo_mkey, 2)]" "msgChans demo_a5 = [(demo_mkey, 2)]"
  "\<not> ch_closed (sget (chans demo_a3) 2)" "\<not> ch_closed (sget (chans demo_a4) 2)" "\<not> ch_closed (sget (chans demo_a5) 2)"
  "\<not> list_ex (\<lambda>e. case e of E_CacheAdd k' \<Rightarrow> k' = k | _ \<Rightarrow> False) (hist demo_a3)"
  "\<not> list_ex (\<lambda>e. case e of E_CacheAdd k' \<Rightarrow> k' = k | _ \<Rightarrow> False) (hist demo_a4)"
  "\<not> list_ex (\<lambda>e. case e of E_CacheAdd k' \<Rightarrow> k' = k | _ \<Rightarrow> False) (hist demo_a5)"
  by (simp_all add: demo_a3_def demo_a4_def demo_a5_def demo_ret_def reqLoop_def reqTimer_def demo_a_init
      demo_a2_run demo_a3_run demo_a4_run send_simps set_recv_def demo_a1_def demo_ask_defs)

lemma demo_wire_req:
  "MarshalJSON demo_env (mpl_request demo_strm) = Inr demo_reqb"
  "ReceiveMessage demo_env (RxJson demo_reqb) = Inr (mpl_request demo_strm)"
proof -
  show m: "MarshalJSON demo_env (mpl_request demo_strm) = Inr demo_reqb"
    by (simp add: MarshalJSON_def marshal_data_def demo_reqb_def)
  show "ReceiveMessage demo_env (RxJson demo_reqb) = Inr (mpl_request demo_strm)"
    by (rule wire [OF _ demo_gob demo_json _ _ m]) (simp_all add: same_formats_def well_typed_def)
qed

lemma demo_wire_ans:
  "MarshalJSON demo_env (mpl_answer demo_strm (decimal 7)) = Inr demo_ansb"
  "ReceiveMessage demo_env (RxJson demo_ansb) = Inr (mpl_answer demo_strm (decimal 7))"
proof -
  show m: "MarshalJSON demo_env (mpl_answer demo_strm (decimal 7)) = Inr demo_ansb"
    by (simp add: MarshalJSON_def marshal_data_def demo_ansb_def demo_pair_def demo_strm_bar demo_flag_def)
  show "ReceiveMessage demo_env (RxJson demo_ansb) = Inr (mpl_answer demo_strm (decimal 7))"
    by (rule wire [OF _ demo_gob demo_json _ _ m]) (simp_all add: same_formats_def well_typed_def)
qed

lemma demo_b2_run:
  "protocolLoop demo_env pA [RxJson demo_reqb] demo_b1 = Returns (True, [], demo_b2)
   \<and> E_Flush 1 (mpl_answer demo_strm (decimal 7)) True \<in> set (hist demo_b2)"
proof -
  have "unseen demo_env demo_b1 pA (mpl_request demo_strm)"
    by (simp add: unseen_def demo_b1_def UpdateMasterPlaylist_def new_node_def)
  from unseen_dispatched [OF demo_wire_req(2) _ this] obtain k
    where "streamHandler demo_env demo_b1 pA (RxJson demo_reqb)
      = route demo_env (log (E_CacheAdd k) (log (E_Recv pA) demo_b1)) pA (D_GetMasterPlaylistReq \<lparr>mr_ManifestID = demo_strm\<rparr>)"
    by auto
  then show ?thesis
    by (simp add: demo_b2_def demo_handled_def handleGetMasterPlaylistReq_def demo_b1_def UpdateMasterPlaylist_def
        new_node_def count_msg_def reply_def as_handle_error_def send_simps demo_pair_def demo_strm_bar)
qed

lemma demo_a6_run:
  "protocolLoop demo_env pB [RxJson demo_ansb] demo_a5 = Returns (True, [], demo_a6)
   \<and> ch_val (sget (chans demo_a6) 2) = Some (V_Msg (mpl_answer demo_strm (decimal 7)))
   \<and> GO_ReqWait 2 1 demo_mkey (mpl_request demo_strm) [] \<in> set (gos demo_a6)"
proof -
  have "unseen demo_env demo_a5 pB (mpl_answer demo_strm (decimal 7))"
    using demo_chan(9) by (simp add: unseen_def)
  from unseen_dispatched [OF demo_wire_ans(2) _ this] obtain k
    where "streamHandler demo_env demo_a5 pB (RxJson demo_ansb)
      = route demo_env (log (E_CacheAdd k) (log (E_Recv pB) demo_a5)) pB (Data (mpl_answer demo_strm (decimal 7)))"
    by auto
  then show ?thesis
    using demo_chan
    by (simp add: demo_a6_def demo_handled_def handleMasterPlaylistDataMsg_def count_msg_def chan_send_def Let_def
        demo_mkey_def demo_a5_run)
qed

lemma demo_a7_run:
  "reqResponse 2 1 demo_mkey (mpl_request demo_strm) [] demo_a6 = Some demo_a7"
  "GO_ReqReturn 2 1 demo_mkey (mpl_answer demo_strm (decimal 7)) \<in> set (gos demo_a7)"
  using demo_a6_run by (simp_all add: demo_a7_def reqResponse_def)

lemma demo_net_weaken: "demo_net a b W X \<Longrightarrow> W' \<subseteq> W \<Longrightarrow> demo_net a b W' X"
  unfolding demo_net_def by blast

lemma demo_net_A_other: "demo_net a b W X \<Longrightarrow> step demo_env A_Other a a' \<Longrightarrow> demo_net a' b W X"
  by (rule demo_net_weaken [of _ _ "W \<union> packets demo_env pA a'"]) (use demo_net_A in fastforce)+

lemma demo_net_A_receive:
  "demo_net a b W X \<Longrightarrow> step demo_env (A_Receive q (RxJson y)) a a' \<Longrightarrow> (q, pA, y) \<in> W \<Longrightarrow> demo_net a' b W X"
  by (rule demo_net_weaken [of _ _ "W \<union> packets demo_env pA a'"]) (use demo_net_A in fastforce)+

lemma demo_packet_A:
  "demo_net a b W X \<Longrightarrow> step demo_env A_Other a a' \<Longrightarrow> E_Flush sh m ok \<in> set (hist a') \<Longrightarrow>
     MarshalJSON demo_env m = Inr y \<Longrightarrow> demo_net a' b {(pA, demo_remote sh, y)} X"
  by (rule demo_net_weaken [of _ _ "W \<union> packets demo_env pA a'"]) (use demo_net_A in \<open>fastforce simp: packets_def\<close>)+

lemma demo_packet_B:
  "demo_net a b W X \<Longrightarrow> step demo_env (A_Receive q (RxJson y')) b b' \<Longrightarrow> (q, pB, y') \<in> W \<Longrightarrow>
     E_Flush sh m ok \<in> set (hist b') \<Longrightarrow> MarshalJSON demo_env m = Inr y \<Longrightarrow> demo_net a b' {(pB, demo_remote sh, y)} X"
  by (rule demo_net_weaken [of _ _ "W \<union> packets demo_env pB b'"]) (use demo_net_B in \<open>fastforce simp: packets_def\<close>)+

lemma demo_net_asked: "\<exists>b W. demo_net demo_a7 b W {PlaylistText demo_strm (decimal 7)}"
proof -
  let ?X = "{PlaylistText demo_strm (decimal 7)}"
  have 1: "step demo_env (A_UpdatePlaylist demo_strm (Some (Playlist 7))) (new_node pB None) demo_b1"
    by (rule s_UpdateMasterPlaylist [of _ _ _ None]) (simp add: demo_b1_def UpdateMasterPlaylist_def)
  have 2: "step demo_env A_Other (new_node pA None) demo_a1"
    unfolding demo_a1_def by (rule s_GetMasterPlaylist) (rule prod.collapse [symmetric])
  have 3: "step demo_env A_Other demo_a1 demo_a2"
    by (rule s_reqStart [OF _ demo_a2_run(1)]) (simp add: demo_a1_gos)
  have 4: "step demo_env A_Other demo_a2 demo_a3"
    by (rule s_reqLoop [OF _ demo_a3_run(1)]) (simp add: demo_a2_run)
  have 5: "step demo_env A_Other demo_a3 demo_a4"
    by (rule s_reqTimer [OF _ demo_a4_run(1)]) (simp add: demo_a3_run)
  have 6: "step demo_env A_Other demo_a4 demo_a5"
    by (rule s_reqLoop [OF _ demo_a5_run(1)]) (simp add: demo_a4_run)
  have 7: "step demo_env (A_Receive pA (RxJson demo_reqb)) demo_b1 demo_b2"
    by (rule s_receive [OF demo_b2_run [THEN conjunct1]])
  have 8: "step demo_env (A_Receive pB (RxJson demo_ansb)) demo_a5 demo_a6"
    by (rule s_receive [OF demo_a6_run [THEN conjunct1]])
  have 9: "step demo_env A_Other demo_a6 demo_a7"
    by (rule s_reqResponse [OF demo_a6_run [THEN conjunct2, THEN conjunct2] demo_a7_run(1)])
  have "demo_net (new_node pA None) demo_b1 {} ?X"
    using demo_net_weaken [OF demo_net_B [OF demo_net_start 1], of "{}"] by simp
  then have "demo_net demo_a4 demo_b1 {} ?X"
    by (intro demo_net_A_other [OF _ 5] demo_net_A_other [OF _ 4] demo_net_A_other [OF _ 3] demo_net_A_other [OF _ 2])
  then have "demo_net demo_a5 demo_b1 {(pA, pB, demo_reqb)} ?X"
    using demo_packet_A [OF _ 6 demo_a5_run(4) demo_wire_req(1)] by simp
  then have "demo_net demo_a5 demo_b2 {(pB, pA, demo_ansb)} ?X"
    using demo_packet_B [OF _ 7 _ demo_b2_run [THEN conjunct2] demo_wire_ans(1)] by simp
  from demo_net_A_other [OF demo_net_A_receive [OF this 8] 9] show ?thesis by blast
qed

section \<open>Properties\<close>

lemma got_data_logged: "(n, d, eof) \<in> set (got_data p h) \<Longrightarrow> E_GotData p n d eof \<in> set h"
  by (induction p h rule: got_data.induct) (auto split: if_split_asm)

text \<open>
  C1. No segment comes from nowhere: in a network of nodes that run this code and agree on the wire
  formats, whatever is lost, repeated, reordered or restarted, every segment that a subscriber hands
  to its client is, with its number and its bytes, a segment that a client somewhere in the network
  has broadcast on the very stream that this subscriber is for.
\<close>

theorem segments_are_genuine:
  assumes "net_reachable envs c" and "agree envs"
    and "(n, d, False) \<in> set (got_data sp (hist (nodes c p)))"
  shows "Segment (s_StrmID (get_s (nodes c p) sp)) n d \<in> announced c"
proof -
  have "E_GotData sp n d False \<in> set (hist (nodes c p))" by (rule got_data_logged [OF assms(3)])
  then show ?thesis using net_genuine [OF assms(1,2)] by (fastforce simp: genuine_def carries_def)
qed

lemma segments_are_genuine_witness:
  "\<exists>c. net_reachable (\<lambda>p. demo_env) c \<and> got_data 0 (hist (nodes c pMe)) = [(7, ''x'', False)]
     \<and> Segment (s_StrmID (get_s (nodes c pMe) 0)) 7 ''x'' \<in> announced c"
proof -
  obtain c where c: "net_reachable (\<lambda>p. demo_env) c" "nodes c pMe = demo_n7" using demo_net_run by (auto simp: demo_ran_def)
  have g: "got_data 0 (hist (nodes c pMe)) = [(7, ''x'', False)]" using c(2) demo_run_end(3) by simp
  then have "(7, ''x'', False) \<in> set (got_data 0 (hist (nodes c pMe)))" by simp
  from segments_are_genuine [OF c(1) demo_agree this] c(1) g show ?thesis by blast
qed

text \<open>
  C7. Answers are genuine: in such a network an answer that the goroutine of a playlist request is
  about to hand to its client is for the manifest that was asked for, and says that it was not found
  or holds a playlist that a client has published for that manifest; the answer to a status request
  is the status of the node asked for; and what is handed to a callback for transcoding results is a
  result that a client has sent.
\<close>

theorem answers_are_genuine:
  assumes "net_reachable envs c" and "agree envs"
  shows "(GO_ReqReturn ch rc (msgChansKey GetMasterPlaylistReqID mid) m \<in> set (gos (nodes c p)) \<longrightarrow>
            (\<exists>d. Data m = D_MasterPlaylistData d \<and> md_ManifestID d = mid
               \<and> (md_NotFound d \<or> PlaylistText mid (md_MPL d) \<in> announced c)))
       \<and> (GO_ReqReturn ch rc (msgChansKey NodeStatusReqID nid) m \<in> set (gos (nodes c p)) \<longrightarrow>
            (\<exists>d. Data m = D_NodeStatusData d \<and> nd_NodeID d = nid))
       \<and> (E_Callback cb r \<in> set (hist (nodes c p)) \<longrightarrow> (\<exists>k. TranscodeResult k r \<in> announced c))"
proof -
  have ca: "carries (envs p) (announced c) (nodes c p)" and re: "reachable (envs p) (nodes c p)"
    using net_genuine [OF assms] by (auto simp: genuine_def)
  obtain ty where ty: "typed ty [] (nodes c p)" using typs.reachable_inv [OF re] by (auto simp: channels_typed_def)
  have ans: "answers k m" if "GO_ReqReturn ch rc k m \<in> set (gos (nodes c p))" for k
    using ty that by (fastforce simp: typed_def)
  have con: "carried (Data m) \<subseteq> announced c" if "GO_ReqReturn ch rc k m \<in> set (gos (nodes c p))" for k
    using ca that by (fastforce simp: carries_def)
  have "\<exists>k. TranscodeResult k r \<in> announced c" if "E_Callback cb r \<in> set (hist (nodes c p))"
    using ca that by (fastforce simp: carries_def)
  then show ?thesis using ans con by (fastforce simp: answers_def split: if_split_asm)
qed

lemma answers_are_genuine_witness:
  "\<exists>c :: net. GO_ReqReturn 2 1 demo_mkey (mpl_answer demo_strm (decimal 7)) \<in> set (gos (nodes c pA))
     \<and> PlaylistText demo_strm (decimal 7) \<in> announced c"
proof -
  obtain c where c: "net_reachable (\<lambda>p. demo_env) c" "nodes c pA = demo_a7"
    using demo_net_asked by (auto simp: demo_net_def)
  have g: "GO_ReqReturn 2 1 (msgChansKey GetMasterPlaylistReqID demo_strm) (mpl_answer demo_strm (decimal 7)) \<in> set (gos (nodes c pA))"
    using demo_a7_run(2) c(2) by (simp add: demo_mkey_def)
  with answers_are_genuine [OF c(1) demo_agree] have "PlaylistText demo_strm (decimal 7) \<in> announced c" by fastforce
  with g show ?thesis unfolding demo_mkey_def by blast
qed

end
