(* ===== verification/Example.thy ===== *)
theory Example
  imports NetworkNode
begin

text \<open>
  The example program (\<^verbatim>\<open>cmd/example.go\<close>): a node that either waits for streams and
  reads them, or asks another node for the stream \<^verbatim>\<open>test\<close>. Its flags are arguments here;
  the node that \<^verbatim>\<open>NewNode\<close> returned is one too, or the error that the program ignores.
\<close>

section \<open>The handler\<close>

definition exampleStreamHandler :: "env \<Rightarrow> node \<Rightarrow> peerID \<Rightarrow> rx \<Rightarrow> go_error option \<times> node" where
  "exampleStreamHandler env s remote x =
     (case ReceiveMessage env x of
        Inl err \<Rightarrow> (Some err, s)
      | Inr msg \<Rightarrow> (None, log (E_Recv remote) s))"

text \<open>The loop over what a stream yields: whether it is still open, what was not read, the node.\<close>

fun exampleLoop :: "env \<Rightarrow> peerID \<Rightarrow> rx list \<Rightarrow> node \<Rightarrow> bool \<times> rx list \<times> node" where
  "exampleLoop env remote [] s = (True, [], s)"
| "exampleLoop env remote (x # xs) s =
     (case exampleStreamHandler env s remote x of
        (Some err, s1) \<Rightarrow> (False, xs, log (E_CloseIncoming remote) s1)
      | (None, s1) \<Rightarrow> exampleLoop env remote xs s1)"

section \<open>The program\<close>

record example =
  ex_node :: node
  ex_handles :: bool \<comment> \<open>the handler of incoming streams is installed\<close>

definition setHandler :: "example \<Rightarrow> example" where
  "setHandler n = n\<lparr>ex_handles := True\<rparr>"

text \<open>
  Where the main goroutine ends up: in the loop of \<^verbatim>\<open>pingtest\<close> that calls
  \<^verbatim>\<open>setHandler\<close> again and again, in its \<^verbatim>\<open>select\<close>, after \<^verbatim>\<open>main\<close>, or in a
  nil dereference.
\<close>

datatype example_end = Spins | Waits | Exits | Crashes

definition pingtest :: "env \<Rightarrow> bool \<Rightarrow> example \<Rightarrow> peerID \<Rightarrow> example_end \<times> example" where
  "pingtest env initiate n pid =
     (if initiate
      then (case GetOutStream env (ex_node n) pid of
              (strm, s1) \<Rightarrow>
                let s2 = snd (SendMessage env s1 (Basic strm) SubReqID (D_SubReq \<lparr>sr_StrmID = ''test''\<rparr>))
                in (Spins, setHandler (n\<lparr>ex_node := s2\<rparr>)))
      else (Waits, setHandler n))"

text \<open>
  \<^verbatim>\<open>main\<close> from the flags on: every error is ignored. An id that cannot be decoded is the
  empty id; an address that cannot be parsed is nil, which the peerstore does not add.
\<close>

definition example_main ::
  "env \<Rightarrow> go_error + node \<Rightarrow> string \<Rightarrow> string \<Rightarrow> bool \<Rightarrow> bool \<Rightarrow> example_end \<times> example option" where
  "example_main env made ident addr initiate ping =
     (case made of
        Inl _ \<Rightarrow> (if ident \<noteq> [] \<or> ping then (Crashes, None) else (Exits, None))
      | Inr s \<Rightarrow>
          let pid = (case IDHexDecode env ident of Inl _ \<Rightarrow> [] | Inr p \<Rightarrow> p);
              paddrs = (case NewMultiaddr env addr of Inl _ \<Rightarrow> [] | Inr a \<Rightarrow> [a]);
              s1 = (if ident \<noteq> [] then log (E_AddPeer pid paddrs) s else s);
              n = \<lparr>ex_node = s1, ex_handles = False\<rparr>
          in if ping then (case pingtest env initiate n pid of (e, n1) \<Rightarrow> (e, Some n1))
             else (Exits, Some n))"

section \<open>Properties\<close>

lemma setHandler_again [simp]: "setHandler (setHandler n) = setHandler n"
  by (simp add: setHandler_def)

text \<open>A message that can be read.\<close>

definition readable :: "env \<Rightarrow> rx \<Rightarrow> bool" where
  "readable env x \<longleftrightarrow> (\<exists>m. ReceiveMessage env x = Inr m)"

lemma exampleLoop_reads:
  "exampleLoop env q xs s =
     (let s1 = s\<lparr>hist := replicate (length (takeWhile (readable env) xs)) (E_Recv q) @ hist s\<rparr>
      in case dropWhile (readable env) xs of
           [] \<Rightarrow> (True, [], s1)
         | x # rest \<Rightarrow> (False, rest, log (E_CloseIncoming q) s1))"
proof (induction xs arbitrary: s)
  case (Cons x xs)
  show ?case
  proof (cases "ReceiveMessage env x")
    case (Inl e)
    then have "\<not> readable env x" by (simp add: readable_def)
    then show ?thesis using Inl by (simp add: exampleStreamHandler_def)
  next
    case (Inr m)
    have shift: "replicate n a @ a # h = a # replicate n a @ h" for n and a :: effect and h
      by (induction n) auto
    from Inr have "readable env x" by (simp add: readable_def)
    then show ?thesis
      using Inr by (simp add: exampleStreamHandler_def Cons.IH log_def shift Let_def split: list.split del: dropWhile_eq_Nil_conv)
  qed
qed simp



end
