(* ===== verification/Mutex.thy ===== *)
theory Mutex
  imports NetworkNode
begin

text \<open>
  Goroutines and a \<^verbatim>\<open>sync.Mutex\<close>. The other theories run an operation of the node as one
  step; the two locks of the code (\<^verbatim>\<open>outStreamsLock\<close> of a node and \<^verbatim>\<open>el\<close> of an
  outgoing stream) protect operations that are made of several. Here is the contract of a lock,
  over the configurations of any number of goroutines: \<open>turn t c\<close> is the next statement of
  goroutine \<open>t\<close> (none when it waits or has returned), \<open>holder c\<close> the owner of the lock and
  \<open>inside c t\<close> whether \<open>t\<close> is between \<^verbatim>\<open>Lock\<close> and \<^verbatim>\<open>Unlock\<close>.
\<close>

locale mutex =
  fixes turn :: "nat \<Rightarrow> 'c \<Rightarrow> 'c option"
    and holder :: "'c \<Rightarrow> nat option"
    and inside :: "'c \<Rightarrow> nat \<Rightarrow> bool"
  assumes other: "turn t c = Some c' \<Longrightarrow> u \<noteq> t \<Longrightarrow> inside c' u = inside c u"
    and enter: "turn t c = Some c' \<Longrightarrow> \<not> inside c t \<Longrightarrow> inside c' t \<Longrightarrow> holder c = None \<and> holder c' = Some t"
    and leave: "turn t c = Some c' \<Longrightarrow> inside c t \<Longrightarrow> \<not> inside c' t \<Longrightarrow> holder c' = None"
    and keep: "turn t c = Some c' \<Longrightarrow> inside c t = inside c' t \<Longrightarrow> holder c' = holder c"
    and moves: "inside c t \<Longrightarrow> turn t c \<noteq> None"
begin

definition guarded :: "'c \<Rightarrow> bool" where
  "guarded c \<longleftrightarrow> (\<forall>t. inside c t \<longleftrightarrow> holder c = Some t)"

lemma guardedD: "guarded c \<Longrightarrow> inside c t \<longleftrightarrow> holder c = Some t"
  by (simp add: guarded_def)

lemma guarded_start: "holder c = None \<Longrightarrow> (\<And>t. \<not> inside c t) \<Longrightarrow> guarded c"
  by (simp add: guarded_def)

lemma guarded_cong: "holder c' = holder c \<Longrightarrow> (\<And>t. inside c' t = inside c t) \<Longrightarrow> guarded c \<Longrightarrow> guarded c'"
  by (simp add: guarded_def)

lemma guarded_turn:
  assumes "turn t c = Some c'" "guarded c"
  shows "guarded c'"
  unfolding guarded_def
proof
  fix u
  note g = guardedD [OF assms(2)]
  show "inside c' u \<longleftrightarrow> holder c' = Some u"
  proof (cases "u = t")
    case True
    then show ?thesis using enter [OF assms(1)] leave [OF assms(1)] keep [OF assms(1)] g by fastforce
  next
    case False
    then show ?thesis
      using other [OF assms(1) False] enter [OF assms(1)] leave [OF assms(1)] keep [OF assms(1)] g by fastforce
  qed
qed

text \<open>At most one goroutine is inside, and whoever waits for the lock waits for one that can move.\<close>

lemma alone: "guarded c \<Longrightarrow> inside c t \<Longrightarrow> inside c u \<Longrightarrow> t = u"
  by (simp add: guarded_def)

lemma free: "guarded c \<Longrightarrow> holder c = None \<Longrightarrow> \<not> inside c t"
  by (simp add: guarded_def)

lemma holder_moves: "guarded c \<Longrightarrow> holder c = Some t \<Longrightarrow> turn t c \<noteq> None"
  using moves by (simp add: guarded_def)

end

end
