(* ===== verification/StreamTable.thy ===== *)
theory StreamTable
  imports Mutex
begin

text \<open>
  The table of outgoing streams under concurrent calls (\<^verbatim>\<open>network_node.go\<close>): the statements
  of \<^verbatim>\<open>GetOutStream\<close>, \<^verbatim>\<open>RefreshOutStream\<close> and \<^verbatim>\<open>RemoveStream\<close> one by one,
  run by any number of goroutines in any order, while the rest of the node goes on. Calls that
  take \<^verbatim>\<open>outStreamsLock\<close> behave as the atomic operations of the theory \<open>Streams\<close> in the
  order in which they take effect; the refresh that \<^verbatim>\<open>sendMessageWithRetry\<close> makes without the
  lock does not.
\<close>

section \<open>The statements\<close>

datatype call = C_Get peerID | C_Refresh peerID | C_Remove peerID

text \<open>
  The next statement of a goroutine. The flag of the statements of \<^verbatim>\<open>RefreshOutStream\<close> tells
  whether it was called by \<^verbatim>\<open>GetOutStream\<close>, which holds the lock.
\<close>

datatype pc =
    P_LockGet peerID
  | P_LockRemove peerID
  | P_Lookup peerID
  | P_Cached peerID bool
  | P_Dial peerID bool
  | P_Store peerID strmh bool
  | P_Delete peerID
  | P_Unlock "strmh option"
  | P_Done "strmh option"

fun first_pc :: "call \<Rightarrow> pc" where
  "first_pc (C_Get p) = P_LockGet p"
| "first_pc (C_Refresh p) = P_Cached p False"
| "first_pc (C_Remove p) = P_LockRemove p"

definition refreshed :: "bool \<Rightarrow> strmh option \<Rightarrow> pc" where
  "refreshed l r = (if l then P_Unlock r else P_Done r)"

record conc =
  c_node :: node
  c_holder :: "nat option"
  c_pc :: "nat \<Rightarrow> pc"

abbreviation goto :: "nat \<Rightarrow> pc \<Rightarrow> conc \<Rightarrow> conc" where
  "goto t k c \<equiv> c\<lparr>c_pc := (c_pc c)(t := k)\<rparr>"

definition turn :: "env \<Rightarrow> nat \<Rightarrow> conc \<Rightarrow> conc option" where
  "turn env t c =
     (let s = c_node c in
      case c_pc c t of
        P_LockGet p \<Rightarrow> (if c_holder c = None then Some (goto t (P_Lookup p) (c\<lparr>c_holder := Some t\<rparr>)) else None)
      | P_LockRemove p \<Rightarrow> (if c_holder c = None then Some (goto t (P_Delete p) (c\<lparr>c_holder := Some t\<rparr>)) else None)
      | P_Lookup p \<Rightarrow>
          Some (goto t (case mget (outStreams s) p of Some sh \<Rightarrow> P_Unlock (Some sh) | None \<Rightarrow> P_Cached p True) c)
      | P_Cached p l \<Rightarrow>
          Some (goto t (P_Dial p l)
            (c\<lparr>c_node := (case mget (outStreams s) p of Some sh \<Rightarrow> log (E_Reset sh) s | None \<Rightarrow> s)\<rparr>))
      | P_Dial p l \<Rightarrow>
          Some (case NewStream env (hist s) p of
             Inl _ \<Rightarrow> goto t (refreshed l None) (c\<lparr>c_node := log (E_NewStream p None) s\<rparr>)
           | Inr sh \<Rightarrow> goto t (P_Store p sh l) (c\<lparr>c_node := log (E_NewStream p (Some sh)) s\<rparr>))
      | P_Store p sh l \<Rightarrow>
          Some (goto t (refreshed l (Some sh)) (c\<lparr>c_node := s\<lparr>outStreams := mput (outStreams s) p sh\<rparr>\<rparr>))
      | P_Delete p \<Rightarrow> Some (goto t (P_Unlock None) (c\<lparr>c_node := s\<lparr>outStreams := mdel (outStreams s) p\<rparr>\<rparr>))
      | P_Unlock r \<Rightarrow> Some (goto t (P_Done r) (c\<lparr>c_holder := None\<rparr>))
      | P_Done r \<Rightarrow> None)"

fun inside_pc :: "pc \<Rightarrow> bool" where
  "inside_pc (P_Lookup p) = True"
| "inside_pc (P_Cached p l) = l"
| "inside_pc (P_Dial p l) = l"
| "inside_pc (P_Store p sh l) = l"
| "inside_pc (P_Delete p) = True"
| "inside_pc (P_Unlock r) = True"
| "inside_pc k = False"

definition inside :: "conc \<Rightarrow> nat \<Rightarrow> bool" where
  "inside c t = inside_pc (c_pc c t)"

text \<open>
  Two goroutines race when both are about to use the map of streams and one of them to write it,
  which the Go runtime may end with a fatal error.
\<close>

fun uses_map :: "pc \<Rightarrow> bool" where
  "uses_map (P_Lookup p) = True"
| "uses_map (P_Cached p l) = True"
| "uses_map (P_Store p sh l) = True"
| "uses_map (P_Delete p) = True"
| "uses_map k = False"

fun writes_map :: "pc \<Rightarrow> bool" where
  "writes_map (P_Store p sh l) = True"
| "writes_map (P_Delete p) = True"
| "writes_map k = False"

definition race :: "conc \<Rightarrow> nat \<Rightarrow> nat \<Rightarrow> bool" where
  "race c t u \<longleftrightarrow> t \<noteq> u \<and> writes_map (c_pc c t) \<and> uses_map (c_pc c u)"

section \<open>Runs, and the atomic operations\<close>

text \<open>What the rest of the node does does not look at the table of streams.\<close>

definition apart :: "(node \<Rightarrow> node) \<Rightarrow> bool" where
  "apart f \<longleftrightarrow> (\<forall>s m. f (s\<lparr>outStreams := m\<rparr>) = (f s)\<lparr>outStreams := m\<rparr>)"

datatype event = Ev_Call nat | Ev_Other "node \<Rightarrow> node"

text \<open>
  The statement with which a call that holds the lock takes effect: a lookup that finds a stream,
  the answer of the host, or the deletion.
\<close>

fun effective :: "node \<Rightarrow> pc \<Rightarrow> bool" where
  "effective s (P_Lookup p) = (mget (outStreams s) p \<noteq> None)"
| "effective s (P_Dial p l) = l"
| "effective s (P_Delete p) = True"
| "effective s k = False"

inductive crun :: "env \<Rightarrow> (nat \<Rightarrow> call) \<Rightarrow> node \<Rightarrow> event list \<Rightarrow> conc \<Rightarrow> bool" for env calls s where
  start: "crun env calls s [] \<lparr>c_node = s, c_holder = None, c_pc = (\<lambda>t. first_pc (calls t))\<rparr>"
| turn: "crun env calls s es c \<Longrightarrow> turn env t c = Some c' \<Longrightarrow>
    crun env calls s (es @ (if effective (c_node c) (c_pc c t) then [Ev_Call t] else [])) c'"
| other: "crun env calls s es c \<Longrightarrow> apart f \<Longrightarrow> crun env calls s (es @ [Ev_Other f]) (c\<lparr>c_node := f (c_node c)\<rparr>)"

fun atomic :: "env \<Rightarrow> call \<Rightarrow> node \<Rightarrow> strmh option \<times> node" where
  "atomic env (C_Get p) s = GetOutStream env s p"
| "atomic env (C_Refresh p) s = RefreshOutStream env s p"
| "atomic env (C_Remove p) s = (None, RemoveStream s p)"

text \<open>The events one after the other, with the results of the calls.\<close>

fun serial :: "env \<Rightarrow> (nat \<Rightarrow> call) \<Rightarrow> event list \<Rightarrow> node \<times> (nat \<rightharpoonup> strmh option) \<Rightarrow> node \<times> (nat \<rightharpoonup> strmh option)" where
  "serial env calls [] st = st"
| "serial env calls (Ev_Call t # es) st =
     (let (r, s') = atomic env (calls t) (fst st) in serial env calls es (s', (snd st)(t \<mapsto> r)))"
| "serial env calls (Ev_Other f # es) st = serial env calls es (f (fst st), snd st)"

lemma serial_append: "serial env calls (es @ es') st = serial env calls es' (serial env calls es st)"
  by (induction env calls es st rule: serial.induct) (simp_all add: split_beta)

fun callers :: "event list \<Rightarrow> nat list" where
  "callers [] = []"
| "callers (Ev_Call t # es) = t # callers es"
| "callers (Ev_Other f # es) = callers es"

lemma callers_append [simp]: "callers (es @ es') = callers es @ callers es'"
  by (induction es rule: callers.induct) simp_all

text \<open>The node once the stream that was opened, but not yet stored, is in the table.\<close>

definition settle :: "conc \<Rightarrow> node" where
  "settle c = (case c_holder c of
      None \<Rightarrow> c_node c
    | Some t \<Rightarrow> (case c_pc c t of
         P_Store p sh l \<Rightarrow> (c_node c)\<lparr>outStreams := mput (outStreams (c_node c)) p sh\<rparr>
       | _ \<Rightarrow> c_node c))"

section \<open>Calls that take the lock\<close>

lemmas turn_simps = turn_def Let_def inside_def refreshed_def

lemma turn_holder: "turn env t c = Some c' \<Longrightarrow> c_holder c' =
    (case c_pc c t of P_LockGet p \<Rightarrow> Some t | P_LockRemove p \<Rightarrow> Some t | P_Unlock r \<Rightarrow> None | _ \<Rightarrow> c_holder c)"
  by (cases "c_pc c t") (auto simp: turn_simps split: if_split_asm option.split_asm sum.split_asm)

interpretation tbl: mutex "turn env" c_holder inside for env
proof
  fix t u :: nat and c c' :: conc
  assume "turn env t c = Some c'" "u \<noteq> t"
  then show "inside c' u = inside c u"
    by (cases "c_pc c t") (auto simp: turn_simps split: if_split_asm option.split_asm sum.split_asm)
next
  fix t and c c' :: conc
  assume t: "turn env t c = Some c'"
  show "\<not> inside c t \<Longrightarrow> inside c' t \<Longrightarrow> c_holder c = None \<and> c_holder c' = Some t"
    using t by (cases "c_pc c t") (auto simp: turn_simps split: if_split_asm option.split_asm sum.split_asm)
  show "inside c t \<Longrightarrow> \<not> inside c' t \<Longrightarrow> c_holder c' = None"
    using t by (cases "c_pc c t") (auto simp: turn_simps split: if_split_asm option.split_asm sum.split_asm)
  show "inside c t = inside c' t \<Longrightarrow> c_holder c' = c_holder c"
    using t turn_holder [OF t] by (cases "c_pc c t") (auto simp: turn_simps split: if_split_asm option.split_asm sum.split_asm)
next
  fix t and c :: conc
  show "inside c t \<Longrightarrow> turn env t c \<noteq> None"
    by (cases "c_pc c t") (auto simp: turn_simps)
qed

lemma apartD: "apart f \<Longrightarrow> f (s\<lparr>outStreams := m\<rparr>) = (f s)\<lparr>outStreams := m\<rparr>"
  by (simp add: apart_def)

lemma apart_streams: "apart f \<Longrightarrow> outStreams (f s) = outStreams s"
  using arg_cong [OF apartD [of f "outStreams s" s], of outStreams] by simp

lemma crun_guarded: "crun env calls s es c \<Longrightarrow> tbl.guarded c"
proof (induction rule: crun.induct)
  case start
  have "\<not> inside_pc (first_pc cl)" for cl by (cases cl) simp_all
  then show ?case by (intro tbl.guarded_start) (simp_all add: inside_def)
next
  case (turn es c t c')
  show ?case by (rule tbl.guarded_turn [OF turn.hyps(2) turn.IH])
next
  case (other es c f)
  then show ?case by (intro tbl.guarded_cong [OF _ _ other.IH]) (simp_all add: inside_def)
qed

text \<open>Where a call stands, what it was called for, and whether its result is fixed already.\<close>

fun placed :: "call \<Rightarrow> strmh option option \<Rightarrow> node \<Rightarrow> pc \<Rightarrow> bool" where
  "placed cl r s (P_LockGet p) = (cl = C_Get p \<and> r = None)"
| "placed cl r s (P_LockRemove p) = (cl = C_Remove p \<and> r = None)"
| "placed cl r s (P_Lookup p) = (cl = C_Get p \<and> r = None)"
| "placed cl r s (P_Cached p l) = (l \<and> cl = C_Get p \<and> r = None \<and> mget (outStreams s) p = None)"
| "placed cl r s (P_Dial p l) = (l \<and> cl = C_Get p \<and> r = None \<and> mget (outStreams s) p = None)"
| "placed cl r s (P_Store p sh l) = (l \<and> cl = C_Get p \<and> r = Some (Some sh))"
| "placed cl r s (P_Delete p) = (cl = C_Remove p \<and> r = None)"
| "placed cl r s (P_Unlock x) = (r = Some x)"
| "placed cl r s (P_Done x) = (r = Some x)"

lemma placed_cong: "outStreams s' = outStreams s \<Longrightarrow> placed cl r s' k = placed cl r s k"
  by (cases k) simp_all

lemma placed_outside: "\<not> inside_pc k \<Longrightarrow> placed cl r s k \<Longrightarrow> placed cl r s' k"
  by (cases k) simp_all

text \<open>
  The run so far against the events one after the other: they lead to the same node, the results
  are those of the atomic operations, and no call takes effect twice.
\<close>

definition matched :: "env \<Rightarrow> (nat \<Rightarrow> call) \<Rightarrow> node \<Rightarrow> event list \<Rightarrow> conc \<Rightarrow> bool" where
  "matched env calls s es c \<longleftrightarrow>
     fst (serial env calls es (s, Map.empty)) = settle c
     \<and> (\<forall>t. placed (calls t) (snd (serial env calls es (s, Map.empty)) t) (c_node c) (c_pc c t))
     \<and> distinct (callers es)
     \<and> (\<forall>t. t \<in> set (callers es) \<longleftrightarrow> snd (serial env calls es (s, Map.empty)) t \<noteq> None)"

lemma settle_inside: "tbl.guarded c \<Longrightarrow> inside c t \<Longrightarrow> settle c = (case c_pc c t of
    P_Store p sh l \<Rightarrow> (c_node c)\<lparr>outStreams := mput (outStreams (c_node c)) p sh\<rparr> | _ \<Rightarrow> c_node c)"
  using tbl.guardedD [of c t] by (simp add: settle_def)

text \<open>A statement after which the call of \<open>t\<close> has not taken effect more than before.\<close>

lemma matched_silent:
  assumes "matched env calls s es c" "settle c' = settle c" "outStreams (c_node c') = outStreams (c_node c)"
    and "c_pc c' = (c_pc c)(t := k)"
    and "placed (calls t) (snd (serial env calls es (s, Map.empty)) t) (c_node c) k"
  shows "matched env calls s es c'"
  using assms unfolding matched_def by (auto simp: placed_cong [OF assms(3)])

text \<open>The statement with which it takes effect.\<close>

lemma matched_effect:
  assumes "matched env calls s es c" "atomic env (calls t) (settle c) = (r, settle c')"
    and "snd (serial env calls es (s, Map.empty)) t = None" "c_pc c' = (c_pc c)(t := k)"
    and "placed (calls t) (Some r) (c_node c') k"
    and "\<And>u x. u \<noteq> t \<Longrightarrow> placed (calls u) x (c_node c) (c_pc c u) \<Longrightarrow> placed (calls u) x (c_node c') (c_pc c u)"
  shows "matched env calls s (es @ [Ev_Call t]) c'"
  using assms unfolding matched_def by (auto simp: serial_append)

lemma matched_other:
  assumes "matched env calls s es c" "apart f"
  shows "matched env calls s (es @ [Ev_Other f]) (c\<lparr>c_node := f (c_node c)\<rparr>)"
proof -
  have "settle (c\<lparr>c_node := f (c_node c)\<rparr>) = f (settle c)"
    by (simp add: settle_def apart_streams [OF assms(2)] apartD [OF assms(2)] split: option.split pc.split)
  then show ?thesis
    using assms(1) unfolding matched_def
    by (auto simp: serial_append placed_cong [OF apart_streams [OF assms(2)]])
qed

lemma matched_dial:
  assumes m: "matched env calls s es c" and g: "tbl.guarded c" and d: "c_pc c t = P_Dial p l" and t: "turn env t c = Some c'"
  shows "matched env calls s (es @ (if l then [Ev_Call t] else [])) c'"
proof -
  have pl: "l" "calls t = C_Get p" "snd (serial env calls es (s, Map.empty)) t = None" "mget (outStreams (c_node c)) p = None"
    using m d by (force simp: matched_def dest: spec [of _ t])+
  have g': "tbl.guarded c'" by (rule tbl.guarded_turn [OF t g])
  have st: "settle c = c_node c" using settle_inside [OF g, of t] d pl(1) by (simp add: inside_def)
  show ?thesis
  proof (cases "NewStream env (hist (c_node c)) p")
    case (Inl e)
    then have c': "c' = goto t (P_Unlock None) (c\<lparr>c_node := log (E_NewStream p None) (c_node c)\<rparr>)"
      using d t pl by (simp add: turn_simps)
    then have "settle c' = c_node c'" using settle_inside [OF g', of t] by (simp add: inside_def)
    then have "atomic env (calls t) (settle c) = (None, settle c')"
      using Inl pl st c' by (simp add: GetOutStream_def RefreshOutStream_def)
    from matched_effect [OF m this, where k = "P_Unlock None"] show ?thesis
      using pl c' placed_cong [of "c_node c'" "c_node c"] by simp
  next
    case (Inr sh)
    then have c': "c' = goto t (P_Store p sh True) (c\<lparr>c_node := log (E_NewStream p (Some sh)) (c_node c)\<rparr>)"
      using d t pl by (simp add: turn_simps)
    then have "settle c' = (c_node c')\<lparr>outStreams := mput (outStreams (c_node c')) p sh\<rparr>"
      using settle_inside [OF g', of t] by (simp add: inside_def)
    then have "atomic env (calls t) (settle c) = (Some sh, settle c')"
      using Inr pl st c' by (simp add: GetOutStream_def RefreshOutStream_def log_def Let_def)
    from matched_effect [OF m this, where k = "P_Store p sh True"] show ?thesis
      using pl c' placed_cong [of "c_node c'" "c_node c"] by simp
  qed
qed

lemma matched_turn:
  assumes m: "matched env calls s es c" and g: "tbl.guarded c" and t: "turn env t c = Some c'"
  shows "matched env calls s (es @ (if effective (c_node c) (c_pc c t) then [Ev_Call t] else [])) c'"
proof -
  let ?R = "snd (serial env calls es (s, Map.empty))"
  have pl: "placed (calls t) (?R t) (c_node c) (c_pc c t)" using m by (simp add: matched_def)
  have out: "placed (calls u) x s' (c_pc c u)"
    if "inside c t" "u \<noteq> t" "placed (calls u) x (c_node c) (c_pc c u)" for u x s'
    using placed_outside [OF _ that(3)] tbl.alone [OF g that(1)] that(2) by (auto simp: inside_def)
  have st: "settle c = (case c_pc c t of
      P_Store p sh l \<Rightarrow> (c_node c)\<lparr>outStreams := mput (outStreams (c_node c)) p sh\<rparr> | _ \<Rightarrow> c_node c)"
    if "inside_pc (c_pc c t)" using settle_inside [OF g, of t] that by (simp add: inside_def)
  have g': "tbl.guarded c'" by (rule tbl.guarded_turn [OF t g])
  have st': "settle c' = (case c_pc c' t of
      P_Store p sh l \<Rightarrow> (c_node c')\<lparr>outStreams := mput (outStreams (c_node c')) p sh\<rparr> | _ \<Rightarrow> c_node c')"
    if "inside_pc (c_pc c' t)" using settle_inside [OF g', of t] that by (simp add: inside_def)
  show ?thesis
  proof (cases "c_pc c t")
    case (P_LockGet p)
    with t pl st' show ?thesis
      by (auto simp: turn_simps settle_def split: if_split_asm intro!: matched_silent [OF m, where t = t])
  next
    case (P_LockRemove p)
    with t pl st' show ?thesis
      by (auto simp: turn_simps settle_def split: if_split_asm intro!: matched_silent [OF m, where t = t])
  next
    case (P_Lookup p)
    show ?thesis
    proof (cases "mget (outStreams (c_node c)) p")
      case None
      with P_Lookup t pl st st' show ?thesis
        by (auto simp: turn_simps intro!: matched_silent [OF m, where t = t])
    next
      case (Some sh)
      with P_Lookup t pl st st' show ?thesis
        by (auto simp: turn_simps GetOutStream_def intro!: matched_effect [OF m, where t = t])
    qed
  next
    case (P_Cached p l)
    with t pl st st' show ?thesis
      by (auto simp: turn_simps intro!: matched_silent [OF m, where t = t])
  next
    case (P_Dial p l)
    then show ?thesis using matched_dial [OF m g P_Dial t] by simp
  next
    case (P_Store p sh l)
    with t pl st st' show ?thesis
      using m out by (auto simp: turn_simps matched_def inside_def)
  next
    case (P_Delete p)
    with t pl st st' out show ?thesis
      by (auto simp: turn_simps RemoveStream_def intro!: matched_effect [OF m, where t = t])
  next
    case (P_Unlock r)
    with t pl st show ?thesis
      by (auto simp: turn_simps settle_def intro!: matched_silent [OF m, where t = t])
  next
    case (P_Done r)
    with t show ?thesis by (simp add: turn_simps)
  qed
qed

lemma crun_matched:
  assumes "crun env calls s es c" "\<forall>t p. calls t \<noteq> C_Refresh p"
  shows "matched env calls s es c"
  using assms(1)
proof (induction rule: crun.induct)
  case start
  have "placed (calls t) None s (first_pc (calls t))" for t
    using assms(2) by (cases "calls t") auto
  then show ?case by (simp add: matched_def settle_def)
next
  case (turn es c t c')
  then show ?case by (intro matched_turn crun_guarded)
next
  case (other es c f)
  then show ?case by (intro matched_other)
qed

lemma placed_uses_map: "placed cl r s k \<Longrightarrow> uses_map k \<Longrightarrow> inside_pc k"
  by (cases k) simp_all

lemma writes_uses_map: "writes_map k \<Longrightarrow> uses_map k"
  by (cases k) simp_all

lemma placed_first: "cl \<noteq> C_Refresh p \<Longrightarrow> placed cl r s (first_pc cl) \<Longrightarrow> r = None"
  by (cases cl) auto

text \<open>
  C13. The calls of any number of goroutines to \<^verbatim>\<open>GetOutStream\<close> and
  \<^verbatim>\<open>RemoveStream\<close>, statement by statement in any order and among anything else that the
  node does, are linearizable: the node is what the atomic operations make of it, run one after
  the other in the order in which the calls took effect, and every call that has returned returned
  the result of its atomic operation there. A call takes effect at most once, and not before its
  first statement; so a call that returned before another began comes first. No two goroutines are
  ever about to use the map of streams at the same time when one of them writes it.
\<close>

theorem stream_calls_linearize:
  assumes "crun env calls s es c" and "\<forall>t p. calls t \<noteq> C_Refresh p"
  shows "fst (serial env calls es (s, Map.empty)) = settle c
    \<and> (c_holder c = None \<longrightarrow> settle c = c_node c)
    \<and> (\<forall>t r. c_pc c t = P_Done r \<longrightarrow> t \<in> set (callers es) \<and> snd (serial env calls es (s, Map.empty)) t = Some r)
    \<and> (\<forall>t. c_pc c t = first_pc (calls t) \<longrightarrow> t \<notin> set (callers es)) \<and> distinct (callers es)
    \<and> (\<forall>t u. \<not> race c t u)"
proof -
  let ?R = "snd (serial env calls es (s, Map.empty))"
  have m: "fst (serial env calls es (s, Map.empty)) = settle c" "distinct (callers es)"
    "\<And>t. placed (calls t) (?R t) (c_node c) (c_pc c t)" "\<And>t. t \<in> set (callers es) \<longleftrightarrow> ?R t \<noteq> None"
    using crun_matched [OF assms] by (simp_all add: matched_def)
  have "?R t = Some r" if "c_pc c t = P_Done r" for t r using m(3) [of t] that by simp
  moreover have "?R t = None" if "c_pc c t = first_pc (calls t)" for t
    using placed_first [of "calls t"] m(3) [of t] assms(2) that by auto
  moreover have "\<not> race c t u" for t u
  proof
    assume r: "race c t u"
    then have "inside_pc (c_pc c t)" "inside_pc (c_pc c u)"
      using placed_uses_map [OF m(3)] writes_uses_map by (auto simp: race_def)
    then show False using tbl.alone [OF crun_guarded [OF assms(1)], of t u] r by (simp add: race_def inside_def)
  qed
  ultimately show ?thesis using m(1,2,4) by (simp add: settle_def)
qed

section \<open>Every call can return\<close>

fun rank :: "pc \<Rightarrow> nat" where
  "rank (P_LockGet p) = 6"
| "rank (P_LockRemove p) = 6"
| "rank (P_Lookup p) = 5"
| "rank (P_Cached p l) = 4"
| "rank (P_Dial p l) = 3"
| "rank (P_Store p sh l) = 2"
| "rank (P_Delete p) = 2"
| "rank (P_Unlock r) = 1"
| "rank (P_Done r) = 0"

definition ready :: "conc \<Rightarrow> nat \<Rightarrow> bool" where
  "ready c t \<longleftrightarrow> c_holder c = None \<or> (\<forall>p. c_pc c t \<noteq> P_LockGet p \<and> c_pc c t \<noteq> P_LockRemove p)"

lemma turn_ready: "ready c t \<Longrightarrow> rank (c_pc c t) \<noteq> 0 \<Longrightarrow> turn env t c \<noteq> None"
  by (cases "c_pc c t") (auto simp: turn_simps ready_def)

lemma turn_rank: "turn env t c = Some c' \<Longrightarrow> rank (c_pc c' t) < rank (c_pc c t) \<and> ready c' t \<and> (\<forall>u. u \<noteq> t \<longrightarrow> c_pc c' u = c_pc c u)"
  by (cases "c_pc c t") (auto simp: turn_simps ready_def split: if_split_asm option.split_asm sum.split_asm)

lemma rank_done: "rank k = 0 \<longleftrightarrow> (\<exists>r. k = P_Done r)"
  by (cases k) simp_all

lemma call_completes:
  "crun env calls s es c \<Longrightarrow> ready c t \<Longrightarrow>
     \<exists>es' c' r. crun env calls s (es @ es') c' \<and> c_pc c' t = P_Done r \<and> (\<forall>u. u \<noteq> t \<longrightarrow> c_pc c' u = c_pc c u)"
proof (induction "rank (c_pc c t)" arbitrary: c es rule: less_induct)
  case less
  show ?case
  proof (cases "rank (c_pc c t) = 0")
    case True
    then show ?thesis using less.prems(1) rank_done by (metis append_Nil2)
  next
    case False
    then obtain c1 where c1: "turn env t c = Some c1" using turn_ready [OF less.prems(2)] by auto
    note r = turn_rank [OF c1]
    obtain es1 where run: "crun env calls s (es @ es1) c1" using crun.turn [OF less.prems(1) c1] by blast
    from less.hyps [OF _ run] r obtain es' c' x where
      "crun env calls s (es @ es1 @ es') c'" "c_pc c' t = P_Done x" "\<forall>u. u \<noteq> t \<longrightarrow> c_pc c' u = c_pc c1 u" by auto
    then show ?thesis using r by (intro exI [of _ "es1 @ es'"] exI [of _ c'] exI [of _ x]) simp
  qed
qed

lemma rank_bound: "rank k \<le> 6"
  by (cases k) simp_all

lemma crun_call_completes:
  assumes "crun env calls s es c"
  shows "\<exists>es' c' r. crun env calls s (es @ es') c' \<and> c_pc c' t = P_Done r"
proof (cases "ready c t")
  case True
  then show ?thesis using call_completes [OF assms] by blast
next
  case False
  then obtain u where u: "c_holder c = Some u" by (auto simp: ready_def)
  have g: "tbl.guarded c" by (rule crun_guarded [OF assms])
  have "inside c u" using tbl.guardedD [OF g] u by simp
  then have "ready c u" by (cases "c_pc c u") (auto simp: ready_def inside_def)
  from call_completes [OF assms this] obtain es1 c1 r where run: "crun env calls s (es @ es1) c1"
    and c1: "c_pc c1 u = P_Done r" "\<forall>v. v \<noteq> u \<longrightarrow> c_pc c1 v = c_pc c v" by blast
  have "\<not> inside c1 v" for v
    using c1 tbl.guardedD [OF g, of v] u by (cases "v = u") (auto simp: inside_def)
  then have "c_holder c1 = None"
    using tbl.guardedD [OF crun_guarded [OF run]] by (cases "c_holder c1") auto
  then have "ready c1 t" by (simp add: ready_def)
  from call_completes [OF run this] show ?thesis by (metis append.assoc)
qed

text \<open>
  C30. No schedule deadlocks the calls: whatever statements the goroutines have run, every call can
  still be completed, by letting the owner of the lock finish first when there is one. A call
  takes at most six statements.
\<close>

theorem stream_calls_return:
  assumes "crun env calls s es c"
  shows "(\<exists>es' c' r. crun env calls s (es @ es') c' \<and> c_pc c' t = P_Done r)
    \<and> rank (c_pc c t) \<le> 6 \<and> (\<forall>c'. turn env t c = Some c' \<longrightarrow> rank (c_pc c' t) < rank (c_pc c t))"
  using crun_call_completes [OF assms] turn_rank rank_bound by blast

text \<open>A schedule: whose turn it is.\<close>

fun sched :: "env \<Rightarrow> nat list \<Rightarrow> conc \<Rightarrow> conc option" where
  "sched env [] c = Some c"
| "sched env (t # ts) c = (case turn env t c of None \<Rightarrow> None | Some c' \<Rightarrow> sched env ts c')"

lemma crun_sched: "sched env ts c = Some c' \<Longrightarrow> crun env calls s es c \<Longrightarrow> \<exists>es'. crun env calls s (es @ es') c'"
proof (induction ts arbitrary: c es)
  case Nil
  then show ?case by (auto intro: exI [of _ "[]"])
next
  case (Cons t ts)
  from Cons.prems(1) obtain c1 where c1: "turn env t c = Some c1" "sched env ts c1 = Some c'"
    by (auto split: option.split_asm)
  from Cons.IH [OF c1(2) crun.turn [OF Cons.prems(2) c1(1)]] show ?case by (metis append.assoc)
qed

text \<open>A goroutine that opens a stream and one that removes it, for the witnesses.\<close>

definition demo_calls :: "nat \<Rightarrow> call" where
  "demo_calls t = (if t = 1 then C_Remove pA else C_Get pA)"

lemma demo_calls_run:
  "\<exists>es c. crun demo_env demo_calls demo_node es c \<and> c_holder c = Some 1 \<and> c_pc c 0 = P_Done (Some 1)
     \<and> c_pc c 1 = P_Delete pA \<and> c_pc c 2 = P_LockGet pA"
proof -
  let ?c = "\<lparr>c_node = demo_node, c_holder = None, c_pc = (\<lambda>t. first_pc (demo_calls t))\<rparr>"
  have "\<exists>c. sched demo_env [0, 0, 0, 0, 0, 0, 1] ?c = Some c \<and> c_holder c = Some 1 \<and> c_pc c 0 = P_Done (Some 1)
     \<and> c_pc c 1 = P_Delete pA \<and> c_pc c 2 = P_LockGet pA"
    by (simp add: turn_def refreshed_def demo_calls_def)
  then show ?thesis using crun_sched [OF _ crun.start] by fastforce
qed

lemma stream_calls_linearize_witness:
  "\<exists>es c. crun demo_env demo_calls demo_node es c \<and> c_pc c 0 = P_Done (Some 1) \<and> 0 \<in> set (callers es) \<and> 2 \<notin> set (callers es)"
proof -
  obtain es c where run: "crun demo_env demo_calls demo_node es c" "c_pc c 0 = P_Done (Some 1)" "c_pc c 2 = P_LockGet pA"
    using demo_calls_run by blast
  have "\<forall>t p. demo_calls t \<noteq> C_Refresh p" by (simp add: demo_calls_def)
  note lin = stream_calls_linearize [OF run(1) this, THEN conjunct2, THEN conjunct2]
  have "0 \<in> set (callers es)" by (rule lin [THEN conjunct1, rule_format, OF run(2), THEN conjunct1])
  moreover have "2 \<notin> set (callers es)"
    by (rule lin [THEN conjunct2, THEN conjunct1, rule_format]) (simp add: run(3) demo_calls_def)
  ultimately show ?thesis using run(1,2) by blast
qed

lemma stream_calls_return_witness:
  "\<exists>es c r. crun demo_env demo_calls demo_node es c \<and> c_pc c 2 = P_Done r"
proof -
  obtain es c where "crun demo_env demo_calls demo_node es c" using demo_calls_run by blast
  from stream_calls_return [OF this, of 2] show ?thesis by blast
qed

section \<open>The refresh without the lock\<close>

text \<open>
  C31. The retry of \<^verbatim>\<open>sendMessageWithRetry\<close> calls \<^verbatim>\<open>RefreshOutStream\<close> without the
  lock. When another goroutine asks for a stream to the same peer there is a schedule after which
  both are about to write the map of streams at once; when the runtime survives that, both streams
  have been opened, each goroutine goes on with its own, the table keeps one of them, and the other
  is neither reset nor known to the node any more.
\<close>

theorem retry_races_with_lookup:
  assumes "mget (outStreams s) p = None" and "\<forall>h. \<exists>sh. NewStream env h p = Inr sh"
    and "calls 0 = C_Get p" and "calls 1 = C_Refresh p"
  shows "\<exists>es c es' c' x y. crun env calls s es c \<and> race c 0 1 \<and> race c 1 0
    \<and> crun env calls s (es @ es') c' \<and> c_pc c' 0 = P_Done (Some x) \<and> c_pc c' 1 = P_Done (Some y)
    \<and> mget (outStreams (c_node c')) p = Some y
    \<and> hist (c_node c') = E_NewStream p (Some y) # E_NewStream p (Some x) # hist s"
proof -
  let ?c = "\<lparr>c_node = s, c_holder = None, c_pc = (\<lambda>t. first_pc (calls t))\<rparr>"
  obtain x where x: "NewStream env (hist s) p = Inr x" using assms(2) by blast
  obtain y where y: "NewStream env (E_NewStream p (Some x) # hist s) p = Inr y" using assms(2) by blast
  have "\<exists>c. sched env [0, 0, 0, 0, 1, 1] ?c = Some c \<and> c_pc c 0 = P_Store p x True \<and> c_pc c 1 = P_Store p y False
      \<and> c_node c = log (E_NewStream p (Some y)) (log (E_NewStream p (Some x)) s)"
    using assms x y by (simp add: turn_def refreshed_def)
  then obtain c where c: "sched env [0, 0, 0, 0, 1, 1] ?c = Some c" "c_pc c 0 = P_Store p x True"
    "c_pc c 1 = P_Store p y False" "c_node c = log (E_NewStream p (Some y)) (log (E_NewStream p (Some x)) s)" by blast
  obtain es where run: "crun env calls s es c" using crun_sched [OF c(1) crun.start] by auto
  have "\<exists>c'. sched env [0, 0, 1] c = Some c' \<and> c_pc c' 0 = P_Done (Some x) \<and> c_pc c' 1 = P_Done (Some y)
      \<and> mget (outStreams (c_node c')) p = Some y \<and> hist (c_node c') = hist (c_node c)"
    using c by (simp add: turn_def refreshed_def)
  then obtain c' where c': "sched env [0, 0, 1] c = Some c'" "c_pc c' 0 = P_Done (Some x)" "c_pc c' 1 = P_Done (Some y)"
      "mget (outStreams (c_node c')) p = Some y" "hist (c_node c') = hist (c_node c)" by blast
  obtain es' where run': "crun env calls s (es @ es') c'" using crun_sched [OF c'(1) run] by blast
  have "race c 0 1" "race c 1 0" using c(2,3) by (simp_all add: race_def)
  then show ?thesis using run run' c' c(4) by (intro exI conjI) (assumption | simp)+
qed

definition demo_retry :: "nat \<Rightarrow> call" where
  "demo_retry t = (if t = 0 then C_Get pA else C_Refresh pA)"

lemma retry_races_with_lookup_witness: "\<exists>es c. crun demo_env demo_retry demo_node es c \<and> race c 0 1"
proof -
  have n: "mget (outStreams demo_node) pA = None" "\<forall>h. \<exists>sh. NewStream demo_env h pA = Inr sh"
    "demo_retry 0 = C_Get pA" "demo_retry 1 = C_Refresh pA" by (simp_all add: demo_retry_def)
  from retry_races_with_lookup [OF n] show ?thesis by (elim exE conjE) (intro exI conjI)
qed

end
