(* ===== verification/Frames.thy ===== *)
theory Frames
  imports Mutex "HOL-Library.Sublist"
begin

text \<open>
  One outgoing stream and any number of goroutines that send on it
  (\<^verbatim>\<open>encodeAndFlush\<close> in \<^verbatim>\<open>basic_out_stream.go\<close>): the writes of the encoder
  into the \<^verbatim>\<open>bufio.Writer\<close> and its flush, one by one, under the lock \<^verbatim>\<open>el\<close>. The
  encoder is a parameter: the pieces it writes for a message and the error it ends with. The buffer
  may be written out at any of these writes, in part, and an error of the stream stays with the
  writer, as the standard library says.
\<close>

section \<open>The statements\<close>

datatype wpc =
    W_Lock
  | W_Write "bytes list" "go_error option"
  | W_Flush
  | W_Unlock "go_error option"
  | W_Done "go_error option"

record wconc =
  w_holder :: "nat option"
  w_pc :: "nat \<Rightarrow> wpc"
  w_buf :: bytes
  w_wire :: bytes
  w_err :: "go_error option"

type_synonym encoder = "Msg \<Rightarrow> bytes list \<times> go_error option"

abbreviation at_pc :: "nat \<Rightarrow> wpc \<Rightarrow> wconc \<Rightarrow> wconc" where
  "at_pc t k c \<equiv> c\<lparr>w_pc := (w_pc c)(t := k)\<rparr>"

text \<open>The stream takes the first bytes of the buffer, and may then report an error.\<close>

definition spill :: "nat \<Rightarrow> go_error option \<Rightarrow> wconc \<Rightarrow> wconc" where
  "spill n e c = c\<lparr>w_wire := w_wire c @ take n (w_buf c), w_buf := drop n (w_buf c), w_err := e\<rparr>"

text \<open>
  One statement; \<open>n\<close> and \<open>e\<close> are what the stream does when the buffer is written out.
\<close>

definition wturn :: "encoder \<Rightarrow> (nat \<Rightarrow> Msg) \<Rightarrow> nat \<Rightarrow> go_error option \<Rightarrow> nat \<Rightarrow> wconc \<Rightarrow> wconc option" where
  "wturn enc msgs n e t c =
     (case w_pc c t of
        W_Lock \<Rightarrow>
          (if w_holder c = None
           then Some (at_pc t (W_Write (fst (enc (msgs t))) (snd (enc (msgs t)))) (c\<lparr>w_holder := Some t\<rparr>))
           else None)
      | W_Write [] (Some x) \<Rightarrow> Some (at_pc t (W_Unlock (Some x)) c)
      | W_Write [] None \<Rightarrow> Some (at_pc t W_Flush c)
      | W_Write (b # bs) x \<Rightarrow>
          (case w_err c of
             Some y \<Rightarrow> Some (at_pc t (W_Unlock (Some y)) c)
           | None \<Rightarrow>
               Some (at_pc t (if e = None then W_Write bs x else W_Unlock e) (spill n e (c\<lparr>w_buf := w_buf c @ b\<rparr>))))
      | W_Flush \<Rightarrow>
          (case w_err c of
             Some y \<Rightarrow> Some (at_pc t (W_Unlock (Some y)) c)
           | None \<Rightarrow> Some (at_pc t (W_Unlock e) (spill (if e = None then length (w_buf c) else n) e c)))
      | W_Unlock r \<Rightarrow> Some (at_pc t (W_Done r) (c\<lparr>w_holder := None\<rparr>))
      | W_Done r \<Rightarrow> None)"

definition writing :: "wconc \<Rightarrow> nat \<Rightarrow> bool" where
  "writing c t = (case w_pc c t of W_Lock \<Rightarrow> False | W_Done r \<Rightarrow> False | _ \<Rightarrow> True)"

text \<open>A run, with the goroutines in the order in which they got the lock.\<close>

inductive wrun :: "encoder \<Rightarrow> (nat \<Rightarrow> Msg) \<Rightarrow> nat list \<Rightarrow> wconc \<Rightarrow> bool" for enc msgs where
  start: "wrun enc msgs [] \<lparr>w_holder = None, w_pc = (\<lambda>t. W_Lock), w_buf = [], w_wire = [], w_err = None\<rparr>"
| turn: "wrun enc msgs ts c \<Longrightarrow> wturn enc msgs n e t c = Some c' \<Longrightarrow>
    wrun enc msgs (ts @ (if w_pc c t = W_Lock then [t] else [])) c'"

definition frame :: "encoder \<Rightarrow> Msg \<Rightarrow> bytes" where
  "frame enc m = concat (fst (enc m))"

abbreviation frames :: "encoder \<Rightarrow> (nat \<Rightarrow> Msg) \<Rightarrow> nat list \<Rightarrow> bytes" where
  "frames enc msgs ts \<equiv> concat (map (\<lambda>t. frame enc (msgs t)) ts)"

section \<open>Frames stay whole\<close>

lemmas wturn_simps = wturn_def writing_def spill_def

lemma wturn_cases:
  assumes "wturn enc msgs n e t c = Some c'"
  obtains (lock) "w_pc c t = W_Lock" "w_holder c = None"
      "c' = at_pc t (W_Write (fst (enc (msgs t))) (snd (enc (msgs t)))) (c\<lparr>w_holder := Some t\<rparr>)"
  | (failed) x bs y where "w_pc c t = W_Write bs x \<or> w_pc c t = W_Flush" "w_err c = None \<longrightarrow> w_pc c t = W_Write [] x" "c' = at_pc t (W_Unlock (Some y)) c"
  | (encoded) "w_pc c t = W_Write [] None" "c' = at_pc t W_Flush c"
  | (piece) b bs x where "w_pc c t = W_Write (b # bs) x" "w_err c = None"
      "c' = at_pc t (if e = None then W_Write bs x else W_Unlock e) (spill n e (c\<lparr>w_buf := w_buf c @ b\<rparr>))"
  | (flush) "w_pc c t = W_Flush" "w_err c = None"
      "c' = at_pc t (W_Unlock e) (spill (if e = None then length (w_buf c) else n) e c)"
  | (unlock) r where "w_pc c t = W_Unlock r" "c' = at_pc t (W_Done r) (c\<lparr>w_holder := None\<rparr>)"
  using assms that unfolding wturn_def
  by (cases "w_pc c t") (auto split: if_split_asm list.split_asm option.split_asm)

interpretation wl: mutex "wturn enc msgs n e" w_holder writing for enc msgs n e
proof
  fix t u :: nat and c c' :: wconc
  assume "wturn enc msgs n e t c = Some c'" "u \<noteq> t"
  then show "writing c' u = writing c u" by (cases rule: wturn_cases) (simp_all add: writing_def spill_def)
next
  fix t and c c' :: wconc
  assume t: "wturn enc msgs n e t c = Some c'"
  show "\<not> writing c t \<Longrightarrow> writing c' t \<Longrightarrow> w_holder c = None \<and> w_holder c' = Some t"
    using t by (cases rule: wturn_cases) (auto simp: writing_def spill_def)
  show "writing c t \<Longrightarrow> \<not> writing c' t \<Longrightarrow> w_holder c' = None"
    using t by (cases rule: wturn_cases) (auto simp: writing_def spill_def split: if_split_asm)
  show "writing c t = writing c' t \<Longrightarrow> w_holder c' = w_holder c"
    using t by (cases rule: wturn_cases) (auto simp: writing_def spill_def split: if_split_asm)
next
  fix t and c :: wconc
  show "writing c t \<Longrightarrow> wturn enc msgs n e t c \<noteq> None"
    by (auto simp: wturn_def writing_def split: wpc.splits list.split option.split)
qed

lemma wrun_guarded: "wrun enc msgs ts c \<Longrightarrow> wl.guarded c"
proof (induction rule: wrun.induct)
  case start
  show ?case by (rule wl.guarded_start) (simp_all add: writing_def)
next
  case (turn ts c n e t c')
  show ?case by (rule wl.guarded_turn [OF turn.hyps(2) turn.IH])
qed

text \<open>What the goroutine that holds the lock has still to write.\<close>

definition rest :: "wconc \<Rightarrow> bytes" where
  "rest c = (case w_holder c of None \<Rightarrow> []
     | Some t \<Rightarrow> (case w_pc c t of W_Write bs x \<Rightarrow> concat bs | _ \<Rightarrow> []))"

lemma rest_at: "w_holder c = Some t \<Longrightarrow> rest c = (case w_pc c t of W_Write bs x \<Rightarrow> concat bs | _ \<Rightarrow> [])"
  by (simp add: rest_def)

definition whole :: "encoder \<Rightarrow> (nat \<Rightarrow> Msg) \<Rightarrow> nat list \<Rightarrow> wconc \<Rightarrow> bool" where
  "whole enc msgs ts c \<longleftrightarrow>
     (if w_err c = None then w_wire c @ w_buf c @ rest c = frames enc msgs ts else prefix (w_wire c) (frames enc msgs ts))"

definition sent_whole :: "encoder \<Rightarrow> (nat \<Rightarrow> Msg) \<Rightarrow> nat list \<Rightarrow> bytes \<Rightarrow> nat \<Rightarrow> bool" where
  "sent_whole enc msgs ts w t \<longleftrightarrow> (\<exists>pre post. ts = pre @ t # post \<and> prefix (frames enc msgs (pre @ [t])) w)"

lemma sent_whole_mono: "sent_whole enc msgs ts w t \<Longrightarrow> prefix w w' \<Longrightarrow> sent_whole enc msgs (ts @ us) w' t"
  unfolding sent_whole_def by (metis append.assoc append_Cons prefix_order.trans)

definition winv :: "encoder \<Rightarrow> (nat \<Rightarrow> Msg) \<Rightarrow> nat list \<Rightarrow> wconc \<Rightarrow> bool" where
  "winv enc msgs ts c \<longleftrightarrow> whole enc msgs ts c \<and> distinct ts
     \<and> (\<forall>t. t \<in> set ts \<longleftrightarrow> w_pc c t \<noteq> W_Lock)
     \<and> (\<forall>t. w_holder c = Some t \<longrightarrow> (\<exists>pre. ts = pre @ [t]))
     \<and> (\<forall>t. w_pc c t = W_Unlock None \<or> w_pc c t = W_Done None \<longrightarrow> sent_whole enc msgs ts (w_wire c) t)"

text \<open>What a goroutine does inside: the wire grows, and what becomes of the buffer.\<close>

lemma winv_inside:
  assumes i: "winv enc msgs ts c" and h: "w_holder c = Some t" "w_pc c t \<noteq> W_Lock" "k \<noteq> W_Lock"
    and c': "w_pc c' = (w_pc c)(t := k)" "w_holder c' = (case k of W_Done r \<Rightarrow> None | _ \<Rightarrow> Some t)"
    and w: "prefix (w_wire c) (w_wire c')" "whole enc msgs ts c'"
    and s: "k = W_Unlock None \<or> k = W_Done None \<Longrightarrow> sent_whole enc msgs ts (w_wire c') t"
  shows "winv enc msgs ts c'"
proof -
  have "sent_whole enc msgs ts (w_wire c') u" if "w_pc c u = W_Unlock None \<or> w_pc c u = W_Done None" for u
  proof -
    have "sent_whole enc msgs ts (w_wire c) u" using i that unfolding winv_def by blast
    from sent_whole_mono [OF this w(1), of "[]"] show ?thesis by simp
  qed
  moreover have "\<forall>u. w_holder c' = Some u \<longrightarrow> (\<exists>pre. ts = pre @ [u])"
    using i h(1) c'(2) by (auto simp: winv_def split: wpc.split_asm)
  ultimately show ?thesis using i h(2,3) c'(1) w(2) s unfolding winv_def by auto
qed

lemma wholeD: "whole enc msgs ts c \<Longrightarrow> w_err c = None \<Longrightarrow> w_wire c @ w_buf c @ rest c = frames enc msgs ts"
  by (simp add: whole_def)

lemma whole_prefix: "whole enc msgs ts c \<Longrightarrow> prefix (w_wire c) (frames enc msgs ts)"
  by (auto simp: whole_def split: if_split_asm intro: prefixI [OF sym])

text \<open>A piece that is written, and the flush.\<close>

lemma whole_piece:
  assumes wh: "whole enc msgs ts c" "w_err c = None" and h: "w_holder c = Some t" "w_pc c t = W_Write (b # bs) x"
  shows "whole enc msgs ts
    (at_pc t (if e = None then W_Write bs x else W_Unlock e) (spill n e (c\<lparr>w_buf := w_buf c @ b\<rparr>)))"
    (is "whole enc msgs ts ?c'")
proof -
  have "w_wire c @ (take n (w_buf c @ b) @ drop n (w_buf c @ b)) @ concat bs = frames enc msgs ts"
    unfolding append_take_drop_id using wholeD [OF wh] rest_at [OF h(1)] h(2) by simp
  then have F: "(w_wire c @ take n (w_buf c @ b)) @ drop n (w_buf c @ b) @ concat bs = frames enc msgs ts"
    by (simp del: take_append drop_append append_take_drop_id)
  show ?thesis
  proof (cases e)
    case None
    then have "rest ?c' = concat bs" using h(1) by (simp add: rest_def spill_def)
    then show ?thesis using None F by (simp add: whole_def spill_def del: take_append drop_append)
  next
    case (Some z)
    have "prefix (w_wire c @ take n (w_buf c @ b)) (frames enc msgs ts)" unfolding F [symmetric] by (rule prefixI [OF HOL.refl])
    then show ?thesis using Some by (simp add: whole_def spill_def del: take_append)
  qed
qed

lemma whole_flush:
  assumes wh: "whole enc msgs ts c" "w_err c = None" and h: "w_holder c = Some t" "w_pc c t = W_Flush"
    and c': "c' = at_pc t (W_Unlock e) (spill (if e = None then length (w_buf c) else n) e c)"
  shows "whole enc msgs ts c'" "e = None \<Longrightarrow> w_wire c' = frames enc msgs ts"
proof -
  have F: "w_wire c @ w_buf c = frames enc msgs ts" using wholeD [OF wh] rest_at [OF h(1)] h(2) by simp
  then show "e = None \<Longrightarrow> w_wire c' = frames enc msgs ts" using c' by (simp add: spill_def)
  show "whole enc msgs ts c'"
    using c' h(1) F [symmetric] by (cases e) (simp_all add: whole_def spill_def rest_def take_is_prefix)
qed

lemma winv_lock:
  assumes i: "winv enc msgs ts c" and l: "w_pc c t = W_Lock" "w_holder c = None"
    and c': "c' = at_pc t (W_Write (fst (enc (msgs t))) (snd (enc (msgs t)))) (c\<lparr>w_holder := Some t\<rparr>)"
  shows "winv enc msgs (ts @ [t]) c'"
proof -
  have "rest c = []" "rest c' = frame enc (msgs t)" using l c' by (simp_all add: rest_def frame_def)
  then have "whole enc msgs (ts @ [t]) c'" using i c' by (auto simp: winv_def whole_def)
  moreover have "t \<notin> set ts" using i l(1) by (simp add: winv_def)
  ultimately show ?thesis
    using i c' sent_whole_mono [of enc msgs ts "w_wire c" _ "w_wire c" "[t]"] by (auto simp: winv_def)
qed

lemma winv_turn:
  assumes i: "winv enc msgs ts c" and g: "wl.guarded c" and t: "wturn enc msgs n e t c = Some c'"
  shows "winv enc msgs (ts @ (if w_pc c t = W_Lock then [t] else [])) c'"
proof -
  have hold: "w_holder c = Some t" if "writing c t" using wl.guardedD [OF g] that by blast
  have wh: "whole enc msgs ts c" using i by (simp add: winv_def)
  from t show ?thesis
  proof (cases rule: wturn_cases)
    case lock
    then show ?thesis using winv_lock [OF i] by simp
  next
    case (failed x bs y)
    then have h: "w_holder c = Some t" using hold by (auto simp: writing_def)
    have "whole enc msgs ts c'"
      using wh failed rest_at [OF h] whole_prefix [OF wh] by (auto simp: whole_def rest_def h)
    then show ?thesis
      using failed h by (auto intro!: winv_inside [OF i h, where k = "W_Unlock (Some y)"])
  next
    case encoded
    then have h: "w_holder c = Some t" using hold by (auto simp: writing_def)
    have "whole enc msgs ts c'" using wh encoded rest_at [OF h] by (auto simp: whole_def rest_def h)
    then show ?thesis using encoded h by (auto intro!: winv_inside [OF i h, where k = W_Flush])
  next
    case (piece b bs x)
    then have h: "w_holder c = Some t" using hold by (auto simp: writing_def)
    have "whole enc msgs ts c'" unfolding piece(3) by (rule whole_piece [OF wh piece(2) h piece(1)])
    then have "winv enc msgs ts c'"
      by (intro winv_inside [OF i h, where k = "if e = None then W_Write bs x else W_Unlock e"])
        (use piece h in \<open>auto simp: spill_def split: if_split_asm\<close>)
    then show ?thesis using piece(1) by simp
  next
    case flush
    then have h: "w_holder c = Some t" using hold by (auto simp: writing_def)
    note w = whole_flush [OF wh flush(2) h flush(1,3)]
    obtain pre where "ts = pre @ [t]" using i h by (auto simp: winv_def)
    then have "sent_whole enc msgs ts (w_wire c') t" if "e = None"
      unfolding sent_whole_def using w(2) [OF that] by (intro exI [of _ pre] exI [of _ "[]"]) simp
    then have "winv enc msgs ts c'"
      by (intro winv_inside [OF i h, where k = "W_Unlock e"]) (use flush h w(1) in \<open>auto simp: spill_def\<close>)
    then show ?thesis using flush(1) by simp
  next
    case (unlock r)
    then have h: "w_holder c = Some t" using hold by (auto simp: writing_def)
    have "whole enc msgs ts c'" using wh unlock rest_at [OF h] by (auto simp: whole_def rest_def)
    moreover have "sent_whole enc msgs ts (w_wire c) t" if "r = None" using i unlock that by (simp add: winv_def)
    ultimately have "winv enc msgs ts c'"
      by (intro winv_inside [OF i h, where k = "W_Done r"]) (use unlock h in auto)
    then show ?thesis using unlock(1) by simp
  qed
qed

lemma wrun_winv: "wrun enc msgs ts c \<Longrightarrow> winv enc msgs ts c"
proof (induction rule: wrun.induct)
  case start
  show ?case by (simp add: winv_def whole_def rest_def)
next
  case (turn ts c n e t c')
  show ?case by (rule winv_turn [OF turn.IH wrun_guarded [OF turn.hyps(1)] turn.hyps(2)])
qed

text \<open>
  C14. Messages that any number of goroutines send on one stream never mix: however their writes
  and the buffer's are interleaved, the bytes that left are a prefix of the whole frames one after
  the other, in the order in which the goroutines got the lock; while no write has failed and
  nobody holds the lock, what has left and what is buffered are exactly these frames. When the send
  of a goroutine has returned without an error its frame, and all before it, have left completely.
\<close>

theorem frames_stay_whole:
  assumes "wrun enc msgs ts c"
  shows "distinct ts \<and> prefix (w_wire c) (frames enc msgs ts)
    \<and> (w_holder c = None \<and> w_err c = None \<longrightarrow> w_wire c @ w_buf c = frames enc msgs ts)
    \<and> (\<forall>t. w_pc c t = W_Done None \<longrightarrow>
         (\<exists>pre post. ts = pre @ t # post \<and> prefix (frames enc msgs (pre @ [t])) (w_wire c)))"
proof -
  have w: "winv enc msgs ts c" by (rule wrun_winv [OF assms])
  then have wh: "whole enc msgs ts c" and "distinct ts" by (simp_all add: winv_def)
  moreover have "w_wire c @ w_buf c = frames enc msgs ts" if "w_holder c = None" "w_err c = None"
    using wholeD [OF wh that(2)] that(1) by (simp add: rest_def)
  moreover have "sent_whole enc msgs ts (w_wire c) t" if "w_pc c t = W_Done None" for t
    using w that by (simp add: winv_def)
  ultimately show ?thesis using whole_prefix [OF wh] unfolding sent_whole_def by blast
qed

text \<open>Two goroutines that send; the second waits for the lock until the first has returned.\<close>

fun wsched :: "encoder \<Rightarrow> (nat \<Rightarrow> Msg) \<Rightarrow> (nat \<times> nat) list \<Rightarrow> wconc \<Rightarrow> wconc option" where
  "wsched enc msgs [] c = Some c"
| "wsched enc msgs ((n, t) # ts) c =
     (case wturn enc msgs n None t c of None \<Rightarrow> None | Some c' \<Rightarrow> wsched enc msgs ts c')"

lemma wrun_sched: "wsched enc msgs ts c = Some c' \<Longrightarrow> wrun enc msgs us c \<Longrightarrow> \<exists>us'. wrun enc msgs us' c'"
proof (induction ts arbitrary: c us)
  case Nil
  then show ?case by auto
next
  case (Cons x ts)
  obtain n t where x: "x = (n, t)" by fastforce
  from Cons.prems(1) x obtain c1 where c1: "wturn enc msgs n None t c = Some c1" "wsched enc msgs ts c1 = Some c'"
    by (auto split: option.split_asm)
  show ?case by (rule Cons.IH [OF c1(2) wrun.turn [OF Cons.prems(2) c1(1)]])
qed

abbreviation demo_msgs :: "nat \<Rightarrow> Msg" where
  "demo_msgs \<equiv> (\<lambda>t. \<lparr>Op = StreamDataID, Data = D_Nil\<rparr>)"

lemma frames_stay_whole_witness:
  "\<exists>ts c. wrun (\<lambda>m. ([''ab'', ''c''], None)) demo_msgs ts c \<and> w_pc c 1 = W_Done None \<and> w_wire c = ''abcabc''
     \<and> w_wire c @ w_buf c = frames (\<lambda>m. ([''ab'', ''c''], None)) demo_msgs ts"
proof -
  let ?enc = "\<lambda>m :: Msg. ([''ab'', ''c''], None)"
  let ?c = "\<lparr>w_holder = None, w_pc = (\<lambda>t. W_Lock), w_buf = [], w_wire = [], w_err = None\<rparr>"
  have "wturn ?enc demo_msgs 0 None 1 ?c \<noteq> None \<and>
    (\<exists>c. wsched ?enc demo_msgs [(0, 0), (1, 0), (0, 0), (0, 0), (0, 0), (0, 0), (0, 1), (0, 1), (2, 1), (0, 1), (0, 1), (0, 1)] ?c = Some c
      \<and> w_holder c = None \<and> w_err c = None \<and> w_pc c 1 = W_Done None \<and> w_wire c = ''abcabc'')"
    by (simp add: wturn_def spill_def)
  then obtain ts c where c: "wrun ?enc demo_msgs ts c" "w_holder c = None" "w_err c = None" "w_pc c 1 = W_Done None" "w_wire c = ''abcabc''"
    using wrun_sched [OF _ wrun.start] by blast
  from frames_stay_whole [OF c(1)] c show ?thesis by blast
qed

end
