(* ===== verification/Spec2Isabelle.thy ===== *)
theory Spec2Isabelle
  imports Routes Genuineness Example StreamTable Frames
begin

text \<open>
  A verification library for go-livepeer-basicnet, the package that lets Livepeer nodes broadcast,
  relay and receive video streams over libp2p.

  \<^bold>\<open>The program.\<close> A node (\<^verbatim>\<open>BasicVideoNetwork\<close> over \<^verbatim>\<open>BasicNetworkNode\<close>) speaks one
  protocol of gob and JSON messages. A node that broadcasts a stream keeps a window of its latest
  segments and a table of listeners; a goroutine sends each segment to all of them. A node that
  wants a stream sends a subscription towards the broadcaster; every node in between creates a
  relayer for the stream, which passes segments on to its own listeners and is dropped when the
  last of them cancels, when the stream ends, or by a collector when it is idle. Master playlists
  and node statuses are asked for in the same way. Transcoders subscribe with a signed message.

  \<^bold>\<open>Theories and sources\<close> (under \<^verbatim>\<open>src/\<close>), in the order of their imports:

  \<^item> \<open>GoPrelude\<close>: Go's maps as association lists in iteration order, with the laws that the
    proofs use stated in a locale and interpreted on the model's operations; allocation stores;
    results of calls that may panic or block (\<open>outcome\<close>); decimal numbers and splitting.
  \<^item> \<open>Messages\<close>: the opcodes, message types and errors of \<^verbatim>\<open>data.go\<close> and \<^verbatim>\<open>basic_network.go\<close>.
  \<^item> \<open>Environment\<close>: what the code calls and does not contain, as a record \<open>env\<close> of functions, and
    the history of external actions. \<open>Demo\<close>: one concrete environment and nodes for the witnesses.
  \<^item> \<open>Codec\<close>: \<^verbatim>\<open>MarshalJSON\<close>, \<^verbatim>\<open>UnmarshalJSON\<close>, \<^verbatim>\<open>GobEncode\<close>, \<^verbatim>\<open>GobDecode\<close> and
    \<^verbatim>\<open>BytesForSigning\<close> of \<^verbatim>\<open>data.go\<close>.
  \<^item> \<open>NodeState\<close>: the node as one record: the fields of the Go structs, a store for each kind of
    struct that is shared through pointers, and the list of running goroutines, each with the
    variables it has captured.
  \<^item> \<open>Streams\<close>: \<^verbatim>\<open>basic_out_stream.go\<close>, the stream cache of \<^verbatim>\<open>network_node.go\<close> and
    \<^verbatim>\<open>sendMessageWithRetry\<close>, \<^verbatim>\<open>Connect\<close>.
  \<^item> \<open>Relayer\<close>, \<open>Broadcaster\<close>, \<open>Subscriber\<close>: \<^verbatim>\<open>basic_relayer.go\<close>, \<^verbatim>\<open>basic_broadcaster.go\<close>,
    \<^verbatim>\<open>basic_subscriber.go\<close>, with the goroutines they start.
  \<^item> \<open>Handlers\<close>: the handlers of the messages in \<^verbatim>\<open>basic_network.go\<close>; \<open>Subscriptions\<close> and
    \<open>Queries\<close>: what they guarantee.
  \<^item> \<open>Requests\<close>: \<^verbatim>\<open>getResponseWithRelay\<close>, playlist and status requests, \<^verbatim>\<open>Ping\<close>,
    transcode responses. A goroutine is cut at its blocking points, one definition for each part.
  \<^item> \<open>Dispatch\<close>: \<^verbatim>\<open>basic_in_stream.go\<close>, \<^verbatim>\<open>streamHandler\<close> with the duplicate filter, and the
    loop of \<^verbatim>\<open>SetupProtocol\<close>.
  \<^item> \<open>PeerCache\<close>: \<^verbatim>\<open>peerCache.go\<close>. \<open>NetworkNode\<close>: \<^verbatim>\<open>basic_notifiee.go\<close>, \<^verbatim>\<open>NewNode\<close>, the
    playlists over the DHT and the small accessors.
  \<^item> \<open>Example\<close>: the example program \<^verbatim>\<open>cmd/example.go\<close>.
  \<^item> \<open>Contents\<close>, \<open>Evolution\<close>, \<open>Runs\<close>: the runs of a node. \<open>step\<close> has one rule for each
    message, call, goroutine step and callback; every step is shown to be a sequence of disciplined
    changes (\<open>prim\<close>), which spread only what the node held, received or was given by its client,
    and the locale \<open>node_invariant\<close> lifts a property kept by these changes to all reachable states.
  \<^item> \<open>Invariants\<close>, \<open>ChannelTypes\<close>, \<open>Spread\<close>: its interpretations on the model's node: streams, maps,
    pointers, windows, workers, listeners, owners and types of channels, local delivery; and what a
    node carries.
  \<^item> \<open>Safety\<close>: freedom from panics. \<open>Audience\<close>: the abstract tables of who is relayed to and the
    refinement of them by the handlers. \<open>EndToEnd\<close>, \<open>Viewers\<close>: a playlist on its way between two
    nodes, and a segment on its way over any number of relaying nodes, from client to client. \<open>Routes\<close>:
    a subscription that is passed on opens such a way.
  \<^item> \<open>Mutex\<close>, \<open>StreamTable\<close>, \<open>Frames\<close>, \<open>InFlight\<close>: goroutines statement by statement, where the
    code makes them overlap: the contract of a lock as a locale; the table of streams under
    \<^verbatim>\<open>outStreamsLock\<close>, whose calls are linearizable to the operations of \<open>Streams\<close>, and the
    refresh that does not take the lock; the writes to one stream under \<^verbatim>\<open>el\<close>; and
    subscriptions whose handlers overlap at their sends.
  \<^item> \<open>Network\<close>, \<open>Genuineness\<close>: any number of nodes. Every peer runs this code with an environment of
    its own; what a node writes to a stream is on the wire for its addressee and may arrive any
    number of times, in any order, or never, and a node may be restarted. The clients are handed
    nothing that no client has published.

  \<^bold>\<open>Correspondence.\<close> Definitions have the names of the code; fields of a struct carry a prefix
  (\<open>b_\<close>, \<open>r_\<close>, \<open>s_\<close>; two letters for messages). A function with effects takes the node and
  returns it changed, with its result or error. The iteration order of a Go map is the order of the
  list; it is never relied on. 64-bit numbers are \<^typ>\<open>64 word\<close>. A send on a closed channel, a
  second close and a nil dereference are \<open>Panics\<close>; a send without a receiver is \<open>Blocks\<close>. A message
  counts as sent (\<open>sent_to\<close>) when encoding and flushing it both succeeded.

  \<^bold>\<open>What the lemmas show.\<close> Of the codec: messages survive the wire, and what a signature covers. Of
  the streams: a retried send delivers once or not at all. Of relayers, broadcasters and handlers:
  who is sent what, how often, in which order, on every branch, and what the tables are afterwards.
  Of requests: at most one peer is asked at a time, and an answer reaches its client. Of the
  protocol: no message is misrouted, and a stream is served up to its first serious error. Of all
  reachable states: streams, maps, pointers, windows and workers are consistent, the key of a listener
  names the peer of its stream, channels have one owner and carry the answers to their own request,
  and the only panic that a peer can provoke is the one of a nil listener. Of all reachable states
  of a network: segments, playlists and results are genuine. Of a stream on its way: a subscription
  that is passed on opens a route, and what is broadcast comes back along it. Of goroutines that
  overlap: calls under \<^verbatim>\<open>outStreamsLock\<close> are linearizable and can always return, frames on a
  stream stay whole, and overlapping subscriptions all join one relayer. Some theorems
  state what the code does where it misses its own intention, such as the panic on a nil listener
  or the cancellation that cuts off the node's own subscriber.

  \<^bold>\<open>Assumptions.\<close> Hypotheses about libraries are named: \<open>gob_roundtrip\<close> and \<open>json_roundtrip\<close> (what
  is encoded decodes to itself), \<open>streams_reach\<close> (a stream opened to a peer leads to it), \<open>dials\<close>
  (dialling succeeds), \<open>can_dial\<close> (dialling one peer does), \<open>sound_env\<close> (the encodings and the host
  are as above), \<open>agree\<close>, \<open>same_formats\<close> (all nodes use the same formats). A network has no nodes
  but those that run this code: a foreign node may send what it likes. Each holds of the environment
  that a witness uses.

  \<^bold>\<open>Bounds and termination.\<close> No definition uses fuel. Loops over maps, peers, windows and items of
  a stream are structural recursions; an unbounded loop of a goroutine is one definition per
  iteration, run as often as \<open>step\<close> allows. Timers, tickers and deadlines fire at any time, as
  steps of their own.

  \<^bold>\<open>Not modelled.\<close> \<^verbatim>\<open>basic_reporter.go\<close>, whose methods are empty or return zero values and are
  called by libp2p only; log output; the parsing of the flags of the example; the
  construction of the libp2p host, its keys and its DHT; the callbacks of the notifiee that only
  write to the log. Outside of \<open>Mutex\<close>, \<open>StreamTable\<close>, \<open>Frames\<close> and \<open>InFlight\<close> a handler runs
  to completion: other races on the maps of the network, which have no lock, are left out.
  \<open>SetBroadcaster\<close> and \<open>SetSubscriber\<close> are modelled, but are no steps of a run: only tests call
  them, and they may register a struct under an id that is not its own. A client calls
  \<^verbatim>\<open>Broadcast\<close> and \<^verbatim>\<open>Subscribe\<close> on structs that its node gave out. A message that could not
  be encoded to the end, and the bytes that it left in a buffer, are not on the wire.
\<close>

end
